theory Spec2Isabelle
  imports
    Main
    "HOL-Library.Multiset"
    "HOL-Library.Char_ord"
    "HOL-Library.List_Lexorder"
    "HOL-Library.Product_Lexorder"
    "HOL-Library.Option_ord"
begin

section \<open>The SQL script executor (sql_executor.py)\<close>

text \<open>
  The executor talks to three things outside itself: the PostgreSQL driver (psycopg2),
  the file system and the clock. Each call to one of them is answered by the environment
  \<open>env\<close>, and leaves one event in a trace; the answer may depend on the moment of the
  call, which is the length of the trace so far. A function of the source that performs
  such calls takes the trace and returns it extended. An exception raised by a call is a
  value of \<open>py_exn\<close>, and a call that can raise returns \<open>py_exn + 'a\<close>.
  Calls to the logging module are left out, except those of \<open>_attempt_rollback\<close>, whose
  log lines are all it does when it does not roll back.
\<close>

subsection \<open>Exceptions, events and the environment\<close>

type_synonym path = string

text \<open>
  The text of a script file as \<open>read_text(encoding="utf-8")\<close> returns it: a Python \<open>str\<close>,
  that is a sequence of Unicode code points.
\<close>
type_synonym script = "nat list"

text \<open>A connection handle; the handle opened at moment \<open>t\<close> is named \<open>t\<close>.\<close>
type_synonym conn = nat

text \<open>
  The exception classes the handlers of the source tell apart: psycopg2.OperationalError
  is a psycopg2.Error, and all five are Exceptions.
\<close>
datatype py_exn = OperationalError | Psycopg2Error | OSError | UnicodeDecodeError | OtherException

definition is_psycopg2_error :: "py_exn \<Rightarrow> bool" where
  "is_psycopg2_error e = (e = OperationalError \<or> e = Psycopg2Error)"

definition is_file_error :: "py_exn \<Rightarrow> bool" where
  "is_file_error e = (e = OSError \<or> e = UnicodeDecodeError)"

text \<open>The log lines of \<open>_attempt_rollback\<close>.\<close>
datatype rollback_log =
    AttemptingRollback
  | RollbackSuccessful
  | NoTransactionToRollback
  | CannotRollback
  | RollbackFailed
  | UnexpectedRollbackError

datatype event =
    Connect
  | Sleep nat
  | ReadFile path
  | OpenCursor conn
  | CloseCursor conn
  | Execute conn script
  | Commit conn
  | GetStatus conn
  | Rollback conn
  | Log rollback_log
  | OpenReport string
  | WriteReport string "path list"
  | CloseConn conn

record env =
  connect_result :: "nat \<Rightarrow> py_exn option"
  closed_at :: "nat \<Rightarrow> conn \<Rightarrow> bool"
  read_text :: "nat \<Rightarrow> path \<Rightarrow> py_exn + script"
  cursor_result :: "nat \<Rightarrow> conn \<Rightarrow> py_exn option"
  cursor_close_result :: "nat \<Rightarrow> conn \<Rightarrow> py_exn option"
  execute_result :: "nat \<Rightarrow> conn \<Rightarrow> script \<Rightarrow> py_exn option"
  commit_result :: "nat \<Rightarrow> conn \<Rightarrow> py_exn option"
  transaction_status :: "nat \<Rightarrow> conn \<Rightarrow> py_exn + int"
  rollback_result :: "nat \<Rightarrow> conn \<Rightarrow> py_exn option"
  is_dir :: "path \<Rightarrow> py_exn + bool"
  walk :: "path \<Rightarrow> (path \<times> string list) list"
  is_file :: "path \<Rightarrow> py_exn + bool"
  open_result :: "nat \<Rightarrow> string \<Rightarrow> py_exn option"

subsection \<open>Database connection\<close>

text \<open>
  \<open>connect_db(params, attempt_limit=5, delay=3)\<close>: the loop over
  \<open>range(1, attempt_limit + 1)\<close>. A successful psycopg2.connect returns at once; an
  OperationalError sleeps when \<open>attempt < attempt_limit\<close> and goes on; any other
  exception breaks. After the loop the function returns None. The connection parameters
  are the environment's business and are not a parameter here; \<open>delay\<close> is a natural
  number of seconds.
\<close>
fun connect_loop :: "env \<Rightarrow> int \<Rightarrow> nat \<Rightarrow> int list \<Rightarrow> event list \<Rightarrow> conn option \<times> event list" where
  "connect_loop env attempt_limit delay [] tr = (None, tr)"
| "connect_loop env attempt_limit delay (attempt # rest) tr =
     (case connect_result env (length tr) of
        None \<Rightarrow> (Some (length tr), tr @ [Connect])
      | Some e \<Rightarrow>
          if e = OperationalError then
            (if attempt < attempt_limit
             then connect_loop env attempt_limit delay rest (tr @ [Connect, Sleep delay])
             else connect_loop env attempt_limit delay rest (tr @ [Connect]))
          else (None, tr @ [Connect]))"

definition connect_db :: "env \<Rightarrow> int \<Rightarrow> nat \<Rightarrow> event list \<Rightarrow> conn option \<times> event list" where
  "connect_db env attempt_limit delay tr = connect_loop env attempt_limit delay [1..attempt_limit] tr"

text \<open>
  \<open>_ensure_connection(current_conn, params)\<close>: the current connection when there is one
  and it is not closed, otherwise what \<open>connect_db(params)\<close> gives with its defaults.
\<close>
definition ensure_connection :: "env \<Rightarrow> conn option \<Rightarrow> event list \<Rightarrow> conn option \<times> event list" where
  "ensure_connection env current_conn tr =
     (case current_conn of
        Some c \<Rightarrow> if \<not> closed_at env (length tr) c then (Some c, tr) else connect_db env 5 3 tr
      | None \<Rightarrow> connect_db env 5 3 tr)"

subsection \<open>Rollback\<close>

text \<open>psycopg2.extensions.TRANSACTION_STATUS_INTRANS; the source compares with it and with 3.\<close>
definition TRANSACTION_STATUS_INTRANS :: int where
  "TRANSACTION_STATUS_INTRANS = 2"

text \<open>The body of the \<open>try\<close> of \<open>_attempt_rollback\<close>, which can raise.\<close>
definition attempt_rollback_try :: "env \<Rightarrow> conn option \<Rightarrow> event list \<Rightarrow> (py_exn + unit) \<times> event list" where
  "attempt_rollback_try env conn tr =
     (case conn of
        None \<Rightarrow> (Inr (), tr @ [Log CannotRollback])
      | Some c \<Rightarrow>
          if closed_at env (length tr) c then (Inr (), tr @ [Log CannotRollback])
          else
            (case transaction_status env (length tr) c of
               Inl e \<Rightarrow> (Inl e, tr @ [GetStatus c])
             | Inr status \<Rightarrow>
                 if status = TRANSACTION_STATUS_INTRANS \<or> status = 3 then
                   (let tr1 = tr @ [GetStatus c, Log AttemptingRollback] in
                    case rollback_result env (length tr1) c of
                      Some e \<Rightarrow> (Inl e, tr1 @ [Rollback c])
                    | None \<Rightarrow> (Inr (), tr1 @ [Rollback c, Log RollbackSuccessful]))
                 else (Inr (), tr @ [GetStatus c, Log NoTransactionToRollback])))"

text \<open>
  \<open>_attempt_rollback(conn, context_msg)\<close>: the \<open>try\<close> with its two handlers, for
  psycopg2.Error and for Exception. What the function gives back is the outcome of the
  whole statement: an exception that leaves it, or nothing.
\<close>
definition attempt_rollback_stmt :: "env \<Rightarrow> conn option \<Rightarrow> event list \<Rightarrow> (py_exn + unit) \<times> event list" where
  "attempt_rollback_stmt env conn tr =
     (case attempt_rollback_try env conn tr of
        (Inr u, tr') \<Rightarrow> (Inr u, tr')
      | (Inl e, tr') \<Rightarrow>
          if is_psycopg2_error e then (Inr (), tr' @ [Log RollbackFailed])
          else (Inr (), tr' @ [Log UnexpectedRollbackError]))"

definition attempt_rollback :: "env \<Rightarrow> conn option \<Rightarrow> event list \<Rightarrow> event list" where
  "attempt_rollback env conn tr = snd (attempt_rollback_stmt env conn tr)"

subsection \<open>Script runner\<close>

text \<open>
  \<open>str.isspace\<close>: the code points that Python takes for whitespace (those of Unicode
  category Zs or of bidirectional class WS, B or S), and \<open>str.strip()\<close> with no argument,
  which removes them from both ends.
\<close>
definition py_isspace :: "nat \<Rightarrow> bool" where
  "py_isspace c =
     (c \<in> set [9, 10, 11, 12, 13, 28, 29, 30, 31, 32, 133, 160, 5760,
                8192, 8193, 8194, 8195, 8196, 8197, 8198, 8199, 8200, 8201, 8202,
                8232, 8233, 8239, 8287, 12288])"

definition py_strip :: "script \<Rightarrow> script" where
  "py_strip s = rev (dropWhile py_isspace (rev (dropWhile py_isspace s)))"

text \<open>
  \<open>_read_sql_file(sql_file_path)\<close>: the content, None when stripping it leaves nothing;
  an OSError or UnicodeDecodeError is logged and raised again, anything else is raised
  as it is.
\<close>
definition read_sql_file :: "env \<Rightarrow> path \<Rightarrow> event list \<Rightarrow> (py_exn + script option) \<times> event list" where
  "read_sql_file env sql_file_path tr =
     (case read_text env (length tr) sql_file_path of
        Inl e \<Rightarrow> (Inl e, tr @ [ReadFile sql_file_path])
      | Inr sql_script \<Rightarrow>
          if py_strip sql_script = [] then (Inr None, tr @ [ReadFile sql_file_path])
          else (Inr (Some sql_script), tr @ [ReadFile sql_file_path]))"

text \<open>
  A cursor remembers its connection, and whether a \<open>close()\<close> on it has returned without
  raising.
\<close>
record cursor_obj =
  cur_conn :: conn
  cur_closed :: bool

text \<open>
  \<open>cursor.closed\<close>: psycopg2 reports a cursor as closed once it has been closed itself, and
  also once its connection is closed.
\<close>
definition cursor_closed :: "env \<Rightarrow> nat \<Rightarrow> cursor_obj \<Rightarrow> bool" where
  "cursor_closed env t k = (cur_closed k \<or> closed_at env t (cur_conn k))"

text \<open>\<open>conn.cursor()\<close>\<close>
definition open_cursor :: "env \<Rightarrow> conn \<Rightarrow> event list \<Rightarrow> (py_exn + cursor_obj) \<times> event list" where
  "open_cursor env c tr =
     (case cursor_result env (length tr) c of
        Some e \<Rightarrow> (Inl e, tr @ [OpenCursor c])
      | None \<Rightarrow> (Inr \<lparr>cur_conn = c, cur_closed = False\<rparr>, tr @ [OpenCursor c]))"

text \<open>
  \<open>if cursor and not cursor.closed: try: cursor.close() except Exception: pass\<close>
  (the orchestrator's copy logs the exception instead of passing).
\<close>
definition close_cursor_if_open :: "env \<Rightarrow> cursor_obj option \<Rightarrow> event list \<Rightarrow> cursor_obj option \<times> event list" where
  "close_cursor_if_open env cur tr =
     (case cur of
        None \<Rightarrow> (None, tr)
      | Some k \<Rightarrow>
          if cursor_closed env (length tr) k then (Some k, tr)
          else
            (case cursor_close_result env (length tr) (cur_conn k) of
               None \<Rightarrow> (Some (k\<lparr>cur_closed := True\<rparr>), tr @ [CloseCursor (cur_conn k)])
             | Some e \<Rightarrow> (Some k, tr @ [CloseCursor (cur_conn k)])))"

text \<open>
  \<open>_execute_sql(cursor, sql_script, sql_file_path)\<close>: a psycopg2.Error is logged and
  raised again, anything else is raised as it is.
\<close>
definition execute_sql :: "env \<Rightarrow> cursor_obj \<Rightarrow> script \<Rightarrow> event list \<Rightarrow> (py_exn + unit) \<times> event list" where
  "execute_sql env cur sql_script tr =
     (case execute_result env (length tr) (cur_conn cur) sql_script of
        Some e \<Rightarrow> (Inl e, tr @ [Execute (cur_conn cur) sql_script])
      | None \<Rightarrow> (Inr (), tr @ [Execute (cur_conn cur) sql_script]))"

text \<open>\<open>_attempt_commit(conn, sql_file_path, mode)\<close>, likewise.\<close>
definition attempt_commit :: "env \<Rightarrow> conn \<Rightarrow> event list \<Rightarrow> (py_exn + unit) \<times> event list" where
  "attempt_commit env c tr =
     (case commit_result env (length tr) c of
        Some e \<Rightarrow> (Inl e, tr @ [Commit c])
      | None \<Rightarrow> (Inr (), tr @ [Commit c]))"

subsection \<open>Mode-specific workflows\<close>

text \<open>
  The local variables of a workflow, and the trace. \<open>w_failed_all_or_nothing\<close> is a
  variable of the all-or-nothing workflow only; the other two return the constant False
  under that key.
\<close>
record workflow =
  w_conn :: "conn option"
  w_cursor :: "cursor_obj option"
  w_processed :: "path list"
  w_errors :: "path list"
  w_empty_files :: "path list"
  w_fatal_error_occurred :: bool
  w_failed_all_or_nothing :: bool
  w_trace :: "event list"

definition workflow_start :: "conn option \<Rightarrow> event list \<Rightarrow> workflow" where
  "workflow_start conn tr =
     \<lparr>w_conn = conn, w_cursor = None, w_processed = [], w_errors = [], w_empty_files = [],
      w_fatal_error_occurred = False, w_failed_all_or_nothing = False, w_trace = tr\<rparr>"

text \<open>
  The \<open>try\<close> block of one iteration of the two per-file workflows (the same statements in
  both): read, leave with \<open>continue\<close> on an empty file (\<open>Inr False\<close>), close a cursor left
  open, take a new one, execute, commit (\<open>Inr True\<close>). With the outcome come the value of
  the variable \<open>cursor\<close> and the trace.
\<close>
definition per_file_try ::
  "env \<Rightarrow> path \<Rightarrow> conn \<Rightarrow> cursor_obj option \<Rightarrow> event list
     \<Rightarrow> (py_exn + bool) \<times> cursor_obj option \<times> event list" where
  "per_file_try env sql_file_path c cur tr =
     (case read_sql_file env sql_file_path tr of
        (Inl e, tr1) \<Rightarrow> (Inl e, cur, tr1)
      | (Inr None, tr1) \<Rightarrow> (Inr False, cur, tr1)
      | (Inr (Some sql_script), tr1) \<Rightarrow>
          (case close_cursor_if_open env cur tr1 of
             (cur1, tr2) \<Rightarrow>
               (case open_cursor env c tr2 of
                  (Inl e, tr3) \<Rightarrow> (Inl e, cur1, tr3)
                | (Inr cur2, tr3) \<Rightarrow>
                    (case execute_sql env cur2 sql_script tr3 of
                       (Inl e, tr4) \<Rightarrow> (Inl e, Some cur2, tr4)
                     | (Inr u, tr4) \<Rightarrow>
                         (case attempt_commit env c tr4 of
                            (Inl e, tr5) \<Rightarrow> (Inl e, Some cur2, tr5)
                          | (Inr u', tr5) \<Rightarrow> (Inr True, Some cur2, tr5))))))"

text \<open>The \<open>finally\<close> clause of an iteration of the per-file workflows.\<close>
definition finally_close_cursor :: "env \<Rightarrow> workflow \<Rightarrow> workflow" where
  "finally_close_cursor env w =
     (case close_cursor_if_open env (w_cursor w) (w_trace w) of
        (cur, tr) \<Rightarrow> w\<lparr>w_cursor := cur, w_trace := tr\<rparr>)"

text \<open>
  One iteration of the loop of \<open>_process_per_file\<close>; the boolean says whether the loop
  goes on (\<open>continue\<close>, or the end of the body) or stops (\<open>break\<close>).
\<close>
definition per_file_iteration :: "env \<Rightarrow> path \<Rightarrow> workflow \<Rightarrow> bool \<times> workflow" where
  "per_file_iteration env sql_file_path w =
     (case ensure_connection env (w_conn w) (w_trace w) of
        (None, tr) \<Rightarrow>
          (False, w\<lparr>w_conn := None, w_fatal_error_occurred := True, w_trace := tr\<rparr>)
      | (Some c, tr) \<Rightarrow>
          (case per_file_try env sql_file_path c (w_cursor w) tr of
             (r, cur, tr1) \<Rightarrow>
               (let w1 = w\<lparr>w_conn := Some c, w_cursor := cur, w_trace := tr1\<rparr>;
                    w2 = (case r of
                            Inr True \<Rightarrow> w1\<lparr>w_processed := w_processed w1 @ [sql_file_path]\<rparr>
                          | Inr False \<Rightarrow> w1\<lparr>w_empty_files := w_empty_files w1 @ [sql_file_path]\<rparr>
                          | Inl e \<Rightarrow>
                              if is_file_error e then
                                w1\<lparr>w_errors := w_errors w1 @ [sql_file_path]\<rparr>
                              else if is_psycopg2_error e then
                                w1\<lparr>w_errors := w_errors w1 @ [sql_file_path],
                                   w_trace := attempt_rollback env (Some c) tr1\<rparr>
                              else
                                w1\<lparr>w_errors := w_errors w1 @ [sql_file_path],
                                   w_trace := attempt_rollback env (Some c) tr1\<rparr>)
                in (True, finally_close_cursor env w2))))"

fun per_file_loop :: "env \<Rightarrow> path list \<Rightarrow> workflow \<Rightarrow> workflow" where
  "per_file_loop env [] w = w"
| "per_file_loop env (sql_file_path # rest) w =
     (case per_file_iteration env sql_file_path w of
        (True, w') \<Rightarrow> per_file_loop env rest w'
      | (False, w') \<Rightarrow> w')"

definition process_per_file :: "env \<Rightarrow> conn option \<Rightarrow> path list \<Rightarrow> event list \<Rightarrow> workflow" where
  "process_per_file env conn sorted_sql_files tr =
     per_file_loop env sorted_sql_files (workflow_start conn tr)"

text \<open>
  One iteration of the loop of \<open>_process_per_file_until_error\<close>; its three handlers, for
  file errors, psycopg2.Error and Exception, do the same.
\<close>
definition until_error_iteration :: "env \<Rightarrow> path \<Rightarrow> workflow \<Rightarrow> bool \<times> workflow" where
  "until_error_iteration env sql_file_path w =
     (case ensure_connection env (w_conn w) (w_trace w) of
        (None, tr) \<Rightarrow>
          (False, w\<lparr>w_conn := None, w_fatal_error_occurred := True,
                    w_errors := w_errors w @ [sql_file_path], w_trace := tr\<rparr>)
      | (Some c, tr) \<Rightarrow>
          (case per_file_try env sql_file_path c (w_cursor w) tr of
             (r, cur, tr1) \<Rightarrow>
               (let w1 = w\<lparr>w_conn := Some c, w_cursor := cur, w_trace := tr1\<rparr> in
                case r of
                  Inr True \<Rightarrow>
                    (True, finally_close_cursor env
                             (w1\<lparr>w_processed := w_processed w1 @ [sql_file_path]\<rparr>))
                | Inr False \<Rightarrow>
                    (True, finally_close_cursor env
                             (w1\<lparr>w_empty_files := w_empty_files w1 @ [sql_file_path]\<rparr>))
                | Inl e \<Rightarrow>
                    if is_file_error e then
                      (False, finally_close_cursor env
                                (w1\<lparr>w_errors := w_errors w1 @ [sql_file_path],
                                    w_fatal_error_occurred := True,
                                    w_trace := attempt_rollback env (Some c) tr1\<rparr>))
                    else if is_psycopg2_error e then
                      (False, finally_close_cursor env
                                (w1\<lparr>w_errors := w_errors w1 @ [sql_file_path],
                                    w_fatal_error_occurred := True,
                                    w_trace := attempt_rollback env (Some c) tr1\<rparr>))
                    else
                      (False, finally_close_cursor env
                                (w1\<lparr>w_errors := w_errors w1 @ [sql_file_path],
                                    w_fatal_error_occurred := True,
                                    w_trace := attempt_rollback env (Some c) tr1\<rparr>)))))"

fun until_error_loop :: "env \<Rightarrow> path list \<Rightarrow> workflow \<Rightarrow> workflow" where
  "until_error_loop env [] w = w"
| "until_error_loop env (sql_file_path # rest) w =
     (case until_error_iteration env sql_file_path w of
        (True, w') \<Rightarrow> until_error_loop env rest w'
      | (False, w') \<Rightarrow> w')"

definition process_per_file_until_error :: "env \<Rightarrow> conn option \<Rightarrow> path list \<Rightarrow> event list \<Rightarrow> workflow" where
  "process_per_file_until_error env conn sorted_sql_files tr =
     until_error_loop env sorted_sql_files (workflow_start conn tr)"

text \<open>
  One iteration of the loop of \<open>_process_all_or_nothing\<close>. The cursor \<open>k\<close> is the one taken
  before the loop, whatever connection \<open>_ensure_connection\<close> returns. The inner \<open>try\<close>
  reads the file, leaves with \<open>continue\<close> on an empty one (\<open>Inr False\<close>) and executes the
  script (\<open>Inr True\<close>); its three handlers, for file errors, psycopg2.Error and Exception,
  do the same.
\<close>
definition all_or_nothing_iteration :: "env \<Rightarrow> cursor_obj \<Rightarrow> path \<Rightarrow> workflow \<Rightarrow> bool \<times> workflow" where
  "all_or_nothing_iteration env k sql_file_path w =
     (case ensure_connection env (w_conn w) (w_trace w) of
        (None, tr) \<Rightarrow>
          (False, w\<lparr>w_conn := None, w_fatal_error_occurred := True,
                    w_failed_all_or_nothing := True,
                    w_errors := w_errors w @ [sql_file_path],
                    w_trace := attempt_rollback env None tr\<rparr>)
      | (Some c, tr) \<Rightarrow>
          (case (case read_sql_file env sql_file_path tr of
                   (Inl e, tr1) \<Rightarrow> (Inl e, tr1)
                 | (Inr None, tr1) \<Rightarrow> (Inr False, tr1)
                 | (Inr (Some sql_script), tr1) \<Rightarrow>
                     (case execute_sql env k sql_script tr1 of
                        (Inl e, tr2) \<Rightarrow> (Inl e, tr2)
                      | (Inr u, tr2) \<Rightarrow> (Inr True, tr2))) of
             (Inr False, tr1) \<Rightarrow>
               (True, w\<lparr>w_conn := Some c,
                        w_empty_files := w_empty_files w @ [sql_file_path], w_trace := tr1\<rparr>)
           | (Inr True, tr1) \<Rightarrow>
               (True, w\<lparr>w_conn := Some c,
                        w_processed := w_processed w @ [sql_file_path], w_trace := tr1\<rparr>)
           | (Inl e, tr1) \<Rightarrow>
               if is_file_error e then
                 (False, w\<lparr>w_conn := Some c, w_errors := w_errors w @ [sql_file_path],
                           w_fatal_error_occurred := True, w_failed_all_or_nothing := True,
                           w_trace := attempt_rollback env (Some c) tr1\<rparr>)
               else if is_psycopg2_error e then
                 (False, w\<lparr>w_conn := Some c, w_errors := w_errors w @ [sql_file_path],
                           w_fatal_error_occurred := True, w_failed_all_or_nothing := True,
                           w_trace := attempt_rollback env (Some c) tr1\<rparr>)
               else
                 (False, w\<lparr>w_conn := Some c, w_errors := w_errors w @ [sql_file_path],
                           w_fatal_error_occurred := True, w_failed_all_or_nothing := True,
                           w_trace := attempt_rollback env (Some c) tr1\<rparr>)))"

fun all_or_nothing_loop :: "env \<Rightarrow> cursor_obj \<Rightarrow> path list \<Rightarrow> workflow \<Rightarrow> workflow" where
  "all_or_nothing_loop env k [] w = w"
| "all_or_nothing_loop env k (sql_file_path # rest) w =
     (case all_or_nothing_iteration env k sql_file_path w of
        (True, w') \<Rightarrow> all_or_nothing_loop env k rest w'
      | (False, w') \<Rightarrow> w')"

text \<open>
  \<open>_process_all_or_nothing\<close>: the cursor is taken once, inside the outer \<open>try\<close>; when
  that raises (on None, an AttributeError) the outer handler marks the run failed and
  attempts a rollback.
\<close>
definition process_all_or_nothing :: "env \<Rightarrow> conn option \<Rightarrow> path list \<Rightarrow> event list \<Rightarrow> workflow" where
  "process_all_or_nothing env conn sorted_sql_files tr =
     (let w = workflow_start conn tr in
      case conn of
        None \<Rightarrow>
          w\<lparr>w_fatal_error_occurred := True, w_failed_all_or_nothing := True,
            w_trace := attempt_rollback env None tr\<rparr>
      | Some c \<Rightarrow>
          (case open_cursor env c tr of
             (Inl e, tr1) \<Rightarrow>
               w\<lparr>w_fatal_error_occurred := True, w_failed_all_or_nothing := True,
                 w_trace := attempt_rollback env (Some c) tr1\<rparr>
           | (Inr k, tr1) \<Rightarrow>
               all_or_nothing_loop env k sorted_sql_files (w\<lparr>w_cursor := Some k, w_trace := tr1\<rparr>)))"

subsection \<open>Natural sorting\<close>

text \<open>
  Modelled from the spec: \<open>natsorted\<close> of the third-party natsort package, which the
  source imports and which is not part of the repository. The spec's Natural Sorter
  compares embedded numeric runs by numeric value and the segments between them
  lexically, and falls back to the full lexical comparison of the two strings. The key of
  a string is the list of its segments, each with the number that follows it (None at the
  end of the string); keys are compared as lists, lexicographically.
\<close>
definition is_digit :: "char \<Rightarrow> bool" where
  "is_digit c = (c \<in> set ''0123456789'')"

definition digit_val :: "char \<Rightarrow> nat" where
  "digit_val c = of_char c - 48"

fun chunks :: "string \<Rightarrow> string \<Rightarrow> nat option \<Rightarrow> (string \<times> nat option) list" where
  "chunks [] txt num = [(txt, num)]"
| "chunks (c # cs) txt num =
     (if is_digit c then
        chunks cs txt (Some (10 * (case num of None \<Rightarrow> 0 | Some n \<Rightarrow> n) + digit_val c))
      else
        (case num of
           None \<Rightarrow> chunks cs (txt @ [c]) None
         | Some n \<Rightarrow> (txt, Some n) # chunks cs [c] None))"

definition natsort_key :: "string \<Rightarrow> (string \<times> nat option) list \<times> string" where
  "natsort_key s = (chunks s [] None, s)"

definition natsorted :: "string list \<Rightarrow> string list" where
  "natsorted xs = sort_key natsort_key xs"

subsection \<open>File retrieval\<close>

definition endswith :: "string \<Rightarrow> string \<Rightarrow> bool" where
  "endswith s ext = (length ext \<le> length s \<and> drop (length s - length ext) s = ext)"

text \<open>
  \<open>current_dir / filename\<close>, where \<open>current_dir = pathlib.Path(root)\<close> and \<open>filename\<close> is
  a file name that \<open>os.walk\<close> lists (it holds no slash and is neither \<open>.\<close> nor \<open>..\<close>). The
  \<open>root\<close> of the model is the directory as pathlib spells it, which is how \<open>walk\<close> of the
  environment gives it: the current directory \<open>.\<close> disappears from the joined path, and no
  slash is added after a root that ends with one.
\<close>
definition joinpath :: "path \<Rightarrow> string \<Rightarrow> path" where
  "joinpath root filename =
     (if root = ''.'' then filename
      else if root \<noteq> [] \<and> last root = CHR ''/'' then root @ filename
      else root @ ''/'' @ filename)"

text \<open>
  The inner loop of \<open>collect_file_paths\<close>: a name with the extension is a file found when
  \<open>is_file()\<close> is true, and an anomaly when it is false or raises (OSError or any other
  exception).
\<close>
fun scan_files :: "env \<Rightarrow> string \<Rightarrow> path \<Rightarrow> string list \<Rightarrow> path list \<times> path list \<Rightarrow> path list \<times> path list" where
  "scan_files env ext root [] acc = acc"
| "scan_files env ext root (filename # rest) (files_found, anomalies) =
     (if endswith filename ext then
        (case is_file env (joinpath root filename) of
           Inr True \<Rightarrow>
             scan_files env ext root rest (files_found @ [joinpath root filename], anomalies)
         | Inr False \<Rightarrow>
             scan_files env ext root rest (files_found, anomalies @ [joinpath root filename])
         | Inl e \<Rightarrow>
             scan_files env ext root rest (files_found, anomalies @ [joinpath root filename]))
      else scan_files env ext root rest (files_found, anomalies))"

fun scan_dirs :: "env \<Rightarrow> string \<Rightarrow> (path \<times> string list) list \<Rightarrow> path list \<times> path list \<Rightarrow> path list \<times> path list" where
  "scan_dirs env ext [] acc = acc"
| "scan_dirs env ext ((root, files) # rest) acc = scan_dirs env ext rest (scan_files env ext root files acc)"

text \<open>\<open>collect_file_paths(dir_path, ext)\<close>: the pair of \<open>files_found\<close> and \<open>anomalies\<close>.\<close>
definition collect_file_paths :: "env \<Rightarrow> path \<Rightarrow> string \<Rightarrow> path list \<times> path list" where
  "collect_file_paths env dir_path ext = scan_dirs env ext (walk env dir_path) ([], [])"

subsection \<open>Orchestrator\<close>

text \<open>
  The dictionary \<open>results\<close>. The key \<open>unprocessed_files\<close> is added by the \<open>finally\<close>
  clause and read only after that.
\<close>
record results =
  processed :: "path list"
  file_anomalies :: "path list"
  errors :: "path list"
  empty_files :: "path list"
  fatal_error_occurred :: bool
  failed_all_or_nothing :: bool
  connection :: "conn option"
  cursor :: "cursor_obj option"
  unprocessed_files :: "path list"

definition initial_results :: "conn option \<Rightarrow> results" where
  "initial_results conn =
     \<lparr>processed = [], file_anomalies = [], errors = [], empty_files = [],
      fatal_error_occurred = False, failed_all_or_nothing = False,
      connection = conn, cursor = None, unprocessed_files = []\<rparr>"

text \<open>
  \<open>results.update(...)\<close> with the dictionary a workflow returns; only the all-or-nothing
  workflow returns the key \<open>cursor\<close>.
\<close>
definition update_results :: "results \<Rightarrow> workflow \<Rightarrow> bool \<Rightarrow> results" where
  "update_results r w with_cursor =
     r\<lparr>processed := w_processed w, errors := w_errors w, empty_files := w_empty_files w,
       fatal_error_occurred := w_fatal_error_occurred w,
       failed_all_or_nothing := w_failed_all_or_nothing w,
       connection := w_conn w,
       cursor := (if with_cursor then w_cursor w else cursor r)\<rparr>"

text \<open>
  The final commit or rollback of the all-or-nothing mode: the \<open>try\<close> commits on an open
  connection and raises an OperationalError on None or a closed one; both handlers, for
  psycopg2.Error and for Exception, mark the run failed and attempt a rollback.
\<close>
definition final_commit :: "env \<Rightarrow> results \<Rightarrow> event list \<Rightarrow> results \<times> event list" where
  "final_commit env r tr =
     (if \<not> fatal_error_occurred r then
        (case (case connection r of
                 None \<Rightarrow> (Inl OperationalError, tr)
               | Some c \<Rightarrow>
                   if \<not> closed_at env (length tr) c then attempt_commit env c tr
                   else (Inl OperationalError, tr)) of
           (Inr u, tr1) \<Rightarrow> (r, tr1)
         | (Inl e, tr1) \<Rightarrow>
             if is_psycopg2_error e then
               (r\<lparr>fatal_error_occurred := True, failed_all_or_nothing := True\<rparr>,
                attempt_rollback env (connection r) tr1)
             else
               (r\<lparr>fatal_error_occurred := True, failed_all_or_nothing := True\<rparr>,
                attempt_rollback env (connection r) tr1))
      else (r\<lparr>failed_all_or_nothing := True\<rparr>, tr))"

text \<open>How the \<open>try\<close> of the orchestrator is left.\<close>
datatype returned = ReturnFalse | ReturnTrue | ReturnResults

definition gated_modes :: "string list" where
  "gated_modes = [''all-or-nothing'', ''per-file-until-error'']"

text \<open>
  The \<open>try\<close> block of \<open>execute_sql_scripts_in_dir\<close> with its handler, for a connection
  that is not None: how it returns, the dictionary \<open>results\<close> and the variable
  \<open>sorted_sql_files\<close> as the \<open>finally\<close> clause finds them, and the trace. The only statement
  of the block that can raise an Exception not handled further inside is
  \<open>sql_dir.is_dir()\<close>; the handler \<open>except Exception\<close> then marks the run fatal, attempts a
  rollback and returns the results.
\<close>
definition orchestrate_try ::
  "env \<Rightarrow> conn \<Rightarrow> path \<Rightarrow> string \<Rightarrow> event list \<Rightarrow> returned \<times> results \<times> path list \<times> event list" where
  "orchestrate_try env conn sql_dir transaction_mode tr =
     (let results0 = initial_results (Some conn) in
      case is_dir env sql_dir of
        Inl e \<Rightarrow>
          (ReturnResults, results0\<lparr>fatal_error_occurred := True\<rparr>, [],
           attempt_rollback env (Some conn) tr)
      | Inr False \<Rightarrow> (ReturnFalse, results0, [], tr)
      | Inr True \<Rightarrow>
        (case collect_file_paths env sql_dir ''.sql'' of
           (sql_files_found, anomalies) \<Rightarrow>
             (let results1 = results0\<lparr>file_anomalies := natsorted anomalies\<rparr> in
              if length anomalies > 0 \<and> transaction_mode \<in> set gated_modes then
                (ReturnResults,
                 results1\<lparr>fatal_error_occurred := True,
                          errors := errors results1 @ file_anomalies results1\<rparr>,
                 [], tr)
              else
                (let sorted_sql_files = natsorted sql_files_found in
                 if sorted_sql_files = [] then (ReturnTrue, results1, sorted_sql_files, tr)
                 else if transaction_mode = ''per-file'' then
                   (let w = process_per_file env (connection results1) sorted_sql_files tr
                    in (ReturnResults, update_results results1 w False, sorted_sql_files, w_trace w))
                 else if transaction_mode = ''per-file-until-error'' then
                   (let w = process_per_file_until_error env (connection results1) sorted_sql_files tr
                    in (ReturnResults, update_results results1 w False, sorted_sql_files, w_trace w))
                 else if transaction_mode = ''all-or-nothing'' then
                   (let w = process_all_or_nothing env (connection results1) sorted_sql_files tr in
                    case final_commit env (update_results results1 w True) (w_trace w) of
                      (results2, tr1) \<Rightarrow> (ReturnResults, results2, sorted_sql_files, tr1))
                 else
                   (ReturnFalse, results1\<lparr>fatal_error_occurred := True\<rparr>, sorted_sql_files, tr)))))"

text \<open>The name under which the list \<open>processed\<close> is reported.\<close>
definition processed_type :: "results \<Rightarrow> string" where
  "processed_type r = (if failed_all_or_nothing r then ''executable_files'' else ''committed_files'')"

definition report_listing :: "results \<Rightarrow> string \<Rightarrow> path list" where
  "report_listing r suffix =
     (if suffix = ''processed'' then processed r
      else if suffix = ''file_anomalies'' then file_anomalies r
      else if suffix = ''errors'' then errors r
      else if suffix = ''empty_files'' then empty_files r
      else if suffix = ''unprocessed_files'' then unprocessed_files r
      else [])"

text \<open>
  The loop that writes the report files, one per suffix; the first \<open>open\<close> that raises
  ends it (the handler only logs). A report is named by its category; the time stamp and
  the mode in the file name are left out.
\<close>
fun write_reports :: "env \<Rightarrow> results \<Rightarrow> string list \<Rightarrow> event list \<Rightarrow> event list" where
  "write_reports env r [] tr = tr"
| "write_reports env r (suffix # rest) tr =
     (let name = (if suffix = ''processed'' then processed_type r else suffix) in
      case open_result env (length tr) name of
        Some e \<Rightarrow> tr @ [OpenReport name]
      | None \<Rightarrow>
          write_reports env r rest (tr @ [OpenReport name, WriteReport name (report_listing r suffix)]))"

definition report_suffixes :: "string list" where
  "report_suffixes = [''processed'', ''file_anomalies'', ''errors'', ''empty_files'', ''unprocessed_files'']"

text \<open>
  The \<open>finally\<close> clause: close the cursor the results hold, compute \<open>unprocessed_files\<close>
  from \<open>sorted_sql_files\<close>, write the reports.
\<close>
definition orchestrate_finally :: "env \<Rightarrow> results \<Rightarrow> path list \<Rightarrow> event list \<Rightarrow> results \<times> event list" where
  "orchestrate_finally env r sorted_sql_files tr =
     (case close_cursor_if_open env (cursor r) tr of
        (cur, tr1) \<Rightarrow>
          (let viewed = set (processed r @ errors r @ empty_files r);
               r1 = r\<lparr>cursor := cur,
                      unprocessed_files := filter (\<lambda>x. x \<notin> viewed) sorted_sql_files\<rparr>
           in (r1, write_reports env r1 report_suffixes tr1)))"

text \<open>What \<open>execute_sql_scripts_in_dir\<close> returns: a boolean or the dictionary.\<close>
datatype retval = RetBool bool | RetResults results

text \<open>
  The run as the \<open>finally\<close> clause leaves it: the way the \<open>try\<close> returned, the final
  dictionary and the trace.
\<close>
definition orchestrate :: "env \<Rightarrow> conn \<Rightarrow> path \<Rightarrow> string \<Rightarrow> event list \<Rightarrow> returned \<times> results \<times> event list" where
  "orchestrate env conn sql_dir transaction_mode tr =
     (case orchestrate_try env conn sql_dir transaction_mode tr of
        (ret, r, sorted_sql_files, tr1) \<Rightarrow>
          (case orchestrate_finally env r sorted_sql_files tr1 of
             (r1, tr2) \<Rightarrow> (ret, r1, tr2)))"

text \<open>
  \<open>execute_sql_scripts_in_dir(conn, db_params, sql_dir, transaction_mode)\<close>: False at once
  without a connection; otherwise the \<open>try\<close> and its \<open>finally\<close>. The dictionary returned is
  the object the \<open>finally\<close> clause has updated.
\<close>
definition execute_sql_scripts_in_dir ::
  "env \<Rightarrow> conn option \<Rightarrow> path \<Rightarrow> string \<Rightarrow> event list \<Rightarrow> retval \<times> event list" where
  "execute_sql_scripts_in_dir env conn sql_dir transaction_mode tr =
     (case conn of
        None \<Rightarrow> (RetBool False, tr)
      | Some c \<Rightarrow>
          (case orchestrate env c sql_dir transaction_mode tr of
             (ReturnFalse, r, tr1) \<Rightarrow> (RetBool False, tr1)
           | (ReturnTrue, r, tr1) \<Rightarrow> (RetBool True, tr1)
           | (ReturnResults, r, tr1) \<Rightarrow> (RetResults r, tr1)))"

subsection \<open>Entry point\<close>

definition transaction_mode_choices :: "string list" where
  "transaction_mode_choices = [''per-file'', ''all-or-nothing'', ''per-file-until-error'']"

text \<open>The \<open>finally\<close> clause of the entry point, and the exit status.\<close>
definition main_finally :: "env \<Rightarrow> conn option \<Rightarrow> bool \<Rightarrow> event list \<Rightarrow> int \<times> event list" where
  "main_finally env active_connection execution_successful tr =
     (let tr1 = (case active_connection of
                   None \<Rightarrow> tr
                 | Some c \<Rightarrow> if \<not> closed_at env (length tr) c then tr @ [CloseConn c] else tr)
      in (if execution_successful then 0 else 1, tr1))"

text \<open>
  The script run as a program, with the transaction mode and the directory of the
  command line: the exit status and the trace. A mode outside the choices is refused by
  the argument parser with status 2. Reading \<open>fatal_error_occurred\<close> with \<open>.get\<close> from a
  value that is the boolean True raises an AttributeError, which the handler of the main
  \<open>try\<close> answers with a rollback attempt and \<open>execution_successful = False\<close>.
\<close>
definition main :: "env \<Rightarrow> string \<Rightarrow> path \<Rightarrow> int \<times> event list" where
  "main env transaction_mode sql_dir =
     (if transaction_mode \<notin> set transaction_mode_choices then (2, [])
      else
        (case connect_db env 5 3 [] of
           (None, tr) \<Rightarrow> (1, tr)
         | (Some c, tr) \<Rightarrow>
             (case execute_sql_scripts_in_dir env (Some c) sql_dir transaction_mode tr of
                (RetBool False, tr1) \<Rightarrow> main_finally env (Some c) False tr1
              | (RetBool True, tr1) \<Rightarrow>
                  main_finally env (Some c) False (attempt_rollback env (Some c) tr1)
              | (RetResults r, tr1) \<Rightarrow>
                  main_finally env (connection r) (\<not> fatal_error_occurred r) tr1)))"

section \<open>Notions used to state the properties\<close>

subsection \<open>Connection attempts\<close>

text \<open>The events of \<open>k\<close> connection attempts with a sleep between any two of them.\<close>
fun attempts_trace :: "nat \<Rightarrow> nat \<Rightarrow> event list" where
  "attempts_trace 0 d = []"
| "attempts_trace (Suc 0) d = [Connect]"
| "attempts_trace (Suc (Suc k)) d = Connect # Sleep d # attempts_trace (Suc k) d"

text \<open>
  What \<open>connect_db\<close> returns after \<open>k\<close> attempts of at most \<open>n\<close>, the first of them at
  moment \<open>t0\<close>: a connection when the last attempt succeeded; None when there was no
  attempt to make, or the last attempt failed, and if it failed with an OperationalError
  then it was the \<open>n\<close>-th.
\<close>
definition connect_outcome_ok :: "env \<Rightarrow> int \<Rightarrow> nat \<Rightarrow> nat \<Rightarrow> conn option \<Rightarrow> bool" where
  "connect_outcome_ok env n t0 k r =
     (case r of
        Some c \<Rightarrow> 0 < k \<and> c = t0 + 2 * (k - 1) \<and> connect_result env (t0 + 2 * (k - 1)) = None
      | None \<Rightarrow>
          (k = 0 \<and> n \<le> 0) \<or>
          (0 < k \<and> (\<exists>e. connect_result env (t0 + 2 * (k - 1)) = Some e \<and>
                        (e = OperationalError \<longrightarrow> int k = n))))"

subsection \<open>The natural order\<close>

text \<open>The number a run of digits denotes.\<close>
definition digits_value :: "string \<Rightarrow> nat" where
  "digits_value ds = foldl (\<lambda>a c. 10 * a + digit_val c) 0 ds"

text \<open>The order \<open>natsorted\<close> sorts by.\<close>
definition natural_le :: "string \<Rightarrow> string \<Rightarrow> bool" where
  "natural_le a b = (natsort_key a \<le> natsort_key b)"

text \<open>
  In the string \<open>p @ ds @ r\<close> the digits \<open>ds\<close> are a whole numeric run: \<open>ds\<close> is not
  empty and holds only digits, no digit stands before it at the end of \<open>p\<close> and none after
  it at the head of \<open>r\<close>. The prefix \<open>p\<close> is any string, with numeric runs of its own or
  without.
\<close>
definition numeric_run :: "string \<Rightarrow> string \<Rightarrow> string \<Rightarrow> bool" where
  "numeric_run p ds r =
     ((p = [] \<or> \<not> is_digit (last p)) \<and> ds \<noteq> [] \<and> (\<forall>c\<in>set ds. is_digit c) \<and>
      (r = [] \<or> \<not> is_digit (hd r)))"

subsection \<open>Traces\<close>

text \<open>The trace \<open>tr'\<close> is \<open>tr\<close> followed by events that all satisfy \<open>P\<close>.\<close>
definition extends_with :: "(event \<Rightarrow> bool) \<Rightarrow> event list \<Rightarrow> event list \<Rightarrow> bool" where
  "extends_with P tr tr' = (take (length tr) tr' = tr \<and> list_all P (drop (length tr) tr'))"


text \<open>Kinds of events.\<close>
fun is_rollback_event :: "event \<Rightarrow> bool" where
  "is_rollback_event (GetStatus c) = True"
| "is_rollback_event (Rollback c) = True"
| "is_rollback_event (Log l) = True"
| "is_rollback_event _ = False"

fun is_report_event :: "event \<Rightarrow> bool" where
  "is_report_event (OpenReport n) = True"
| "is_report_event (WriteReport n l) = True"
| "is_report_event _ = False"

fun report_name :: "event \<Rightarrow> string" where
  "report_name (OpenReport n) = n"
| "report_name (WriteReport n l) = n"
| "report_name _ = []"

fun is_close_event :: "event \<Rightarrow> bool" where
  "is_close_event (CloseCursor k) = True"
| "is_close_event _ = False"

subsection \<open>Rollback attempts\<close>

definition is_inspection :: "event \<Rightarrow> bool" where
  "is_inspection ev = (case ev of GetStatus c \<Rightarrow> True | Log l \<Rightarrow> True | _ \<Rightarrow> False)"

text \<open>
  The connection is \<open>c\<close>, open, and its transaction status is INTRANS or 3 (in error).
\<close>
definition rollback_due :: "env \<Rightarrow> conn option \<Rightarrow> nat \<Rightarrow> conn \<Rightarrow> bool" where
  "rollback_due env conn t c =
     (conn = Some c \<and> \<not> closed_at env t c \<and>
      (transaction_status env t c = Inr TRANSACTION_STATUS_INTRANS \<or>
       transaction_status env t c = Inr 3))"

text \<open>
  The line logged for an exception raised inside \<open>_attempt_rollback\<close>: \<open>Rollback failed\<close> for
  a psycopg2.Error, \<open>Unexpected error during rollback\<close> for any other.
\<close>
definition failure_log :: "py_exn \<Rightarrow> rollback_log" where
  "failure_log e = (if is_psycopg2_error e then RollbackFailed else UnexpectedRollbackError)"

text \<open>
  The events \<open>evs\<close> are a rollback attempt on \<open>conn\<close> at moment \<open>t\<close>. They inspect, log and
  roll back, and do nothing else. On an open connection the transaction status is read
  first; when it is INTRANS or 3 the rollback is issued next, announced by a log line, and
  otherwise no rollback is issued. Without an open connection the attempt only logs that it
  cannot roll back. The last event logs the outcome.
\<close>
definition rollback_attempt :: "env \<Rightarrow> conn option \<Rightarrow> nat \<Rightarrow> event list \<Rightarrow> bool" where
  "rollback_attempt env conn t evs =
     (list_all is_rollback_event evs
      \<and> (\<forall>c. conn = Some c \<and> \<not> closed_at env t c \<longrightarrow> take 1 evs = [GetStatus c])
      \<and> (\<forall>c. rollback_due env conn t c \<longrightarrow>
             take 3 evs = [GetStatus c, Log AttemptingRollback, Rollback c])
      \<and> (\<forall>c. Rollback c \<in> set evs \<longrightarrow> rollback_due env conn t c)
      \<and> ((\<forall>c. conn = Some c \<longrightarrow> closed_at env t c) \<longrightarrow> evs = [Log CannotRollback])
      \<and> (\<exists>l. evs \<noteq> [] \<and> last evs = Log l))"

text \<open>
  What the final commit of the all-or-nothing mode adds to the trace when it fails at
  moment \<open>t\<close>: the commit that raised, or nothing when there was no open connection to
  commit on.
\<close>
definition failed_commit_events :: "env \<Rightarrow> conn option \<Rightarrow> nat \<Rightarrow> event list" where
  "failed_commit_events env conn t =
     (case conn of None \<Rightarrow> [] | Some c \<Rightarrow> if closed_at env t c then [] else [Commit c])"


text \<open>
  The final commit of the all-or-nothing mode cannot succeed at moment \<open>t\<close>: there is no
  connection, or it is closed, or the commit raises.
\<close>
definition final_commit_fails :: "env \<Rightarrow> conn option \<Rightarrow> nat \<Rightarrow> bool" where
  "final_commit_fails env conn t =
     (case conn of None \<Rightarrow> True | Some c \<Rightarrow> closed_at env t c \<or> commit_result env t c \<noteq> None)"


subsection \<open>Outcomes of a run\<close>

text \<open>The files a workflow has recorded, each as often as it is recorded.\<close>
definition recorded :: "workflow \<Rightarrow> path multiset" where
  "recorded w = mset (w_processed w) + mset (w_errors w) + mset (w_empty_files w)"

text \<open>
  The four outcome lists of the results cover exactly the files \<open>found\<close> and no two of
  them share a file.
\<close>
definition partitions_valid_files :: "results \<Rightarrow> path list \<Rightarrow> bool" where
  "partitions_valid_files r found =
     (set (processed r) \<union> set (errors r) \<union> set (empty_files r) \<union> set (unprocessed_files r)
        = set found
      \<and> set (processed r) \<inter> set (errors r) = {}
      \<and> set (processed r) \<inter> set (empty_files r) = {}
      \<and> set (processed r) \<inter> set (unprocessed_files r) = {}
      \<and> set (errors r) \<inter> set (empty_files r) = {}
      \<and> set (errors r) \<inter> set (unprocessed_files r) = {}
      \<and> set (empty_files r) \<inter> set (unprocessed_files r) = {})"

text \<open>
  The valid files a run discovers: those the scan finds, and none when the scan does not
  take place because the directory is not there or \<open>is_dir()\<close> raises.
\<close>
definition discovered_valid_files :: "env \<Rightarrow> path \<Rightarrow> path list" where
  "discovered_valid_files env sql_dir =
     (case is_dir env sql_dir of
        Inr True \<Rightarrow> fst (collect_file_paths env sql_dir ''.sql'')
      | _ \<Rightarrow> [])"

text \<open>The run is halted by the anomaly gate: the scan finds an anomaly and the mode is gated.\<close>
definition halted_by_gate :: "env \<Rightarrow> path \<Rightarrow> string \<Rightarrow> bool" where
  "halted_by_gate env sql_dir transaction_mode =
     (is_dir env sql_dir = Inr True \<and> snd (collect_file_paths env sql_dir ''.sql'') \<noteq> [] \<and>
      transaction_mode \<in> set gated_modes)"

subsection \<open>Hypotheses on the database and the scripts\<close>

text \<open>
  The connection \<open>c\<close> survives the run: it is never found closed, it always gives a cursor
  and it accepts every commit.
\<close>
definition database_healthy :: "env \<Rightarrow> conn \<Rightarrow> bool" where
  "database_healthy env c =
     ((\<forall>t. \<not> closed_at env t c) \<and> (\<forall>t. cursor_result env t c = None) \<and>
      (\<forall>t. commit_result env t c = None))"

text \<open>The file \<open>p\<close> holds the script \<open>s\<close>, which is not blank and executes on \<open>c\<close>.\<close>
definition script_succeeds :: "env \<Rightarrow> conn \<Rightarrow> path \<Rightarrow> script \<Rightarrow> bool" where
  "script_succeeds env c p s =
     ((\<forall>t. read_text env t p = Inr s) \<and> py_strip s \<noteq> [] \<and>
      (\<forall>t. execute_result env t c s = None))"

text \<open>
  The file \<open>p\<close> holds the script \<open>s\<close>, which is not blank and whose execution on \<open>c\<close>
  raises the psycopg2.Error \<open>e\<close>.
\<close>
definition script_fails :: "env \<Rightarrow> conn \<Rightarrow> path \<Rightarrow> script \<Rightarrow> py_exn \<Rightarrow> bool" where
  "script_fails env c p s e =
     ((\<forall>t. read_text env t p = Inr s) \<and> py_strip s \<noteq> [] \<and>
      (\<forall>t. execute_result env t c s = Some e) \<and> is_psycopg2_error e)"

subsection \<open>A connection lost for good\<close>

text \<open>
  The workflow in state \<open>w\<close> has lost its connection for good: the connection is found
  closed (or there is none), and \<open>connect_db\<close> with its defaults, called at that moment,
  does not give a new one.
\<close>
definition connection_lost :: "env \<Rightarrow> workflow \<Rightarrow> bool" where
  "connection_lost env w =
     ((\<forall>c. w_conn w = Some c \<longrightarrow> closed_at env (length (w_trace w)) c)
      \<and> fst (connect_db env 5 3 (w_trace w)) = None)"

subsection \<open>The events of one file\<close>

text \<open>
  The events of the file \<open>p\<close> with script \<open>s\<close> in the two per-file modes when it is executed
  and committed on \<open>c\<close>: the file is read, a cursor is taken, the script is executed and the
  transaction committed; around that only cursors are closed.
\<close>
definition committed_events :: "conn \<Rightarrow> path \<Rightarrow> script \<Rightarrow> event list \<Rightarrow> bool" where
  "committed_events c p s evs =
     (\<exists>cl1 cl2. evs = ReadFile p # cl1 @ [OpenCursor c, Execute c s, Commit c] @ cl2
        \<and> list_all is_close_event cl1 \<and> list_all is_close_event cl2)"

text \<open>
  The events of the file \<open>p\<close>, processed from moment \<open>t\<close> on, when the execution of its script
  fails on \<open>c\<close>: the file is read, a cursor is taken, the script is executed, and right after
  that comes a rollback attempt on \<open>c\<close>; there is no commit.
\<close>
definition rolled_back_events :: "env \<Rightarrow> conn \<Rightarrow> path \<Rightarrow> script \<Rightarrow> nat \<Rightarrow> event list \<Rightarrow> bool" where
  "rolled_back_events env c p s t evs =
     (\<exists>cl1 evsr cl2. evs = ReadFile p # cl1 @ [OpenCursor c, Execute c s] @ evsr @ cl2
        \<and> list_all is_close_event cl1
        \<and> rollback_attempt env (Some c) (t + length cl1 + 3) evsr
        \<and> list_all is_close_event cl2)"

subsection \<open>Concrete environments\<close>

text \<open>The script whose code points are the characters of a string.\<close>
definition code_points :: "string \<Rightarrow> script" where
  "code_points s = map of_char s"

text \<open>
  A database that refuses the first two connection attempts and accepts the third, and
  then runs everything it is given.
\<close>
definition env_retry :: env where
  "env_retry =
     \<lparr>connect_result = (\<lambda>t. if t < 4 then Some OperationalError else None),
      closed_at = (\<lambda>t c. False),
      read_text = (\<lambda>t p. Inr (code_points ''SELECT 1;'')),
      cursor_result = (\<lambda>t c. None),
      cursor_close_result = (\<lambda>t c. None),
      execute_result = (\<lambda>t c s. None),
      commit_result = (\<lambda>t c. None),
      transaction_status = (\<lambda>t c. Inr 2),
      rollback_result = (\<lambda>t c. None),
      is_dir = (\<lambda>p. Inr True),
      walk = (\<lambda>p. []),
      is_file = (\<lambda>p. Inr True),
      open_result = (\<lambda>t n. None)\<rparr>"

text \<open>A directory without any script, and a database that is there.\<close>
definition env_empty_dir :: env where
  "env_empty_dir = env_retry\<lparr>connect_result := (\<lambda>t. None), walk := (\<lambda>p. [(p, [''notes.txt''])])\<rparr>"


text \<open>One script that runs, and a database that refuses every commit.\<close>
definition env_commit_fails :: env where
  "env_commit_fails =
     env_retry\<lparr>connect_result := (\<lambda>t. None),
               walk := (\<lambda>p. [(p, [''a.sql''])]),
               commit_result := (\<lambda>t c. Some Psycopg2Error)\<rparr>"

text \<open>
  Two files with the extension: a.sql is a regular file, b.sql is not (a broken link, say).
\<close>
definition env_anomaly :: env where
  "env_anomaly =
     env_retry\<lparr>connect_result := (\<lambda>t. None),
               walk := (\<lambda>p. [(p, [''a.sql'', ''b.sql''])]),
               is_file := (\<lambda>p. if p = ''s/b.sql'' then Inr False else Inr True)\<rparr>"

text \<open>
  The connection 0 is found closed from moment 4 on, that is once a.sql has been executed;
  every connection attempt succeeds; b.sql holds a blank.
\<close>
definition env_reconnect :: env where
  "env_reconnect =
     env_retry\<lparr>connect_result := (\<lambda>t. None),
               closed_at := (\<lambda>t c. c = 0 \<and> 4 \<le> t),
               read_text := (\<lambda>t p. if p = ''s/b.sql'' then Inr (code_points '' '')
                                   else Inr (code_points ''SELECT 1;'')),
               walk := (\<lambda>p. [(p, [''a.sql'', ''b.sql''])])\<rparr>"

text \<open>The same, but only the first connection attempt, at moment 0, succeeds.\<close>
definition env_lost :: env where
  "env_lost = env_reconnect\<lparr>connect_result := (\<lambda>t. if t = 0 then None else Some OperationalError)\<rparr>"

text \<open>
  Three scripts, listed by the walk as 10.sql, 2.sql, 1.sql; the database rejects the
  script of 2.sql, and reports the transaction status 3 (in error).
\<close>
definition env_three :: env where
  "env_three =
     env_retry\<lparr>connect_result := (\<lambda>t. None),
               transaction_status := (\<lambda>t c. Inr 3),
               read_text := (\<lambda>t p. if p = ''s/2.sql'' then Inr (code_points ''SELEC 1;'')
                                   else Inr (code_points ''SELECT 1;'')),
               execute_result := (\<lambda>t c s. if s = code_points ''SELEC 1;'' then Some Psycopg2Error
                                          else None),
               walk := (\<lambda>p. [(p, [''10.sql'', ''2.sql'', ''1.sql''])])\<rparr>"

text \<open>A database on which every rollback raises a psycopg2.Error.\<close>
definition env_rollback_fails :: env where
  "env_rollback_fails =
     env_retry\<lparr>connect_result := (\<lambda>t. None), rollback_result := (\<lambda>t c. Some Psycopg2Error)\<rparr>"

text \<open>
  Three scripts a.sql, b.sql and c.sql. The connection 0 is found closed from moment 5 on,
  that is once a.sql has been executed and committed in a per-file mode, and no connection
  attempt after the first succeeds.
\<close>
definition env_dropped :: env where
  "env_dropped =
     env_retry\<lparr>connect_result := (\<lambda>t. if t = 0 then None else Some OperationalError),
               closed_at := (\<lambda>t c. c = 0 \<and> 5 \<le> t),
               walk := (\<lambda>p. [(p, [''a.sql'', ''b.sql'', ''c.sql''])])\<rparr>"

section \<open>Properties\<close>

subsection \<open>Connection retries\<close>

lemma attempts_trace_Suc: "0 < k \<Longrightarrow> attempts_trace (Suc k) d = Connect # Sleep d # attempts_trace k d"
  by (cases k) auto

lemma connect_loop_spec:
  "\<exists>k. snd (connect_loop env limit delay [a..limit] tr) = tr @ attempts_trace k delay
      \<and> int k \<le> max 0 (limit - a + 1)
      \<and> (\<forall>i. Suc i < k \<longrightarrow> connect_result env (length tr + 2 * i) = Some OperationalError)
      \<and> connect_outcome_ok env (limit - a + 1) (length tr) k (fst (connect_loop env limit delay [a..limit] tr))"
proof (induction "nat (limit + 1 - a)" arbitrary: a tr)
  case 0
  then have "[a..limit] = []" by simp
  then show ?case using 0 by (intro exI[of _ 0]) (simp add: connect_outcome_ok_def)
next
  case (Suc n)
  then have le: "a \<le> limit" by linarith
  then have up: "[a..limit] = a # [a + 1..limit]" by (simp add: upto_rec1)
  show ?case
  proof (cases "connect_result env (length tr)")
    case None
    then show ?thesis using le
      by (intro exI[of _ 1]) (simp add: up connect_outcome_ok_def)
  next
    case (Some e)
    show ?thesis
    proof (cases "e = OperationalError")
      case False
      then show ?thesis using Some le
        by (intro exI[of _ 1]) (simp add: up connect_outcome_ok_def)
    next
      case True
      show ?thesis
      proof (cases "a < limit")
        case False
        then have "a = limit" using le by simp
        then show ?thesis using Some True
          by (intro exI[of _ 1]) (simp add: up connect_outcome_ok_def)
      next
        case lt: True
        have n: "n = nat (limit + 1 - (a + 1))" using Suc(2) by linarith
        from Suc(1)[OF n, of "tr @ [Connect, Sleep delay]"]
        obtain k where k:
          "snd (connect_loop env limit delay [a + 1..limit] (tr @ [Connect, Sleep delay]))
             = (tr @ [Connect, Sleep delay]) @ attempts_trace k delay"
          "int k \<le> max 0 (limit - (a + 1) + 1)"
          "\<forall>i. Suc i < k \<longrightarrow> connect_result env (length (tr @ [Connect, Sleep delay]) + 2 * i) = Some OperationalError"
          "connect_outcome_ok env (limit - (a + 1) + 1) (length (tr @ [Connect, Sleep delay])) k
             (fst (connect_loop env limit delay [a + 1..limit] (tr @ [Connect, Sleep delay])))"
          by blast
        have kpos: "0 < k" using k(4) lt
          by (auto simp: connect_outcome_ok_def split: option.splits)
        have step: "connect_loop env limit delay [a..limit] tr
                     = connect_loop env limit delay [a + 1..limit] (tr @ [Connect, Sleep delay])"
          using Some True lt by (simp add: up)
        have prev: "\<forall>i. Suc i < Suc k \<longrightarrow> connect_result env (length tr + 2 * i) = Some OperationalError"
        proof (intro allI impI)
          fix i assume "Suc i < Suc k"
          show "connect_result env (length tr + 2 * i) = Some OperationalError"
          proof (cases i)
            case 0 then show ?thesis using Some True by simp
          next
            case (Suc j)
            then have "Suc j < k" using \<open>Suc i < Suc k\<close> by simp
            with k(3) show ?thesis using Suc by simp
          qed
        qed
        have out: "connect_outcome_ok env (limit - a + 1) (length tr) (Suc k)
             (fst (connect_loop env limit delay [a + 1..limit] (tr @ [Connect, Sleep delay])))"
        proof -
          have idx: "Suc (Suc (length tr + 2 * (k - Suc 0))) = length tr + 2 * k"
            using kpos by simp
          show ?thesis
            using k(4) kpos by (auto simp: connect_outcome_ok_def idx split: option.splits)
        qed
        show ?thesis
          apply (intro exI[of _ "Suc k"])
          using k(1) k(2) prev out kpos lt
          by (simp add: step attempts_trace_Suc)
      qed
    qed
  qed
qed

text \<open>
  C7: \<open>connect_db\<close> performs \<open>k\<close> connection attempts, at most \<open>attempt_limit\<close> of them,
  and between two consecutive attempts, and nowhere else, it sleeps \<open>delay\<close>; every
  attempt but the last failed with an OperationalError. It returns the connection of the
  last attempt when that succeeded, which is then the first success; otherwise it returns
  None, and the last attempt either failed with an error that is not operational, or was
  attempt number \<open>attempt_limit\<close>; with no attempt to make it returns None at once.
\<close>
theorem connect_db_attempts:
  "\<exists>k. snd (connect_db env attempt_limit delay tr) = tr @ attempts_trace k delay
      \<and> int k \<le> max 0 attempt_limit
      \<and> (\<forall>i. Suc i < k \<longrightarrow> connect_result env (length tr + 2 * i) = Some OperationalError)
      \<and> connect_outcome_ok env attempt_limit (length tr) k (fst (connect_db env attempt_limit delay tr))"
  using connect_loop_spec[of env attempt_limit delay 1 tr] by (simp add: connect_db_def)


lemma upto_1_5: "[1..5::int] = [1, 2, 3, 4, 5]"
  by (simp add: upto_rec1)

text \<open>Two refusals, then a connection: three attempts and two sleeps of three seconds.\<close>
theorem connect_db_attempts_witness:
  "connect_db env_retry 5 3 [] = (Some 4, [Connect, Sleep 3, Connect, Sleep 3, Connect])
   \<and> (\<exists>k. snd (connect_db env_retry 5 3 []) = attempts_trace k 3 \<and> int k \<le> 5
          \<and> connect_outcome_ok env_retry 5 0 k (fst (connect_db env_retry 5 3 [])))"
proof -
  have ev: "connect_db env_retry 5 3 [] = (Some 4, [Connect, Sleep 3, Connect, Sleep 3, Connect])"
    by (simp add: connect_db_def upto_1_5 env_retry_def)
  show ?thesis using connect_db_attempts[of env_retry 5 3 "[]"] ev by auto
qed


subsection \<open>Best-effort rollback\<close>

text \<open>
  C8: \<open>_attempt_rollback\<close> never raises. It issues a rollback exactly when the connection
  is there, open, and its transaction status is INTRANS or 3, and then only after reading
  that status; in every other case all it does is inspect and log. It always logs. What it
  does is determined in each case. With a rollback due it reads the status, logs the
  attempt, rolls back and logs the outcome: success, or the failure when \<open>rollback()\<close>
  raises (\<open>Rollback failed\<close> for a psycopg2.Error, \<open>Unexpected error during rollback\<close>
  otherwise). When reading the status raises, that failure is logged in the same way. With
  any other status it logs that there is no transaction to roll back, and without an open
  connection that it cannot roll back. Its only result is the trace: the lists and flags of
  a run are not within its reach.
\<close>
theorem attempt_rollback_best_effort:
  "fst (attempt_rollback_stmt env conn tr) = Inr ()
   \<and> (\<exists>evs. attempt_rollback env conn tr = tr @ evs
         \<and> (\<forall>c. Rollback c \<in> set evs \<longleftrightarrow> rollback_due env conn (length tr) c)
         \<and> (\<forall>c. rollback_due env conn (length tr) c \<longrightarrow>
                  take 3 evs = [GetStatus c, Log AttemptingRollback, Rollback c])
         \<and> ((\<forall>c. \<not> rollback_due env conn (length tr) c) \<longrightarrow> (\<forall>ev \<in> set evs. is_inspection ev))
         \<and> (\<exists>l. Log l \<in> set evs)
         \<and> (\<forall>c. rollback_due env conn (length tr) c \<longrightarrow>
                  evs = [GetStatus c, Log AttemptingRollback, Rollback c,
                         Log (case rollback_result env (length tr + 2) c of
                                None \<Rightarrow> RollbackSuccessful | Some e \<Rightarrow> failure_log e)])
         \<and> (\<forall>c e. conn = Some c \<and> \<not> closed_at env (length tr) c
                    \<and> transaction_status env (length tr) c = Inl e \<longrightarrow>
                  evs = [GetStatus c, Log (failure_log e)])
         \<and> (\<forall>c status. conn = Some c \<and> \<not> closed_at env (length tr) c
                    \<and> transaction_status env (length tr) c = Inr status
                    \<and> status \<noteq> TRANSACTION_STATUS_INTRANS \<and> status \<noteq> 3 \<longrightarrow>
                  evs = [GetStatus c, Log NoTransactionToRollback])
         \<and> ((\<forall>c. conn = Some c \<longrightarrow> closed_at env (length tr) c) \<longrightarrow>
                  evs = [Log CannotRollback]))"
  by (auto simp: attempt_rollback_def attempt_rollback_stmt_def attempt_rollback_try_def
        rollback_due_def is_inspection_def failure_log_def TRANSACTION_STATUS_INTRANS_def Let_def
      split: option.splits sum.splits)

text \<open>
  With a transaction in progress on the open connection 0 the rollback is issued; on a
  database whose \<open>rollback()\<close> raises a psycopg2.Error the failure is logged, and nothing is
  raised.
\<close>
theorem attempt_rollback_best_effort_witness:
  "rollback_due env_retry (Some 0) 0 0
   \<and> fst (attempt_rollback_stmt env_retry (Some 0) []) = Inr ()
   \<and> attempt_rollback env_retry (Some 0) []
       = [GetStatus 0, Log AttemptingRollback, Rollback 0, Log RollbackSuccessful]
   \<and> rollback_due env_rollback_fails (Some 0) 0 0
   \<and> rollback_result env_rollback_fails 2 0 = Some Psycopg2Error
   \<and> fst (attempt_rollback_stmt env_rollback_fails (Some 0) []) = Inr ()
   \<and> attempt_rollback env_rollback_fails (Some 0) []
       = [GetStatus 0, Log AttemptingRollback, Rollback 0, Log RollbackFailed]"
proof -
  have due: "rollback_due env_retry (Some 0) 0 0"
    by (simp add: rollback_due_def env_retry_def TRANSACTION_STATUS_INTRANS_def)
  have due': "rollback_due env_rollback_fails (Some 0) 0 0"
    by (simp add: rollback_due_def env_rollback_fails_def env_retry_def TRANSACTION_STATUS_INTRANS_def)
  have ok: "rollback_result env_retry t 0 = None" for t
    by (simp add: env_retry_def)
  have ko: "rollback_result env_rollback_fails t 0 = Some Psycopg2Error" for t
    by (simp add: env_rollback_fails_def env_retry_def)
  have fl: "failure_log Psycopg2Error = RollbackFailed"
    by (simp add: failure_log_def is_psycopg2_error_def)
  from attempt_rollback_best_effort[of env_retry "Some 0" "[]"] due ok
  have 1: "fst (attempt_rollback_stmt env_retry (Some 0) []) = Inr ()
     \<and> attempt_rollback env_retry (Some 0) []
         = [GetStatus 0, Log AttemptingRollback, Rollback 0, Log RollbackSuccessful]"
    by auto
  from attempt_rollback_best_effort[of env_rollback_fails "Some 0" "[]"] due' ko fl
  have 2: "fst (attempt_rollback_stmt env_rollback_fails (Some 0) []) = Inr ()
     \<and> attempt_rollback env_rollback_fails (Some 0) []
         = [GetStatus 0, Log AttemptingRollback, Rollback 0, Log RollbackFailed]"
    by auto
  show ?thesis using due due' ko[of 2] 1 2 by simp
qed


subsection \<open>Natural sorting\<close>


lemma chunks_digits:
  "\<forall>c\<in>set ds. is_digit c \<Longrightarrow> ds \<noteq> [] \<Longrightarrow>
   chunks (ds @ s) tx num =
     chunks s tx (Some (foldl (\<lambda>a c. 10 * a + digit_val c) (case num of None \<Rightarrow> 0 | Some n \<Rightarrow> n) ds))"
proof (induction ds arbitrary: num)
  case Nil
  then show ?case by simp
next
  case (Cons d ds)
  show ?case
  proof (cases "ds = []")
    case True
    then show ?thesis using Cons.prems by simp
  next
    case False
    then show ?thesis using Cons by simp
  qed
qed

lemma chunks_hd:
  "r = [] \<or> \<not> is_digit (hd r) \<Longrightarrow> \<exists>rest. chunks r tx (Some v) = (tx, Some v) # rest"
  by (cases r) auto

text \<open>Reading a prefix leaves a list of segments and a state, whatever follows.\<close>
lemma chunks_prefix:
  "\<exists>L tx' num'. \<forall>s. chunks (p @ s) tx num = L @ chunks s tx' num'"
proof (induction p arbitrary: tx num)
  case Nil
  show ?case by (intro exI[of _ "[]"] exI[of _ tx] exI[of _ num]) simp
next
  case (Cons c p)
  show ?case
  proof (cases "is_digit c")
    case True
    obtain L tx' num' where
      "\<forall>s. chunks (p @ s) tx (Some (10 * (case num of None \<Rightarrow> 0 | Some n \<Rightarrow> n) + digit_val c)) = L @ chunks s tx' num'"
      using Cons[of tx "Some (10 * (case num of None \<Rightarrow> 0 | Some n \<Rightarrow> n) + digit_val c)"] by (elim exE)
    then show ?thesis using True by (intro exI[of _ L] exI[of _ tx'] exI[of _ num']) simp
  next
    case False
    show ?thesis
    proof (cases num)
      case None
      obtain L tx' num' where "\<forall>s. chunks (p @ s) (tx @ [c]) None = L @ chunks s tx' num'"
        using Cons[of "tx @ [c]" None] by (elim exE)
      then show ?thesis using False None by (intro exI[of _ L] exI[of _ tx'] exI[of _ num']) simp
    next
      case (Some n)
      obtain L tx' num' where "\<forall>s. chunks (p @ s) [c] None = L @ chunks s tx' num'"
        using Cons[of "[c]" None] by (elim exE)
      then show ?thesis using False Some
        by (intro exI[of _ "(tx, Some n) # L"] exI[of _ tx'] exI[of _ num']) simp
    qed
  qed
qed

text \<open>After a prefix that does not end with a digit no number is pending.\<close>
lemma chunks_prefix_text:
  "p \<noteq> [] \<Longrightarrow> \<not> is_digit (last p) \<Longrightarrow> \<exists>L tx'. \<forall>s. chunks (p @ s) tx num = L @ chunks s tx' None"
proof (induction p arbitrary: tx num)
  case Nil
  then show ?case by simp
next
  case (Cons c p)
  show ?case
  proof (cases "p = []")
    case True
    then have nd: "\<not> is_digit c" using Cons.prems by simp
    show ?thesis
    proof (cases num)
      case None
      then show ?thesis using True nd by (intro exI[of _ "[]"] exI[of _ "tx @ [c]"]) simp
    next
      case (Some n)
      then show ?thesis using True nd by (intro exI[of _ "[(tx, Some n)]"] exI[of _ "[c]"]) simp
    qed
  next
    case False
    then have l: "\<not> is_digit (last p)" using Cons.prems by simp
    show ?thesis
    proof (cases "is_digit c")
      case True
      obtain L tx' where
        "\<forall>s. chunks (p @ s) tx (Some (10 * (case num of None \<Rightarrow> 0 | Some n \<Rightarrow> n) + digit_val c)) = L @ chunks s tx' None"
        using Cons.IH[OF False l, of tx "Some (10 * (case num of None \<Rightarrow> 0 | Some n \<Rightarrow> n) + digit_val c)"] by (elim exE)
      then show ?thesis using True by (intro exI[of _ L] exI[of _ tx']) simp
    next
      case nd: False
      show ?thesis
      proof (cases num)
        case None
        obtain L tx' where "\<forall>s. chunks (p @ s) (tx @ [c]) None = L @ chunks s tx' None"
          using Cons.IH[OF False l, of "tx @ [c]" None] by (elim exE)
        then show ?thesis using nd None by (intro exI[of _ L] exI[of _ tx']) simp
      next
        case (Some n)
        obtain L tx' where "\<forall>s. chunks (p @ s) [c] None = L @ chunks s tx' None"
          using Cons.IH[OF False l, of "[c]" None] by (elim exE)
        then show ?thesis using nd Some
          by (intro exI[of _ "(tx, Some n) # L"] exI[of _ tx']) simp
      qed
    qed
  qed
qed

lemma append_less_append: "(L @ xs < L @ ys) = (xs < (ys :: 'a :: linorder list))"
  by (induction L) auto

lemma chunks_num_hd: "\<exists>v rest. chunks r t (Some n) = (t, Some v) # rest"
proof (induction r arbitrary: n)
  case Nil
  show ?case by simp
next
  case (Cons d r)
  show ?case using Cons[of "10 * n + digit_val d"] by (cases "is_digit d") auto
qed

lemma chunks_text_hd: "\<exists>u x rest. chunks r t None = (t @ u, x) # rest"
proof (induction r arbitrary: t)
  case Nil
  show ?case by simp
next
  case (Cons c r)
  show ?case
  proof (cases "is_digit c")
    case True
    obtain v rest where "chunks r t (Some (digit_val c)) = (t, Some v) # rest"
      using chunks_num_hd[of r t "digit_val c"] by (elim exE)
    then show ?thesis using True by (intro exI[of _ "[]"]) simp
  next
    case False
    obtain u x rest where "chunks r (t @ [c]) None = ((t @ [c]) @ u, x) # rest"
      using Cons[of "t @ [c]"] by (elim exE)
    then show ?thesis using False by (intro exI[of _ "c # u"]) simp
  qed
qed

lemma natsort_key_numeric:
  assumes "numeric_run p m r1" "numeric_run p n r2" "digits_value m < digits_value n"
  shows "natsort_key (p @ m @ r1) < natsort_key (p @ n @ r2)"
proof -
  have m: "\<forall>c\<in>set m. is_digit c" "m \<noteq> []" "r1 = [] \<or> \<not> is_digit (hd r1)"
    and n: "\<forall>c\<in>set n. is_digit c" "n \<noteq> []" "r2 = [] \<or> \<not> is_digit (hd r2)"
    and p: "p = [] \<or> \<not> is_digit (last p)"
    using assms(1,2) by (simp_all add: numeric_run_def)
  obtain L tx' where pre: "\<forall>s. chunks (p @ s) [] None = L @ chunks s tx' None"
  proof (cases "p = []")
    case True
    then have "\<forall>s. chunks (p @ s) [] None = [] @ chunks s [] None" by simp
    then show ?thesis by (rule that)
  next
    case False
    then have "\<not> is_digit (last p)" using p by simp
    from chunks_prefix_text[OF False this, of "[]" None] that show ?thesis by (elim exE)
  qed
  obtain rest1 where 1: "chunks r1 tx' (Some (digits_value m)) = (tx', Some (digits_value m)) # rest1"
    using chunks_hd[OF m(3)] by blast
  obtain rest2 where 2: "chunks r2 tx' (Some (digits_value n)) = (tx', Some (digits_value n)) # rest2"
    using chunks_hd[OF n(3)] by blast
  have a: "chunks (p @ m @ r1) [] None = L @ (tx', Some (digits_value m)) # rest1"
    using pre chunks_digits[OF m(1,2), of r1 tx' None] 1 by (simp add: digits_value_def)
  have b: "chunks (p @ n @ r2) [] None = L @ (tx', Some (digits_value n)) # rest2"
    using pre chunks_digits[OF n(1,2), of r2 tx' None] 2 by (simp add: digits_value_def)
  have "chunks (p @ m @ r1) [] None < chunks (p @ n @ r2) [] None"
    unfolding a b append_less_append using assms(3) by (simp add: less_prod_def)
  then show ?thesis by (simp add: natsort_key_def less_prod_def)
qed

lemma natsort_key_text:
  assumes "\<not> is_digit c1" "\<not> is_digit c2" "c1 < c2"
  shows "natsort_key (p @ c1 # r1) < natsort_key (p @ c2 # r2)"
proof -
  obtain L tx' num' where pre: "\<forall>s. chunks (p @ s) [] None = L @ chunks s tx' num'"
    using chunks_prefix[of p "[]" None] by (elim exE)
  have "chunks (c1 # r1) tx' num' < chunks (c2 # r2) tx' num'"
  proof (cases num')
    case None
    obtain u1 x1 rest1 where 1: "chunks r1 (tx' @ [c1]) None = ((tx' @ [c1]) @ u1, x1) # rest1"
      using chunks_text_hd[of r1 "tx' @ [c1]"] by (elim exE)
    obtain u2 x2 rest2 where 2: "chunks r2 (tx' @ [c2]) None = ((tx' @ [c2]) @ u2, x2) # rest2"
      using chunks_text_hd[of r2 "tx' @ [c2]"] by (elim exE)
    have "tx' @ c1 # u1 < tx' @ c2 # u2"
      unfolding append_less_append using assms(3) by simp
    then show ?thesis using None assms(1,2) 1 2 by (simp add: less_prod_def)
  next
    case (Some k)
    obtain u1 x1 rest1 where 1: "chunks r1 [c1] None = ([c1] @ u1, x1) # rest1"
      using chunks_text_hd[of r1 "[c1]"] by (elim exE)
    obtain u2 x2 rest2 where 2: "chunks r2 [c2] None = ([c2] @ u2, x2) # rest2"
      using chunks_text_hd[of r2 "[c2]"] by (elim exE)
    show ?thesis using Some assms 1 2 by (simp add: less_prod_def)
  qed
  then have "chunks (p @ c1 # r1) [] None < chunks (p @ c2 # r2) [] None"
    using pre by (simp add: append_less_append)
  then show ?thesis by (simp add: natsort_key_def less_prod_def)
qed

lemma natsort_key_digit_first:
  assumes "p = [] \<or> \<not> is_digit (last p)" "is_digit d" "\<not> is_digit c"
  shows "natsort_key (p @ d # r1) < natsort_key (p @ c # r2)"
proof -
  obtain L tx' where pre: "\<forall>s. chunks (p @ s) [] None = L @ chunks s tx' None"
  proof (cases "p = []")
    case True
    then have "\<forall>s. chunks (p @ s) [] None = [] @ chunks s [] None" by simp
    then show ?thesis by (rule that)
  next
    case False
    then have "\<not> is_digit (last p)" using assms(1) by simp
    from chunks_prefix_text[OF False this, of "[]" None] that show ?thesis by (elim exE)
  qed
  obtain v rest1 where 1: "chunks r1 tx' (Some (digit_val d)) = (tx', Some v) # rest1"
    using chunks_num_hd[of r1 tx' "digit_val d"] by (elim exE)
  obtain u x rest2 where 2: "chunks r2 (tx' @ [c]) None = ((tx' @ [c]) @ u, x) # rest2"
    using chunks_text_hd[of r2 "tx' @ [c]"] by (elim exE)
  have "tx' @ [] < tx' @ c # u" unfolding append_less_append by simp
  then have "chunks (d # r1) tx' None < chunks (c # r2) tx' None"
    using assms(2,3) 1 2 by (simp add: less_prod_def)
  then have "chunks (p @ d # r1) [] None < chunks (p @ c # r2) [] None"
    using pre by (simp add: append_less_append)
  then show ?thesis by (simp add: natsort_key_def less_prod_def)
qed

lemma natsort_key_inj: "natsort_key a = natsort_key b \<Longrightarrow> a = b"
  by (simp add: natsort_key_def)

lemma natsorted_mset: "mset (natsorted xs) = mset xs"
  by (simp add: natsorted_def)

lemma natsorted_set: "set (natsorted xs) = set xs"
  by (simp add: natsorted_def)

lemma natsorted_distinct: "distinct (natsorted xs) = distinct xs"
  by (simp add: natsorted_def)

lemma natsorted_sorted: "sorted (map natsort_key (natsorted xs))"
  by (simp add: natsorted_def)

lemma natsorted_Nil_iff [simp]: "natsorted xs = [] \<longleftrightarrow> xs = []"
  using natsorted_set[of xs] by (metis set_empty)


lemma natsorted_unique: "mset xs = mset ys \<Longrightarrow> natsorted xs = natsorted ys"
  unfolding natsorted_def
  by (rule sort_key_eq_sort_key) (auto intro: inj_onI natsort_key_inj)

lemma natsorted_example:
  "natsorted [''f2.sql'', ''f10.sql'', ''f1.sql''] = [''f1.sql'', ''f2.sql'', ''f10.sql'']"
  by (simp add: natsorted_def natsort_key_def is_digit_def digit_val_def)

lemma natural_less: "natsort_key a < natsort_key b \<Longrightarrow> natural_le a b \<and> \<not> natural_le b a"
  unfolding natural_le_def by auto

text \<open>
  C9: the natural sorter maps f2.sql, f10.sql, f1.sql to f1.sql, f2.sql, f10.sql. Its
  result is a permutation of its input, sorted by \<open>natural_le\<close>, and the same for every
  arrangement of the same paths. \<open>natural_le\<close> is a total order: total, transitive and
  antisymmetric. It is decided where two strings first differ, after any common prefix
  \<open>p\<close>, a directory with digits in its name included: two whole numeric runs that start
  there are ordered by the numbers they denote, however many digits they have; two
  characters that are not digits are ordered as characters; and a digit that starts a
  numeric run comes before a character that is not a digit.
\<close>
theorem natsorted_natural_order:
  "natsorted [''f2.sql'', ''f10.sql'', ''f1.sql''] = [''f1.sql'', ''f2.sql'', ''f10.sql'']
   \<and> mset (natsorted xs) = mset xs
   \<and> sorted_wrt natural_le (natsorted xs)
   \<and> (mset xs = mset ys \<longrightarrow> natsorted xs = natsorted ys)
   \<and> (natural_le a b \<or> natural_le b a)
   \<and> (natural_le a b \<and> natural_le b c \<longrightarrow> natural_le a c)
   \<and> (natural_le a b \<and> natural_le b a \<longrightarrow> a = b)
   \<and> (numeric_run p m r1 \<and> numeric_run p n r2 \<and> digits_value m < digits_value n \<longrightarrow>
         natural_le (p @ m @ r1) (p @ n @ r2) \<and> \<not> natural_le (p @ n @ r2) (p @ m @ r1))
   \<and> (\<not> is_digit c1 \<and> \<not> is_digit c2 \<and> c1 < c2 \<longrightarrow>
         natural_le (p @ c1 # r1) (p @ c2 # r2) \<and> \<not> natural_le (p @ c2 # r2) (p @ c1 # r1))
   \<and> ((p = [] \<or> \<not> is_digit (last p)) \<and> is_digit c1 \<and> \<not> is_digit c2 \<longrightarrow>
         natural_le (p @ c1 # r1) (p @ c2 # r2) \<and> \<not> natural_le (p @ c2 # r2) (p @ c1 # r1))"
proof -
  have srt: "sorted_wrt natural_le (natsorted xs)"
    using natsorted_sorted[of xs] by (simp add: sorted_map natural_le_def[abs_def])
  have anti: "natural_le a b \<and> natural_le b a \<longrightarrow> a = b"
    unfolding natural_le_def by (auto intro: natsort_key_inj)
  have num: "numeric_run p m r1 \<and> numeric_run p n r2 \<and> digits_value m < digits_value n \<longrightarrow>
         natural_le (p @ m @ r1) (p @ n @ r2) \<and> \<not> natural_le (p @ n @ r2) (p @ m @ r1)"
    using natsort_key_numeric[of p m r1 n r2] natural_less by blast
  have chr: "\<not> is_digit c1 \<and> \<not> is_digit c2 \<and> c1 < c2 \<longrightarrow>
         natural_le (p @ c1 # r1) (p @ c2 # r2) \<and> \<not> natural_le (p @ c2 # r2) (p @ c1 # r1)"
    using natsort_key_text[of c1 c2 p r1 r2] natural_less by blast
  have dig: "(p = [] \<or> \<not> is_digit (last p)) \<and> is_digit c1 \<and> \<not> is_digit c2 \<longrightarrow>
         natural_le (p @ c1 # r1) (p @ c2 # r2) \<and> \<not> natural_le (p @ c2 # r2) (p @ c1 # r1)"
    using natsort_key_digit_first[of p c1 c2 r1 r2] natural_less by blast
  have tot: "natural_le a b \<or> natural_le b a"
    unfolding natural_le_def by (rule linear)
  have trans: "natural_le a b \<and> natural_le b c \<longrightarrow> natural_le a c"
    unfolding natural_le_def by auto
  have perm: "mset xs = mset ys \<longrightarrow> natsorted xs = natsorted ys"
    using natsorted_unique[of xs ys] by simp
  show ?thesis
    using natsorted_example natsorted_mset[of xs] srt perm tot trans anti num chr dig
    by (intro conjI)
qed

text \<open>
  The runs 9 and 10 after the prefix v1., which holds a numeric run of its own: v1.9 comes
  before v1.10. After the same prefix a comes before b, and after f the digit 1 comes
  before the hyphen, which precedes it as a character. And three paths in the directories
  d2 and d10.
\<close>
theorem natsorted_natural_order_witness:
  "numeric_run ''v1.'' ''9'' [] \<and> numeric_run ''v1.'' ''10'' []
   \<and> digits_value ''9'' < digits_value ''10''
   \<and> natural_le ''v1.9'' ''v1.10'' \<and> \<not> natural_le ''v1.10'' ''v1.9''
   \<and> natsorted [''v1.10'', ''v1.9''] = natsorted [''v1.9'', ''v1.10'']
   \<and> natsorted [''v1.10'', ''v1.9''] = [''v1.9'', ''v1.10'']
   \<and> \<not> is_digit CHR ''a'' \<and> \<not> is_digit CHR ''b'' \<and> CHR ''a'' < CHR ''b''
   \<and> natural_le ''v1.a'' ''v1.b'' \<and> \<not> natural_le ''v1.b'' ''v1.a''
   \<and> \<not> is_digit (last ''f'') \<and> is_digit CHR ''1'' \<and> \<not> is_digit CHR ''-''
   \<and> natural_le ''f1'' ''f-'' \<and> \<not> natural_le ''f-'' ''f1''
   \<and> natsorted [''d10/f1.sql'', ''d2/f10.sql'', ''d2/f9.sql'']
         = [''d2/f9.sql'', ''d2/f10.sql'', ''d10/f1.sql'']"
proof -
  have 1: "numeric_run ''v1.'' ''9'' []" and 2: "numeric_run ''v1.'' ''10'' []"
    by (simp_all add: numeric_run_def is_digit_def)
  have 3: "digits_value ''9'' < digits_value ''10''"
    by (simp add: digits_value_def digit_val_def)
  have 4: "mset [''v1.10'', ''v1.9''] = mset [''v1.9'', ''v1.10'']"
    by (simp add: add.commute)
  have 5: "natsorted [''v1.10'', ''v1.9''] = [''v1.9'', ''v1.10'']"
    by (simp add: natsorted_def natsort_key_def is_digit_def digit_val_def)
  have 6: "natsorted [''d10/f1.sql'', ''d2/f10.sql'', ''d2/f9.sql'']
         = [''d2/f9.sql'', ''d2/f10.sql'', ''d10/f1.sql'']"
    by (simp add: natsorted_def natsort_key_def is_digit_def digit_val_def)
  have 7: "\<not> is_digit CHR ''a''" "\<not> is_digit CHR ''b''" "CHR ''a'' < CHR ''b''"
    by (simp_all add: is_digit_def less_char_def)
  have 8: "\<not> is_digit (last ''f'')" "is_digit CHR ''1''" "\<not> is_digit CHR ''-''"
    by (simp_all add: is_digit_def)
  from natsorted_natural_order[of "[''v1.10'', ''v1.9'']" "[''v1.9'', ''v1.10'']"
      "''v1.9''" "''v1.10''" "''v1.10''" "''v1.''" "''9''" "[]" "''10''" "[]" "CHR ''a''" "CHR ''b''"]
    1 2 3 4 7
  have a: "natural_le ''v1.9'' ''v1.10'' \<and> \<not> natural_le ''v1.10'' ''v1.9''
      \<and> natsorted [''v1.10'', ''v1.9''] = natsorted [''v1.9'', ''v1.10'']
      \<and> natural_le ''v1.a'' ''v1.b'' \<and> \<not> natural_le ''v1.b'' ''v1.a''"
    by simp
  from natsorted_natural_order[of "[]" "[]" "[]" "[]" "[]" "''f''" "[]" "[]" "[]" "[]"
      "CHR ''1''" "CHR ''-''"] 8
  have b: "natural_le ''f1'' ''f-'' \<and> \<not> natural_le ''f-'' ''f1''"
    by simp
  show ?thesis using 1 2 3 5 6 7 8 a b by simp
qed


subsection \<open>What each operation adds to the trace\<close>

lemma extends_with_iff: "extends_with P tr tr' \<longleftrightarrow> (\<exists>evs. tr' = tr @ evs \<and> list_all P evs)"
  unfolding extends_with_def
  by (metis append_eq_conv_conj append_take_drop_id)

lemma extends_with_refl [simp]: "extends_with P tr tr"
  by (simp add: extends_with_def)

lemma extends_with_append [simp]: "extends_with P tr (tr @ evs) \<longleftrightarrow> list_all P evs"
  by (simp add: extends_with_def)

lemma extends_with_step: "extends_with P b c \<Longrightarrow> list_all P evs \<Longrightarrow> b = a @ evs \<Longrightarrow> extends_with P a c"
  unfolding extends_with_iff by auto

lemma attempt_rollback_attempt:
  "\<exists>evs. attempt_rollback env conn tr = tr @ evs \<and> rollback_attempt env conn (length tr) evs"
  by (auto simp: attempt_rollback_def attempt_rollback_stmt_def attempt_rollback_try_def
        rollback_attempt_def rollback_due_def TRANSACTION_STATUS_INTRANS_def Let_def
      split: option.splits sum.splits)

lemma write_reports_extends:
  "extends_with is_report_event tr (write_reports env r ss tr)"
proof (induction ss arbitrary: tr)
  case Nil
  then show ?case by simp
next
  case (Cons s ss)
  show ?case
  proof (cases "open_result env (length tr) (if s = ''processed'' then processed_type r else s)")
    case None
    then show ?thesis
      using extends_with_step[OF Cons[of "tr @ [OpenReport (if s = ''processed'' then processed_type r else s),
          WriteReport (if s = ''processed'' then processed_type r else s) (report_listing r s)]"]]
      by (simp add: Let_def)
  next
    case (Some e)
    then show ?thesis by (simp add: Let_def)
  qed
qed


lemma write_reports_names:
  "\<exists>evs. write_reports env r ss tr = tr @ evs \<and>
     (\<forall>e\<in>set evs. is_report_event e \<and>
        report_name e \<in> (\<lambda>s. if s = ''processed'' then processed_type r else s) ` set ss)"
proof (induction ss arbitrary: tr)
  case Nil
  then show ?case by simp
next
  case (Cons s ss)
  let ?n = "if s = ''processed'' then processed_type r else s"
  show ?case
  proof (cases "open_result env (length tr) ?n")
    case None
    obtain evs where evs: "write_reports env r ss (tr @ [OpenReport ?n, WriteReport ?n (report_listing r s)])
        = (tr @ [OpenReport ?n, WriteReport ?n (report_listing r s)]) @ evs"
      "\<forall>e\<in>set evs. is_report_event e \<and>
         report_name e \<in> (\<lambda>s. if s = ''processed'' then processed_type r else s) ` set ss"
      using Cons[of "tr @ [OpenReport ?n, WriteReport ?n (report_listing r s)]"] by blast
    have "write_reports env r (s # ss) tr
            = tr @ ([OpenReport ?n, WriteReport ?n (report_listing r s)] @ evs)"
      using None evs(1) by (simp add: Let_def)
    moreover have "\<forall>e\<in>set ([OpenReport ?n, WriteReport ?n (report_listing r s)] @ evs).
        is_report_event e \<and>
        report_name e \<in> (\<lambda>s. if s = ''processed'' then processed_type r else s) ` set (s # ss)"
      using evs(2) by auto
    ultimately show ?thesis by blast
  next
    case (Some e)
    then have "write_reports env r (s # ss) tr = tr @ [OpenReport ?n]"
      by (simp add: Let_def)
    then show ?thesis by auto
  qed
qed

lemma write_reports_first:
  "\<exists>evs. write_reports env r (s # ss) tr
     = tr @ OpenReport (if s = ''processed'' then processed_type r else s) # evs"
proof (cases "open_result env (length tr) (if s = ''processed'' then processed_type r else s)")
  case None
  let ?n = "if s = ''processed'' then processed_type r else s"
  obtain evs where "write_reports env r ss (tr @ [OpenReport ?n, WriteReport ?n (report_listing r s)])
        = (tr @ [OpenReport ?n, WriteReport ?n (report_listing r s)]) @ evs"
    using write_reports_names[of env r ss "tr @ [OpenReport ?n, WriteReport ?n (report_listing r s)]"]
    by blast
  then show ?thesis using None by (simp add: Let_def)
next
  case (Some e)
  then show ?thesis by (simp add: Let_def)
qed

lemma close_cursor_if_open_extends:
  "extends_with (\<lambda>e. \<exists>c. e = CloseCursor c) tr (snd (close_cursor_if_open env cur tr))"
  by (auto simp: close_cursor_if_open_def split: option.splits)


subsection \<open>The orchestrator\<close>

lemma code_points_eq [simp]: "code_points a = code_points b \<longleftrightarrow> a = b"
  by (simp add: code_points_def inj_map_eq_map inj_on_def)

lemma strip_select [simp]: "py_strip (code_points ''SELECT 1;'') \<noteq> []"
  by (simp add: py_strip_def py_isspace_def code_points_def)

lemma strip_selec [simp]: "py_strip (code_points ''SELEC 1;'') \<noteq> []"
  by (simp add: py_strip_def py_isspace_def code_points_def)

lemma strip_blank [simp]: "py_strip (code_points '' '') = []"
  by (simp add: py_strip_def py_isspace_def code_points_def)

lemmas step_defs =
  workflow_start_def open_cursor_def close_cursor_if_open_def cursor_closed_def ensure_connection_def
  read_sql_file_def execute_sql_def attempt_commit_def
  per_file_try_def finally_close_cursor_def

lemmas scan_defs = collect_file_paths_def endswith_def joinpath_def

lemma natsorted_single [simp]: "natsorted [x] = [x]"
  by (simp add: natsorted_def)

lemma natsorted_Nil [simp]: "natsorted [] = []"
  by (simp add: natsorted_def)

lemma initial_results_fields [simp]:
  "processed (initial_results conn) = []"
  "file_anomalies (initial_results conn) = []"
  "errors (initial_results conn) = []"
  "empty_files (initial_results conn) = []"
  "fatal_error_occurred (initial_results conn) = False"
  "failed_all_or_nothing (initial_results conn) = False"
  "connection (initial_results conn) = conn"
  "cursor (initial_results conn) = None"
  "unprocessed_files (initial_results conn) = []"
  by (simp_all add: initial_results_def)

text \<open>What the finally clause does to a dictionary and a trace.\<close>
lemma orchestrate_finally_fields:
  "orchestrate_finally env r files tr = (r1, tr1) \<Longrightarrow>
     processed r1 = processed r \<and> errors r1 = errors r \<and> empty_files r1 = empty_files r
     \<and> file_anomalies r1 = file_anomalies r
     \<and> fatal_error_occurred r1 = fatal_error_occurred r
     \<and> failed_all_or_nothing r1 = failed_all_or_nothing r
     \<and> connection r1 = connection r
     \<and> unprocessed_files r1
         = filter (\<lambda>x. x \<notin> set (processed r @ errors r @ empty_files r)) files"
  by (auto simp: orchestrate_finally_def Let_def split: prod.splits)

lemma orchestrate_finally_trace:
  assumes "orchestrate_finally env r files tr = (r1, tr1)"
  shows "\<exists>evs. tr1 = tr @ evs
     \<and> OpenReport (processed_type r) \<in> set evs
     \<and> (\<forall>e\<in>set evs. (\<exists>c. e = CloseCursor c) \<or>
           (is_report_event e \<and> report_name e \<in> insert (processed_type r) (set (tl report_suffixes))))"
proof -
  obtain cur tr0 where c: "close_cursor_if_open env (cursor r) tr = (cur, tr0)"
    by (cases "close_cursor_if_open env (cursor r) tr")
  obtain evs0 where evs0: "tr0 = tr @ evs0" "list_all (\<lambda>e. \<exists>c. e = CloseCursor c) evs0"
    using close_cursor_if_open_extends[of tr env "cursor r"] c by (auto simp: extends_with_iff)
  define r' where "r' = r\<lparr>cursor := cur, unprocessed_files :=
      filter (\<lambda>x. x \<notin> set (processed r @ errors r @ empty_files r)) files\<rparr>"
  have pt: "processed_type r' = processed_type r"
    by (simp add: r'_def processed_type_def)
  have tr1: "tr1 = write_reports env r' report_suffixes tr0"
    using assms c unfolding orchestrate_finally_def r'_def by (auto simp: Let_def)
  obtain evs1 where evs1: "write_reports env r' report_suffixes tr0 = tr0 @ evs1"
    "\<forall>e\<in>set evs1. is_report_event e \<and>
        report_name e \<in> (\<lambda>s. if s = ''processed'' then processed_type r' else s) ` set report_suffixes"
    using write_reports_names[of env r' report_suffixes tr0] by blast
  obtain evs2 where evs2: "write_reports env r' report_suffixes tr0
      = tr0 @ OpenReport (processed_type r') # evs2"
    using write_reports_first[of env r' "''processed''" "tl report_suffixes" tr0]
    by (auto simp: report_suffixes_def)
  have in1: "OpenReport (processed_type r) \<in> set evs1"
    using evs1(1) evs2 pt by auto
  have names: "(\<lambda>s. if s = ''processed'' then processed_type r' else s) ` set report_suffixes
      = insert (processed_type r) (set (tl report_suffixes))"
    by (auto simp: report_suffixes_def pt)
  have "tr1 = tr @ (evs0 @ evs1)" using tr1 evs1(1) evs0(1) by simp
  moreover have "OpenReport (processed_type r) \<in> set (evs0 @ evs1)" using in1 by simp
  moreover have "\<forall>e\<in>set (evs0 @ evs1). (\<exists>c. e = CloseCursor c) \<or>
           (is_report_event e \<and> report_name e \<in> insert (processed_type r) (set (tl report_suffixes)))"
    using evs0(2) evs1(2) unfolding names by (auto simp: list_all_iff)
  ultimately show ?thesis by blast
qed

lemma final_commit_failure:
  assumes "\<not> fatal_error_occurred r" and "final_commit_fails env (connection r) (length tr)"
  shows "final_commit env r tr
           = (r\<lparr>fatal_error_occurred := True, failed_all_or_nothing := True\<rparr>,
              attempt_rollback env (connection r)
                (tr @ failed_commit_events env (connection r) (length tr)))"
  using assms
  by (auto simp: final_commit_def final_commit_fails_def failed_commit_events_def attempt_commit_def
      split: option.splits)

lemma orchestrate_finally_closes_and_reports:
  assumes "orchestrate_finally env r files tr = (r1, tr1)"
  shows "\<exists>evs. tr1 = tr @ evs \<and> list_all (\<lambda>e. is_close_event e \<or> is_report_event e) evs
     \<and> OpenReport (processed_type r) \<in> set evs
     \<and> (\<forall>e\<in>set evs. report_name e \<in> insert [] (insert (processed_type r) (set (tl report_suffixes))))"
proof -
  obtain evs where evs: "tr1 = tr @ evs" "OpenReport (processed_type r) \<in> set evs"
     "\<forall>e\<in>set evs. (\<exists>c. e = CloseCursor c) \<or>
           (is_report_event e \<and> report_name e \<in> insert (processed_type r) (set (tl report_suffixes)))"
    using orchestrate_finally_trace[OF assms] by (elim exE conjE)
  have "list_all (\<lambda>e. is_close_event e \<or> is_report_event e) evs"
    using evs(3) by (auto simp: list_all_iff)
  moreover have "\<forall>e\<in>set evs. report_name e \<in> insert [] (insert (processed_type r) (set (tl report_suffixes)))"
    using evs(3) by auto
  ultimately show ?thesis using evs(1,2) by blast
qed

text \<open>
  C10: with a connection, an existing directory, no anomaly and no valid file,
  \<open>execute_sql_scripts_in_dir\<close> returns the boolean True, although the dictionary of the
  run records no fatal error; the entry point cannot read \<open>fatal_error_occurred\<close> from
  that value and exits with status 1.
\<close>
theorem no_files_exit_status:
  assumes "transaction_mode \<in> set transaction_mode_choices"
    and "connect_db env 5 3 [] = (Some c, tr)"
    and "is_dir env sql_dir = Inr True"
    and "collect_file_paths env sql_dir ''.sql'' = ([], [])"
  shows "fst (execute_sql_scripts_in_dir env (Some c) sql_dir transaction_mode tr) = RetBool True
     \<and> \<not> fatal_error_occurred (fst (snd (orchestrate env c sql_dir transaction_mode tr)))
     \<and> fst (main env transaction_mode sql_dir) = 1"
proof -
  have t: "orchestrate_try env c sql_dir transaction_mode tr
             = (ReturnTrue, initial_results (Some c), [], tr)"
    using assms(3,4) by (simp add: orchestrate_try_def initial_results_def)
  obtain r1 tr2 where f: "orchestrate_finally env (initial_results (Some c)) [] tr = (r1, tr2)"
    by (cases "orchestrate_finally env (initial_results (Some c)) [] tr")
  have nf: "\<not> fatal_error_occurred r1"
    using f by (auto simp: orchestrate_finally_def initial_results_def Let_def split: prod.splits)
  have o: "orchestrate env c sql_dir transaction_mode tr = (ReturnTrue, r1, tr2)"
    by (simp add: orchestrate_def t f)
  have e: "execute_sql_scripts_in_dir env (Some c) sql_dir transaction_mode tr = (RetBool True, tr2)"
    by (simp add: execute_sql_scripts_in_dir_def o)
  have m: "fst (main env transaction_mode sql_dir) = 1"
    using assms(1,2) by (simp add: main_def e main_finally_def Let_def)
  show ?thesis using e o nf m by simp
qed

text \<open>A directory that holds only notes.txt, in per-file mode.\<close>
theorem no_files_exit_status_witness:
  "''per-file'' \<in> set transaction_mode_choices
   \<and> connect_db env_empty_dir 5 3 [] = (Some 0, [Connect])
   \<and> is_dir env_empty_dir ''scripts'' = Inr True
   \<and> collect_file_paths env_empty_dir ''scripts'' ''.sql'' = ([], [])
   \<and> fst (execute_sql_scripts_in_dir env_empty_dir (Some 0) ''scripts'' ''per-file'' [Connect]) = RetBool True
   \<and> fst (main env_empty_dir ''per-file'' ''scripts'') = 1"
proof -
  have 1: "''per-file'' \<in> set transaction_mode_choices"
    by (simp add: transaction_mode_choices_def)
  have 2: "connect_db env_empty_dir 5 3 [] = (Some 0, [Connect])"
    by (simp add: connect_db_def upto_1_5 env_empty_dir_def env_retry_def)
  have 3: "is_dir env_empty_dir ''scripts'' = Inr True"
    by (simp add: env_empty_dir_def env_retry_def)
  have 4: "collect_file_paths env_empty_dir ''scripts'' ''.sql'' = ([], [])"
    by (simp add: collect_file_paths_def env_empty_dir_def env_retry_def endswith_def)
  from no_files_exit_status[OF 1 2 3 4] 1 2 3 4 show ?thesis by simp
qed


text \<open>
  C4: in all-or-nothing mode, when the workflow ends without a fatal error and the final
  commit fails, the run is marked failed after the fact (\<open>fatal_error_occurred\<close> and
  \<open>failed_all_or_nothing\<close>). Right after the commit that raised (or at once, when there was
  no open connection to commit on) comes a rollback attempt on the connection of the
  workflow: its transaction status is read and, when a transaction is in progress or in
  error, the rollback is issued. After that only the cursor is closed and the reports are
  written, and the list \<open>processed\<close>, unchanged, is reported under the name
  executable_files: no report named committed_files is opened or written.
\<close>
theorem final_commit_failure_reported:
  assumes "is_dir env sql_dir = Inr True"
    and "collect_file_paths env sql_dir ''.sql'' = (found, [])"
    and "found \<noteq> []"
    and "w = process_all_or_nothing env (Some c) (natsorted found) tr"
    and "\<not> w_fatal_error_occurred w"
    and "final_commit_fails env (w_conn w) (length (w_trace w))"
  shows "\<exists>r tr'. execute_sql_scripts_in_dir env (Some c) sql_dir ''all-or-nothing'' tr = (RetResults r, tr')
       \<and> fatal_error_occurred r \<and> failed_all_or_nothing r
       \<and> processed r = w_processed w
       \<and> processed_type r = ''executable_files''
       \<and> (\<exists>evs1 evs2.
              tr' = w_trace w @ failed_commit_events env (w_conn w) (length (w_trace w)) @ evs1 @ evs2
              \<and> rollback_attempt env (w_conn w)
                    (length (w_trace w) + length (failed_commit_events env (w_conn w) (length (w_trace w))))
                    evs1
              \<and> list_all (\<lambda>e. is_close_event e \<or> is_report_event e) evs2
              \<and> OpenReport ''executable_files'' \<in> set evs2
              \<and> (\<forall>e\<in>set evs2. report_name e \<noteq> ''committed_files''))"
proof -
  define r0 where "r0 = update_results ((initial_results (Some c))\<lparr>file_anomalies := []\<rparr>) w True"
  have r0: "\<not> fatal_error_occurred r0" "connection r0 = w_conn w" "processed r0 = w_processed w"
    using assms(5) by (simp_all add: r0_def update_results_def)
  define evs0 where "evs0 = failed_commit_events env (w_conn w) (length (w_trace w))"
  have fc: "final_commit env r0 (w_trace w)
           = (r0\<lparr>fatal_error_occurred := True, failed_all_or_nothing := True\<rparr>,
              attempt_rollback env (w_conn w) (w_trace w @ evs0))"
    using final_commit_failure[of r0 env "w_trace w"] r0 assms(6) by (simp add: evs0_def)
  define r2 where "r2 = r0\<lparr>fatal_error_occurred := True, failed_all_or_nothing := True\<rparr>"
  have t: "orchestrate_try env c sql_dir ''all-or-nothing'' tr
      = (ReturnResults, r2, natsorted found, attempt_rollback env (w_conn w) (w_trace w @ evs0))"
    using assms(1,2,3) fc
    by (simp add: orchestrate_try_def gated_modes_def Let_def assms(4)[symmetric] r0_def[symmetric]
        r2_def)
  obtain r tr' where f: "orchestrate_finally env r2 (natsorted found)
                           (attempt_rollback env (w_conn w) (w_trace w @ evs0)) = (r, tr')"
    by (cases "orchestrate_finally env r2 (natsorted found)
                 (attempt_rollback env (w_conn w) (w_trace w @ evs0))")
  have e: "execute_sql_scripts_in_dir env (Some c) sql_dir ''all-or-nothing'' tr = (RetResults r, tr')"
    by (simp add: execute_sql_scripts_in_dir_def orchestrate_def t f)
  have flds: "fatal_error_occurred r" "failed_all_or_nothing r" "processed r = w_processed w"
    using orchestrate_finally_fields[OF f] r0 by (simp_all add: r2_def)
  have pt: "processed_type r = ''executable_files''" "processed_type r2 = ''executable_files''"
    using flds(2) by (simp_all add: processed_type_def r2_def)
  obtain evs1 where evs1: "attempt_rollback env (w_conn w) (w_trace w @ evs0) = (w_trace w @ evs0) @ evs1"
      "rollback_attempt env (w_conn w) (length (w_trace w @ evs0)) evs1"
    using attempt_rollback_attempt[of env "w_conn w" "w_trace w @ evs0"] by (elim exE conjE)
  obtain evs2 where evs2: "tr' = attempt_rollback env (w_conn w) (w_trace w @ evs0) @ evs2"
      "list_all (\<lambda>e. is_close_event e \<or> is_report_event e) evs2"
      "OpenReport (processed_type r2) \<in> set evs2"
      "\<forall>e\<in>set evs2. report_name e \<in> insert [] (insert (processed_type r2) (set (tl report_suffixes)))"
    using orchestrate_finally_closes_and_reports[OF f] by (elim exE conjE)
  have a: "tr' = w_trace w @ evs0 @ evs1 @ evs2"
    using evs1(1) evs2(1) by simp
  have b: "rollback_attempt env (w_conn w) (length (w_trace w) + length evs0) evs1"
    using evs1(2) by simp
  have c: "OpenReport ''executable_files'' \<in> set evs2"
    using evs2(3) pt(2) by simp
  have d: "\<forall>e\<in>set evs2. report_name e \<noteq> ''committed_files''"
    using evs2(4) unfolding pt(2) by (auto simp: report_suffixes_def)
  show ?thesis using e flds pt(1) a b evs2(2) c d unfolding evs0_def by blast
qed

lemmas start_defs =
  execute_sql_scripts_in_dir_def orchestrate_def orchestrate_try_def gated_modes_def
  update_results_def initial_results_def

lemmas finish_defs =
  final_commit_def orchestrate_finally_def attempt_commit_def close_cursor_if_open_def
  cursor_closed_def report_suffixes_def report_listing_def processed_type_def Let_def

lemmas rollback_defs =
  attempt_rollback_def attempt_rollback_stmt_def attempt_rollback_try_def
  TRANSACTION_STATUS_INTRANS_def is_psycopg2_error_def is_file_error_def

lemma commit_fails_scan: "collect_file_paths env_commit_fails ''s'' ''.sql'' = ([''s/a.sql''], [])"
  by (simp add: scan_defs env_commit_fails_def env_retry_def)

lemma commit_fails_workflow:
  "process_all_or_nothing env_commit_fails (Some 0) [''s/a.sql''] [Connect]
     = \<lparr>w_conn = Some 0, w_cursor = Some \<lparr>cur_conn = 0, cur_closed = False\<rparr>,
         w_processed = [''s/a.sql''], w_errors = [], w_empty_files = [],
         w_fatal_error_occurred = False, w_failed_all_or_nothing = False,
         w_trace = [Connect, OpenCursor 0, ReadFile ''s/a.sql'', Execute 0 (code_points ''SELECT 1;'')]\<rparr>"
  by (simp add: process_all_or_nothing_def all_or_nothing_iteration_def step_defs
      env_commit_fails_def env_retry_def)

lemma commit_fails_run:
  "execute_sql_scripts_in_dir env_commit_fails (Some 0) ''s'' ''all-or-nothing'' [Connect]
     = (RetResults
          \<lparr>processed = [''s/a.sql''], file_anomalies = [], errors = [], empty_files = [],
           fatal_error_occurred = True, failed_all_or_nothing = True, connection = Some 0,
           cursor = Some \<lparr>cur_conn = 0, cur_closed = True\<rparr>, unprocessed_files = []\<rparr>,
        [Connect, OpenCursor 0, ReadFile ''s/a.sql'', Execute 0 (code_points ''SELECT 1;''), Commit 0,
         GetStatus 0, Log AttemptingRollback, Rollback 0, Log RollbackSuccessful, CloseCursor 0,
         OpenReport ''executable_files'', WriteReport ''executable_files'' [''s/a.sql''],
         OpenReport ''file_anomalies'', WriteReport ''file_anomalies'' [],
         OpenReport ''errors'', WriteReport ''errors'' [],
         OpenReport ''empty_files'', WriteReport ''empty_files'' [],
         OpenReport ''unprocessed_files'', WriteReport ''unprocessed_files'' []])"
proof -
  have d: "is_dir env_commit_fails ''s'' = Inr True" by (simp add: env_commit_fails_def env_retry_def)
  show ?thesis
    by (simp add: start_defs d commit_fails_scan commit_fails_workflow)
       (simp add: finish_defs rollback_defs env_commit_fails_def env_retry_def)
qed

text \<open>
  One script that executes; the commit raises a psycopg2.Error while the transaction is in
  progress: the rollback is issued right after the commit, and a.sql is reported under
  executable_files.
\<close>
theorem final_commit_failure_reported_witness:
  "is_dir env_commit_fails ''s'' = Inr True
   \<and> collect_file_paths env_commit_fails ''s'' ''.sql'' = ([''s/a.sql''], [])
   \<and> \<not> w_fatal_error_occurred (process_all_or_nothing env_commit_fails (Some 0) [''s/a.sql''] [Connect])
   \<and> final_commit_fails env_commit_fails (Some 0) 4
   \<and> failed_commit_events env_commit_fails (Some 0) 4 = [Commit 0]
   \<and> rollback_due env_commit_fails (Some 0) 5 0
   \<and> (\<exists>r tr'. execute_sql_scripts_in_dir env_commit_fails (Some 0) ''s'' ''all-or-nothing'' [Connect]
                  = (RetResults r, tr')
          \<and> fatal_error_occurred r \<and> failed_all_or_nothing r
          \<and> processed r = [''s/a.sql'']
          \<and> processed_type r = ''executable_files''
          \<and> (\<exists>evs1 evs2.
                 tr' = [Connect, OpenCursor 0, ReadFile ''s/a.sql'', Execute 0 (code_points ''SELECT 1;''), Commit 0]
                         @ evs1 @ evs2
                 \<and> rollback_attempt env_commit_fails (Some 0) 5 evs1
                 \<and> OpenReport ''executable_files'' \<in> set evs2))
   \<and> snd (execute_sql_scripts_in_dir env_commit_fails (Some 0) ''s'' ''all-or-nothing'' [Connect])
       = [Connect, OpenCursor 0, ReadFile ''s/a.sql'', Execute 0 (code_points ''SELECT 1;''), Commit 0,
          GetStatus 0, Log AttemptingRollback, Rollback 0, Log RollbackSuccessful, CloseCursor 0,
          OpenReport ''executable_files'', WriteReport ''executable_files'' [''s/a.sql''],
          OpenReport ''file_anomalies'', WriteReport ''file_anomalies'' [],
          OpenReport ''errors'', WriteReport ''errors'' [],
          OpenReport ''empty_files'', WriteReport ''empty_files'' [],
          OpenReport ''unprocessed_files'', WriteReport ''unprocessed_files'' []]"
proof -
  let ?w = "process_all_or_nothing env_commit_fails (Some 0) [''s/a.sql''] [Connect]"
  note w = commit_fails_workflow
  have 1: "is_dir env_commit_fails ''s'' = Inr True"
    by (simp add: env_commit_fails_def env_retry_def)
  note 2 = commit_fails_scan
  have 3: "[''s/a.sql''] \<noteq> []" by simp
  have 4: "?w = process_all_or_nothing env_commit_fails (Some 0) (natsorted [''s/a.sql'']) [Connect]"
    by simp
  have 5: "\<not> w_fatal_error_occurred ?w" by (simp add: w)
  have 6: "final_commit_fails env_commit_fails (w_conn ?w) (length (w_trace ?w))"
    unfolding w by (simp add: final_commit_fails_def env_commit_fails_def env_retry_def)
  have 7: "final_commit_fails env_commit_fails (Some 0) 4"
    by (simp add: final_commit_fails_def env_commit_fails_def env_retry_def)
  have 8: "failed_commit_events env_commit_fails (Some 0) t = [Commit 0]" for t
    by (simp add: failed_commit_events_def env_commit_fails_def env_retry_def)
  have 9: "rollback_due env_commit_fails (Some 0) 5 0"
    by (simp add: rollback_due_def TRANSACTION_STATUS_INTRANS_def env_commit_fails_def env_retry_def)
  from final_commit_failure_reported[OF 1 2 3 4 5 6]
  have ex: "\<exists>r tr'. execute_sql_scripts_in_dir env_commit_fails (Some 0) ''s'' ''all-or-nothing'' [Connect]
                  = (RetResults r, tr')
          \<and> fatal_error_occurred r \<and> failed_all_or_nothing r
          \<and> processed r = [''s/a.sql'']
          \<and> processed_type r = ''executable_files''
          \<and> (\<exists>evs1 evs2.
                 tr' = [Connect, OpenCursor 0, ReadFile ''s/a.sql'', Execute 0 (code_points ''SELECT 1;''), Commit 0]
                         @ evs1 @ evs2
                 \<and> rollback_attempt env_commit_fails (Some 0) 5 evs1
                 \<and> OpenReport ''executable_files'' \<in> set evs2)"
    unfolding w by (simp add: 8 eval_nat_numeral) blast
  show ?thesis using 1 2 5 7 8[of 4] 9 ex by (simp add: commit_fails_run)
qed


subsection \<open>The files a workflow records\<close>

lemma finally_close_cursor_fields [simp]:
  "w_conn (finally_close_cursor env w) = w_conn w"
  "w_processed (finally_close_cursor env w) = w_processed w"
  "w_errors (finally_close_cursor env w) = w_errors w"
  "w_empty_files (finally_close_cursor env w) = w_empty_files w"
  "w_fatal_error_occurred (finally_close_cursor env w) = w_fatal_error_occurred w"
  "w_failed_all_or_nothing (finally_close_cursor env w) = w_failed_all_or_nothing w"
  by (simp_all add: finally_close_cursor_def split: prod.splits)

lemma recorded_finally [simp]: "recorded (finally_close_cursor env w) = recorded w"
  by (simp add: recorded_def)

lemma recorded_simps [simp]:
  "recorded (w\<lparr>w_conn := a\<rparr>) = recorded w"
  "recorded (w\<lparr>w_cursor := b\<rparr>) = recorded w"
  "recorded (w\<lparr>w_trace := c\<rparr>) = recorded w"
  "recorded (w\<lparr>w_fatal_error_occurred := d\<rparr>) = recorded w"
  "recorded (w\<lparr>w_failed_all_or_nothing := e\<rparr>) = recorded w"
  "recorded (w\<lparr>w_processed := ps\<rparr>) = mset ps + mset (w_errors w) + mset (w_empty_files w)"
  "recorded (w\<lparr>w_errors := es\<rparr>) = mset (w_processed w) + mset es + mset (w_empty_files w)"
  "recorded (w\<lparr>w_empty_files := ms\<rparr>) = mset (w_processed w) + mset (w_errors w) + mset ms"
  by (simp_all add: recorded_def)

text \<open>
  An iteration of the per-file loop records its file once and goes on, or records nothing
  and stops with the connection lost.
\<close>

lemma per_file_iteration_recorded:
  assumes "per_file_iteration env p w = (b, w')"
  shows "(b \<and> recorded w' = recorded w + {#p#}
            \<and> w_fatal_error_occurred w' = w_fatal_error_occurred w \<and> w_conn w' \<noteq> None)
       \<or> (\<not> b \<and> recorded w' = recorded w \<and> w_fatal_error_occurred w' \<and> w_conn w' = None)"
  using assms unfolding per_file_iteration_def
  by (auto simp: Let_def recorded_def split: prod.splits option.splits sum.splits bool.splits if_splits)

lemma until_error_iteration_recorded:
  assumes "until_error_iteration env p w = (b, w')"
  shows "recorded w' = recorded w + {#p#}
       \<and> (b \<longrightarrow> w_errors w' = w_errors w \<and> w_fatal_error_occurred w' = w_fatal_error_occurred w
                \<and> w_conn w' \<noteq> None)
       \<and> (\<not> b \<longrightarrow> w_errors w' = w_errors w @ [p] \<and> w_processed w' = w_processed w
                \<and> w_empty_files w' = w_empty_files w \<and> w_fatal_error_occurred w')"
  using assms unfolding until_error_iteration_def
  by (auto simp: Let_def recorded_def split: prod.splits option.splits sum.splits bool.splits if_splits)

lemma all_or_nothing_iteration_recorded:
  assumes "all_or_nothing_iteration env k p w = (b, w')"
  shows "recorded w' = recorded w + {#p#}
       \<and> (b \<longrightarrow> w_errors w' = w_errors w \<and> w_fatal_error_occurred w' = w_fatal_error_occurred w
                \<and> w_failed_all_or_nothing w' = w_failed_all_or_nothing w
                \<and> w_conn w' \<noteq> None)
       \<and> (\<not> b \<longrightarrow> w_errors w' = w_errors w @ [p] \<and> w_processed w' = w_processed w
                \<and> w_empty_files w' = w_empty_files w \<and> w_fatal_error_occurred w'
                \<and> w_failed_all_or_nothing w')"
  using assms unfolding all_or_nothing_iteration_def
  by (auto simp: Let_def recorded_def split: prod.splits option.splits sum.splits bool.splits if_splits)

lemma per_file_loop_recorded:
  assumes "\<not> w_fatal_error_occurred w" "w_conn w \<noteq> None"
  shows "\<exists>n\<le>length files.
           recorded (per_file_loop env files w) = recorded w + mset (take n files)
         \<and> (w_fatal_error_occurred (per_file_loop env files w)
              \<longleftrightarrow> w_conn (per_file_loop env files w) = None)
         \<and> (n < length files \<longrightarrow> w_fatal_error_occurred (per_file_loop env files w))"
  using assms
proof (induction files arbitrary: w)
  case Nil
  then show ?case by simp
next
  case (Cons p files)
  obtain b w' where it: "per_file_iteration env p w = (b, w')"
    by (cases "per_file_iteration env p w")
  show ?case
  proof (cases b)
    case True
    then have w': "recorded w' = recorded w + {#p#}" "\<not> w_fatal_error_occurred w'" "w_conn w' \<noteq> None"
      using per_file_iteration_recorded[OF it] Cons.prems by auto
    obtain n where n: "n \<le> length files"
      "recorded (per_file_loop env files w') = recorded w' + mset (take n files)"
      "w_fatal_error_occurred (per_file_loop env files w') \<longleftrightarrow> w_conn (per_file_loop env files w') = None"
      "n < length files \<longrightarrow> w_fatal_error_occurred (per_file_loop env files w')"
      using Cons.IH[OF w'(2,3)] by (elim exE conjE) (rule that)
    show ?thesis
      using n w'(1) it True by (intro exI[of _ "Suc n"]) simp
  next
    case False
    then have "recorded w' = recorded w" "w_fatal_error_occurred w'" "w_conn w' = None"
      using per_file_iteration_recorded[OF it] by auto
    then show ?thesis using it False by (intro exI[of _ 0]) simp
  qed
qed

lemma until_error_loop_halts:
  assumes "\<not> w_fatal_error_occurred w" "w_errors w = []"
  shows "\<exists>n\<le>length files.
           recorded (until_error_loop env files w) = recorded w + mset (take n files)
         \<and> (if w_fatal_error_occurred (until_error_loop env files w)
            then 0 < n \<and> w_errors (until_error_loop env files w) = [files ! (n - 1)]
            else n = length files \<and> w_errors (until_error_loop env files w) = [])"
  using assms
proof (induction files arbitrary: w)
  case Nil
  then show ?case by simp
next
  case (Cons p files)
  obtain b w' where it: "until_error_iteration env p w = (b, w')"
    by (cases "until_error_iteration env p w")
  note r = until_error_iteration_recorded[OF it]
  show ?case
  proof (cases b)
    case True
    then have w': "recorded w' = recorded w + {#p#}" "\<not> w_fatal_error_occurred w'" "w_errors w' = []"
      using r Cons.prems by auto
    obtain n where n: "n \<le> length files"
      "recorded (until_error_loop env files w') = recorded w' + mset (take n files)"
      "if w_fatal_error_occurred (until_error_loop env files w')
            then 0 < n \<and> w_errors (until_error_loop env files w') = [files ! (n - 1)]
            else n = length files \<and> w_errors (until_error_loop env files w') = []"
      using Cons.IH[OF w'(2,3)] by (elim exE conjE) (rule that)
    show ?thesis
      using n w'(1) it True
      by (intro exI[of _ "Suc n"]) (auto split: if_splits simp: nth_Cons')
  next
    case False
    then show ?thesis using it r Cons.prems by (intro exI[of _ 1]) simp
  qed
qed

lemma all_or_nothing_loop_halts:
  assumes "\<not> w_fatal_error_occurred w" "w_errors w = []"
  shows "\<exists>n\<le>length files.
           recorded (all_or_nothing_loop env k files w) = recorded w + mset (take n files)
         \<and> (if w_fatal_error_occurred (all_or_nothing_loop env k files w)
            then 0 < n \<and> w_errors (all_or_nothing_loop env k files w) = [files ! (n - 1)]
            else n = length files \<and> w_errors (all_or_nothing_loop env k files w) = [])"
  using assms
proof (induction files arbitrary: w)
  case Nil
  then show ?case by simp
next
  case (Cons p files)
  obtain b w' where it: "all_or_nothing_iteration env k p w = (b, w')"
    by (cases "all_or_nothing_iteration env k p w")
  note r = all_or_nothing_iteration_recorded[OF it]
  show ?case
  proof (cases b)
    case True
    then have w': "recorded w' = recorded w + {#p#}" "\<not> w_fatal_error_occurred w'" "w_errors w' = []"
      using r Cons.prems by auto
    obtain n where n: "n \<le> length files"
      "recorded (all_or_nothing_loop env k files w') = recorded w' + mset (take n files)"
      "if w_fatal_error_occurred (all_or_nothing_loop env k files w')
            then 0 < n \<and> w_errors (all_or_nothing_loop env k files w') = [files ! (n - 1)]
            else n = length files \<and> w_errors (all_or_nothing_loop env k files w') = []"
      using Cons.IH[OF w'(2,3)] by (elim exE conjE) (rule that)
    show ?thesis
      using n w'(1) it True
      by (intro exI[of _ "Suc n"]) (auto split: if_splits simp: nth_Cons')
  next
    case False
    then show ?thesis using it r Cons.prems by (intro exI[of _ 1]) simp
  qed
qed

lemma filter_notin_take:
  "distinct xs \<Longrightarrow> filter (\<lambda>x. x \<notin> set (take n xs)) xs = drop n xs"
proof (induction xs arbitrary: n)
  case Nil
  then show ?case by simp
next
  case (Cons a xs)
  show ?case
  proof (cases n)
    case 0
    then show ?thesis by simp
  next
    case (Suc m)
    have "filter (\<lambda>x. x \<notin> set (take (Suc m) (a # xs))) xs = filter (\<lambda>x. x \<notin> set (take m xs)) xs"
      using Cons.prems by (intro filter_cong) auto
    then show ?thesis using Cons Suc by simp
  qed
qed

lemma recorded_start [simp]: "recorded (workflow_start conn tr) = {#}"
  by (simp add: recorded_def workflow_start_def)

lemma workflow_start_fields [simp]:
  "w_conn (workflow_start conn tr) = conn"
  "w_cursor (workflow_start conn tr) = None"
  "w_processed (workflow_start conn tr) = []"
  "w_errors (workflow_start conn tr) = []"
  "w_empty_files (workflow_start conn tr) = []"
  "w_fatal_error_occurred (workflow_start conn tr) = False"
  "w_failed_all_or_nothing (workflow_start conn tr) = False"
  "w_trace (workflow_start conn tr) = tr"
  by (simp_all add: workflow_start_def)

lemma process_per_file_recorded:
  "\<exists>n\<le>length files. recorded (process_per_file env (Some c) files tr) = mset (take n files)"
  using per_file_loop_recorded[of "workflow_start (Some c) tr" files env]
  by (auto simp: process_per_file_def)

lemma process_until_error_recorded:
  "\<exists>n\<le>length files. recorded (process_per_file_until_error env (Some c) files tr) = mset (take n files)"
  using until_error_loop_halts[of "workflow_start (Some c) tr" files env]
  by (auto simp: process_per_file_until_error_def)

lemma process_all_or_nothing_recorded:
  "\<exists>n\<le>length files. recorded (process_all_or_nothing env (Some c) files tr) = mset (take n files)"
proof (cases "open_cursor env c tr")
  case (Pair res tr1)
  show ?thesis
  proof (cases res)
    case (Inl e)
    then show ?thesis using Pair
      by (intro exI[of _ 0]) (simp add: process_all_or_nothing_def Let_def)
  next
    case (Inr k)
    have "\<exists>n\<le>length files.
        recorded (all_or_nothing_loop env k files ((workflow_start (Some c) tr)\<lparr>w_cursor := Some k, w_trace := tr1\<rparr>))
          = recorded ((workflow_start (Some c) tr)\<lparr>w_cursor := Some k, w_trace := tr1\<rparr>) + mset (take n files)"
      using all_or_nothing_loop_halts[of "(workflow_start (Some c) tr)\<lparr>w_cursor := Some k, w_trace := tr1\<rparr>" files env k]
      by auto
    then show ?thesis using Pair Inr
      by (simp add: process_all_or_nothing_def Let_def)
  qed
qed

subsection \<open>The outcome lists partition the valid files\<close>

lemma partition_from_recorded:
  assumes d: "distinct files" and n: "n \<le> length files"
    and rec: "mset (processed r) + mset (errors r) + mset (empty_files r) = mset (take n files)"
    and un: "unprocessed_files r = filter (\<lambda>x. x \<notin> set (processed r @ errors r @ empty_files r)) files"
    and f: "set files = set found"
  shows "partitions_valid_files r found"
proof -
  have m: "mset (processed r @ errors r @ empty_files r) = mset (take n files)"
    using rec by (simp add: add.assoc)
  then have s: "set (processed r @ errors r @ empty_files r) = set (take n files)"
    by (rule mset_eq_setD)
  have dd: "distinct (processed r @ errors r @ empty_files r)"
    using mset_eq_imp_distinct_iff[OF m] d by simp
  have u: "unprocessed_files r = drop n files"
    unfolding un s using filter_notin_take[OF d] by simp
  have disj: "set (take n files) \<inter> set (drop n files) = {}"
    using d by (simp add: set_take_disj_set_drop_if_distinct)
  have all: "set (take n files) \<union> set (drop n files) = set files"
    by (metis append_take_drop_id set_append)
  have s': "set (processed r) \<union> set (errors r) \<union> set (empty_files r) = set (take n files)"
    using s by (simp add: Un_assoc)
  show ?thesis
    unfolding partitions_valid_files_def u
    using dd disj all s' f by auto
qed

lemma final_commit_fields:
  "final_commit env r tr = (r', tr') \<Longrightarrow>
     processed r' = processed r \<and> errors r' = errors r \<and> empty_files r' = empty_files r
     \<and> file_anomalies r' = file_anomalies r \<and> connection r' = connection r \<and> cursor r' = cursor r"
  by (auto simp: final_commit_def split: if_splits prod.splits sum.splits option.splits)

lemma update_results_fields [simp]:
  "processed (update_results r w b) = w_processed w"
  "errors (update_results r w b) = w_errors w"
  "empty_files (update_results r w b) = w_empty_files w"
  "fatal_error_occurred (update_results r w b) = w_fatal_error_occurred w"
  "failed_all_or_nothing (update_results r w b) = w_failed_all_or_nothing w"
  "connection (update_results r w b) = w_conn w"
  "file_anomalies (update_results r w b) = file_anomalies r"
  "unprocessed_files (update_results r w b) = unprocessed_files r"
  by (simp_all add: update_results_def)

text \<open>What the try block hands to the finally clause when the scan passed the gate.\<close>

lemma orchestrate_try_recorded:
  assumes "is_dir env sql_dir = Inr True"
    and "collect_file_paths env sql_dir ''.sql'' = (found, anomalies)"
    and "anomalies = [] \<or> transaction_mode \<notin> set gated_modes"
    and "orchestrate_try env c sql_dir transaction_mode tr = (ret, r, files, tr')"
  shows "files = natsorted found \<and>
     (\<exists>n\<le>length files. mset (processed r) + mset (errors r) + mset (empty_files r) = mset (take n files))"
proof -
  have g: "\<not> (0 < length anomalies \<and> transaction_mode \<in> set gated_modes)"
    using assms(3) by auto
  note rec = process_per_file_recorded[of "natsorted found" env c tr]
    process_until_error_recorded[of "natsorted found" env c tr]
    process_all_or_nothing_recorded[of "natsorted found" env c tr]
  show ?thesis
  proof (cases "natsorted found = []")
    case True
    then show ?thesis using assms(1,2,4) g
      by (auto simp: orchestrate_try_def Let_def)
  next
    case False
    show ?thesis
      using assms(1,2,4) g False rec
      by (auto simp: orchestrate_try_def Let_def recorded_def
          split: if_splits prod.splits dest!: final_commit_fields)
  qed
qed

lemma scanned_run_partition:
  assumes "is_dir env sql_dir = Inr True"
    and "collect_file_paths env sql_dir ''.sql'' = (found, anomalies)"
    and "distinct found"
    and "anomalies = [] \<or> transaction_mode \<notin> set gated_modes"
  shows "partitions_valid_files (fst (snd (orchestrate env c sql_dir transaction_mode tr))) found"
proof -
  obtain ret r files tr1 where t: "orchestrate_try env c sql_dir transaction_mode tr = (ret, r, files, tr1)"
    by (cases "orchestrate_try env c sql_dir transaction_mode tr") auto
  obtain r1 tr2 where f: "orchestrate_finally env r files tr1 = (r1, tr2)"
    by (cases "orchestrate_finally env r files tr1")
  have o: "fst (snd (orchestrate env c sql_dir transaction_mode tr)) = r1"
    by (simp add: orchestrate_def t f)
  from orchestrate_try_recorded[OF assms(1,2,4) t] obtain n where
    files: "files = natsorted found" and n: "n \<le> length files"
    and rec: "mset (processed r) + mset (errors r) + mset (empty_files r) = mset (take n files)"
    by (elim exE conjE)
  note fl = orchestrate_finally_fields[OF f]
  have "partitions_valid_files r1 found"
  proof (rule partition_from_recorded[of files n])
    show "distinct files" using assms(3) by (simp add: files natsorted_distinct)
    show "n \<le> length files" by (rule n)
    show "mset (processed r1) + mset (errors r1) + mset (empty_files r1) = mset (take n files)"
      using rec fl by simp
    show "unprocessed_files r1 = filter (\<lambda>x. x \<notin> set (processed r1 @ errors r1 @ empty_files r1)) files"
      using fl by simp
    show "set files = set found" by (simp add: files natsorted_set)
  qed
  then show ?thesis by (simp add: o)
qed

lemma unscanned_run_partition:
  assumes "is_dir env sql_dir \<noteq> Inr True"
  shows "partitions_valid_files (fst (snd (orchestrate env c sql_dir transaction_mode tr))) []"
proof -
  have "\<exists>ret r tr1. orchestrate_try env c sql_dir transaction_mode tr = (ret, r, [], tr1)
      \<and> processed r = [] \<and> errors r = [] \<and> empty_files r = []"
  proof (cases "is_dir env sql_dir")
    case (Inl e)
    then show ?thesis by (simp add: orchestrate_try_def Let_def)
  next
    case (Inr b)
    then have "is_dir env sql_dir = Inr False" using assms by (cases b) simp_all
    then show ?thesis by (simp add: orchestrate_try_def Let_def)
  qed
  then obtain ret r tr1 where t: "orchestrate_try env c sql_dir transaction_mode tr = (ret, r, [], tr1)"
    and e: "processed r = []" "errors r = []" "empty_files r = []"
    by (elim exE conjE)
  obtain r1 tr2 where f: "orchestrate_finally env r [] tr1 = (r1, tr2)"
    by (cases "orchestrate_finally env r [] tr1")
  have o: "fst (snd (orchestrate env c sql_dir transaction_mode tr)) = r1"
    by (simp add: orchestrate_def t f)
  show ?thesis
    using orchestrate_finally_fields[OF f] e by (simp add: o partitions_valid_files_def)
qed

text \<open>
  C1, as amended: for every run that reaches reporting and is not halted by the anomaly
  gate, in every transaction mode, known or not, and whatever the database and the files
  do (connection losses included), the lists \<open>processed\<close>, \<open>errors\<close>, \<open>empty_files\<close> and
  \<open>unprocessed_files\<close> of the final results partition the valid files discovered: their
  union is the set of these files and they are pairwise disjoint. The paths discovered
  are taken to be pairwise distinct, as the paths of a directory walk are.
\<close>
theorem outcome_sets_partition:
  assumes "distinct (discovered_valid_files env sql_dir)"
    and "\<not> halted_by_gate env sql_dir transaction_mode"
  shows "partitions_valid_files (fst (snd (orchestrate env c sql_dir transaction_mode tr)))
           (discovered_valid_files env sql_dir)"
proof (cases "is_dir env sql_dir = Inr True")
  case True
  obtain found anomalies where s: "collect_file_paths env sql_dir ''.sql'' = (found, anomalies)"
    by (cases "collect_file_paths env sql_dir ''.sql''")
  have d: "discovered_valid_files env sql_dir = found"
    by (simp add: discovered_valid_files_def True s)
  have g: "anomalies = [] \<or> transaction_mode \<notin> set gated_modes"
    using assms(2) True s by (auto simp: halted_by_gate_def)
  show ?thesis
    unfolding d using scanned_run_partition[OF True s _ g] assms(1) d by simp
next
  case False
  then have d: "discovered_valid_files env sql_dir = []"
    by (auto simp: discovered_valid_files_def split: sum.splits bool.splits)
  show ?thesis unfolding d by (rule unscanned_run_partition[OF False])
qed


subsection \<open>A connection lost for good\<close>

lemma ensure_connection_lost:
  "connection_lost env w \<Longrightarrow>
     ensure_connection env (w_conn w) (w_trace w) = (None, snd (connect_db env 5 3 (w_trace w)))"
  by (cases "connect_db env 5 3 (w_trace w)")
     (auto simp: connection_lost_def ensure_connection_def split: option.splits)

lemma ensure_connection_kept:
  "\<not> connection_lost env w \<Longrightarrow> \<exists>c tr1. ensure_connection env (w_conn w) (w_trace w) = (Some c, tr1)"
  by (cases "connect_db env 5 3 (w_trace w)")
     (auto simp: connection_lost_def ensure_connection_def split: option.splits)

lemma per_file_iteration_break:
  assumes "per_file_iteration env p w = (b, w')"
  shows "b \<longleftrightarrow> \<not> connection_lost env w"
proof (cases "connection_lost env w")
  case True
  then show ?thesis using assms ensure_connection_lost[OF True]
    by (simp add: per_file_iteration_def)
next
  case False
  then obtain c tr1 where "ensure_connection env (w_conn w) (w_trace w) = (Some c, tr1)"
    using ensure_connection_kept by blast
  then show ?thesis using assms False
    by (simp add: per_file_iteration_def Let_def split: prod.splits)
qed


lemma per_file_loop_fatal_iff:
  assumes "\<not> w_fatal_error_occurred w"
  shows "w_fatal_error_occurred (per_file_loop env files w)
     \<longleftrightarrow> (\<exists>n<length files. \<not> w_fatal_error_occurred (per_file_loop env (take n files) w)
                  \<and> connection_lost env (per_file_loop env (take n files) w))"
  using assms
proof (induction files arbitrary: w)
  case Nil
  then show ?case by simp
next
  case (Cons p files)
  obtain b w' where it: "per_file_iteration env p w = (b, w')"
    by (cases "per_file_iteration env p w")
  note br = per_file_iteration_break[OF it]
  note rc = per_file_iteration_recorded[OF it]
  let ?P = "\<lambda>v. \<not> w_fatal_error_occurred v \<and> connection_lost env v"
  show ?case
  proof (cases b)
    case True
    then have nf: "\<not> w_fatal_error_occurred w'" using rc Cons.prems by auto
    have nl: "\<not> connection_lost env w" using br True by simp
    have l: "per_file_loop env (p # xs) w = per_file_loop env xs w'" for xs
      using it True by simp
    have "(\<exists>n<length (p # files). ?P (per_file_loop env (take n (p # files)) w))
        \<longleftrightarrow> (\<exists>m<length files. ?P (per_file_loop env (take m files) w'))"
    proof
      assume "\<exists>n<length (p # files). ?P (per_file_loop env (take n (p # files)) w)"
      then obtain n where n: "n < length (p # files)" "?P (per_file_loop env (take n (p # files)) w)"
        by (elim exE conjE) (rule that, simp_all)
      show "\<exists>m<length files. ?P (per_file_loop env (take m files) w')"
      proof (cases n)
        case 0
        then show ?thesis using n(2) nl by simp
      next
        case (Suc m)
        then have "m < length files" "?P (per_file_loop env (take m files) w')"
          using n l by simp_all
        then show ?thesis by (intro exI[of _ m]) simp
      qed
    next
      assume "\<exists>m<length files. ?P (per_file_loop env (take m files) w')"
      then obtain m where m: "m < length files" "?P (per_file_loop env (take m files) w')"
        by (elim exE conjE) (rule that, simp_all)
      show "\<exists>n<length (p # files). ?P (per_file_loop env (take n (p # files)) w)"
        using m l by (intro exI[of _ "Suc m"]) simp
    qed
    then show ?thesis unfolding l Cons.IH[OF nf] by simp
  next
    case False
    then have "w_fatal_error_occurred w'" using rc by auto
    moreover have "connection_lost env w" using br False by simp
    ultimately show ?thesis using it False Cons.prems
      by (intro iffI exI[of _ 0]) simp_all
  qed
qed


lemma per_file_no_loss:
  assumes "\<forall>t c'. \<not> closed_at env t c'"
  shows "\<not> w_fatal_error_occurred (process_per_file env (Some c) files tr)
     \<and> recorded (process_per_file env (Some c) files tr) = mset files"
proof -
  let ?w0 = "workflow_start (Some c) tr"
  have a: "\<not> w_fatal_error_occurred ?w0" and b: "w_conn ?w0 \<noteq> None" by simp_all
  have nl: "\<not> (\<not> w_fatal_error_occurred (per_file_loop env (take n files) ?w0)
                  \<and> connection_lost env (per_file_loop env (take n files) ?w0))" for n
  proof
    assume h: "\<not> w_fatal_error_occurred (per_file_loop env (take n files) ?w0)
                  \<and> connection_lost env (per_file_loop env (take n files) ?w0)"
    have "w_fatal_error_occurred (per_file_loop env (take n files) ?w0)
              \<longleftrightarrow> w_conn (per_file_loop env (take n files) ?w0) = None"
      using per_file_loop_recorded[OF a b, of "take n files" env] by (elim exE conjE)
    then obtain c' where "w_conn (per_file_loop env (take n files) ?w0) = Some c'"
      using h by (cases "w_conn (per_file_loop env (take n files) ?w0)") simp_all
    then show False using h assms by (simp add: connection_lost_def)
  qed
  have nf: "\<not> w_fatal_error_occurred (per_file_loop env files ?w0)"
    unfolding per_file_loop_fatal_iff[OF a, of env files] using nl by simp
  obtain n where n: "n \<le> length files"
      "recorded (per_file_loop env files ?w0) = recorded ?w0 + mset (take n files)"
      "n < length files \<longrightarrow> w_fatal_error_occurred (per_file_loop env files ?w0)"
    using per_file_loop_recorded[OF a b, of files env] by (elim exE conjE)
  have "n = length files" using n(1,3) nf by auto
  then show ?thesis using nf n(2) by (simp add: process_per_file_def)
qed



lemma close_cursor_if_open_result:
  "\<exists>cur' evs. close_cursor_if_open env cur tr = (cur', tr @ evs) \<and> list_all is_close_event evs"
  by (auto simp: close_cursor_if_open_def split: option.splits)

lemma finally_close_cursor_result:
  "\<exists>cur' evs. finally_close_cursor env w = w\<lparr>w_cursor := cur', w_trace := w_trace w @ evs\<rparr>
      \<and> list_all is_close_event evs"
proof -
  obtain cur' evs where "close_cursor_if_open env (w_cursor w) (w_trace w) = (cur', w_trace w @ evs)"
    "list_all is_close_event evs"
    using close_cursor_if_open_result[of env "w_cursor w" "w_trace w"] by (elim exE conjE)
  then show ?thesis by (auto simp: finally_close_cursor_def)
qed






subsection \<open>A script that fails after one that succeeds\<close>

lemma per_file_try_success:
  assumes "database_healthy env c" "script_succeeds env c p s"
  shows "\<exists>evs. list_all is_close_event evs \<and>
     per_file_try env p c cur tr
       = (Inr True, Some \<lparr>cur_conn = c, cur_closed = False\<rparr>,
          tr @ ReadFile p # evs @ [OpenCursor c, Execute c s, Commit c])"
proof -
  obtain cur' evs where cl: "close_cursor_if_open env cur (tr @ [ReadFile p]) = (cur', (tr @ [ReadFile p]) @ evs)"
    "list_all is_close_event evs"
    using close_cursor_if_open_result[of env cur "tr @ [ReadFile p]"] by (elim exE conjE)
  have "per_file_try env p c cur tr
       = (Inr True, Some \<lparr>cur_conn = c, cur_closed = False\<rparr>,
          tr @ ReadFile p # evs @ [OpenCursor c, Execute c s, Commit c])"
    using assms cl(1)
    by (simp add: per_file_try_def read_sql_file_def open_cursor_def execute_sql_def
        attempt_commit_def database_healthy_def script_succeeds_def)
  then show ?thesis using cl(2) by blast
qed

lemma per_file_try_db_error:
  assumes "database_healthy env c" "script_fails env c p s e"
  shows "\<exists>evs. list_all is_close_event evs \<and>
     per_file_try env p c cur tr
       = (Inl e, Some \<lparr>cur_conn = c, cur_closed = False\<rparr>,
          tr @ ReadFile p # evs @ [OpenCursor c, Execute c s])"
proof -
  obtain cur' evs where cl: "close_cursor_if_open env cur (tr @ [ReadFile p]) = (cur', (tr @ [ReadFile p]) @ evs)"
    "list_all is_close_event evs"
    using close_cursor_if_open_result[of env cur "tr @ [ReadFile p]"] by (elim exE conjE)
  have "per_file_try env p c cur tr
       = (Inl e, Some \<lparr>cur_conn = c, cur_closed = False\<rparr>,
          tr @ ReadFile p # evs @ [OpenCursor c, Execute c s])"
    using assms cl(1)
    by (simp add: per_file_try_def read_sql_file_def open_cursor_def execute_sql_def
        attempt_commit_def database_healthy_def script_fails_def)
  then show ?thesis using cl(2) by blast
qed

lemma ensure_connection_open:
  "database_healthy env c \<Longrightarrow> ensure_connection env (Some c) tr = (Some c, tr)"
  by (simp add: ensure_connection_def database_healthy_def)

lemma committed_eventsI:
  "list_all is_close_event cl1 \<Longrightarrow> list_all is_close_event cl2 \<Longrightarrow>
   committed_events c p s (ReadFile p # cl1 @ [OpenCursor c, Execute c s, Commit c] @ cl2)"
  unfolding committed_events_def by blast

lemma rolled_back_eventsI:
  "list_all is_close_event cl1 \<Longrightarrow> rollback_attempt env (Some c) (t + length cl1 + 3) evsr \<Longrightarrow>
   list_all is_close_event cl2 \<Longrightarrow>
   rolled_back_events env c p s t (ReadFile p # cl1 @ [OpenCursor c, Execute c s] @ evsr @ cl2)"
  unfolding rolled_back_events_def by blast

lemma per_file_iteration_success:
  assumes "w_conn w = Some c" "database_healthy env c" "script_succeeds env c p s"
  shows "\<exists>cur evs. per_file_iteration env p w
           = (True, w\<lparr>w_cursor := cur, w_processed := w_processed w @ [p], w_trace := w_trace w @ evs\<rparr>)
         \<and> committed_events c p s evs"
proof -
  obtain evs1 where t: "list_all is_close_event evs1"
     "per_file_try env p c (w_cursor w) (w_trace w)
       = (Inr True, Some \<lparr>cur_conn = c, cur_closed = False\<rparr>,
          w_trace w @ ReadFile p # evs1 @ [OpenCursor c, Execute c s, Commit c])"
    using per_file_try_success[OF assms(2,3), where cur = "w_cursor w" and tr = "w_trace w"] by (elim exE conjE)
  let ?w2 = "w\<lparr>w_conn := Some c, w_cursor := Some \<lparr>cur_conn = c, cur_closed = False\<rparr>,
      w_trace := w_trace w @ ReadFile p # evs1 @ [OpenCursor c, Execute c s, Commit c],
      w_processed := w_processed w @ [p]\<rparr>"
  obtain cur' evs2 where f: "finally_close_cursor env ?w2
      = ?w2\<lparr>w_cursor := cur', w_trace := w_trace ?w2 @ evs2\<rparr>" "list_all is_close_event evs2"
    using finally_close_cursor_result[of env ?w2] by (elim exE conjE)
  have it: "per_file_iteration env p w = (True, finally_close_cursor env ?w2)"
    using assms(1) t(2) by (simp add: per_file_iteration_def ensure_connection_open[OF assms(2)] Let_def)
  have eq: "per_file_iteration env p w
      = (True, w\<lparr>w_cursor := cur', w_processed := w_processed w @ [p],
           w_trace := w_trace w @ (ReadFile p # evs1 @ [OpenCursor c, Execute c s, Commit c] @ evs2)\<rparr>)"
    unfolding it f(1) using assms(1) by simp
  show ?thesis using eq committed_eventsI[OF t(1) f(2), of c p s] by blast
qed

lemma per_file_iteration_db_error:
  assumes "w_conn w = Some c" "database_healthy env c" "script_fails env c p s e"
  shows "\<exists>cur evs. per_file_iteration env p w
           = (True, w\<lparr>w_cursor := cur, w_errors := w_errors w @ [p], w_trace := w_trace w @ evs\<rparr>)
         \<and> rolled_back_events env c p s (length (w_trace w)) evs"
proof -
  obtain evs1 where t: "list_all is_close_event evs1"
     "per_file_try env p c (w_cursor w) (w_trace w)
       = (Inl e, Some \<lparr>cur_conn = c, cur_closed = False\<rparr>,
          w_trace w @ ReadFile p # evs1 @ [OpenCursor c, Execute c s])"
    using per_file_try_db_error[OF assms(2,3), where cur = "w_cursor w" and tr = "w_trace w"] by (elim exE conjE)
  let ?tr1 = "w_trace w @ ReadFile p # evs1 @ [OpenCursor c, Execute c s]"
  obtain evsr where rb: "attempt_rollback env (Some c) ?tr1 = ?tr1 @ evsr"
      "rollback_attempt env (Some c) (length ?tr1) evsr"
    using attempt_rollback_attempt[of env "Some c" ?tr1] by (elim exE conjE)
  have "length ?tr1 = length (w_trace w) + length evs1 + 3" by simp
  then have ra: "rollback_attempt env (Some c) (length (w_trace w) + length evs1 + 3) evsr"
    using rb(2) by (simp only:)
  let ?w2 = "w\<lparr>w_conn := Some c, w_cursor := Some \<lparr>cur_conn = c, cur_closed = False\<rparr>,
      w_errors := w_errors w @ [p], w_trace := ?tr1 @ evsr\<rparr>"
  obtain cur' evs2 where f: "finally_close_cursor env ?w2
      = ?w2\<lparr>w_cursor := cur', w_trace := w_trace ?w2 @ evs2\<rparr>" "list_all is_close_event evs2"
    using finally_close_cursor_result[of env ?w2] by (elim exE conjE)
  have nf: "\<not> is_file_error e" using assms(3)
    by (auto simp: script_fails_def is_psycopg2_error_def is_file_error_def)
  have it: "per_file_iteration env p w = (True, finally_close_cursor env ?w2)"
    using assms(1) t(2) nf rb(1)
    by (simp add: per_file_iteration_def ensure_connection_open[OF assms(2)] Let_def)
  have eq: "per_file_iteration env p w
      = (True, w\<lparr>w_cursor := cur', w_errors := w_errors w @ [p],
           w_trace := w_trace w @ (ReadFile p # evs1 @ [OpenCursor c, Execute c s] @ evsr @ evs2)\<rparr>)"
    unfolding it f(1) using assms(1) by simp
  show ?thesis using eq rolled_back_eventsI[OF t(1) ra f(2), of p s] by blast
qed

lemma per_file_loop_continue:
  "per_file_iteration env p w = (True, w') \<Longrightarrow> per_file_loop env (p # ps) w = per_file_loop env ps w'"
  by simp

lemma per_file_three:
  assumes h: "database_healthy env c"
    and 1: "script_succeeds env c ok1 s1"
    and 2: "script_fails env c bad sb e"
    and 3: "script_succeeds env c ok2 s2"
  shows "\<exists>cur evs1 evs2 evs3.
      process_per_file env (Some c) [ok1, bad, ok2] tr
        = \<lparr>w_conn = Some c, w_cursor = cur, w_processed = [ok1, ok2], w_errors = [bad],
           w_empty_files = [], w_fatal_error_occurred = False, w_failed_all_or_nothing = False,
           w_trace = tr @ evs1 @ evs2 @ evs3\<rparr>
      \<and> committed_events c ok1 s1 evs1
      \<and> rolled_back_events env c bad sb (length tr + length evs1) evs2
      \<and> committed_events c ok2 s2 evs3"
proof -
  let ?w0 = "workflow_start (Some c) tr"
  obtain cur1 evs1 where i1: "per_file_iteration env ok1 ?w0
       = (True, ?w0\<lparr>w_cursor := cur1, w_processed := w_processed ?w0 @ [ok1], w_trace := w_trace ?w0 @ evs1\<rparr>)"
     and e1: "committed_events c ok1 s1 evs1"
    using per_file_iteration_success[OF _ h 1, of ?w0] by (auto simp del: workflow.simps)
  let ?w1 = "?w0\<lparr>w_cursor := cur1, w_processed := w_processed ?w0 @ [ok1], w_trace := w_trace ?w0 @ evs1\<rparr>"
  have l1: "length (w_trace ?w1) = length tr + length evs1" by simp
  obtain cur2 evs2 where i2: "per_file_iteration env bad ?w1
       = (True, ?w1\<lparr>w_cursor := cur2, w_errors := w_errors ?w1 @ [bad], w_trace := w_trace ?w1 @ evs2\<rparr>)"
     and e2: "rolled_back_events env c bad sb (length (w_trace ?w1)) evs2"
    using per_file_iteration_db_error[OF _ h 2, of ?w1] by (auto simp del: workflow.simps)
  let ?w2 = "?w1\<lparr>w_cursor := cur2, w_errors := w_errors ?w1 @ [bad], w_trace := w_trace ?w1 @ evs2\<rparr>"
  obtain cur3 evs3 where i3: "per_file_iteration env ok2 ?w2
       = (True, ?w2\<lparr>w_cursor := cur3, w_processed := w_processed ?w2 @ [ok2], w_trace := w_trace ?w2 @ evs3\<rparr>)"
     and e3: "committed_events c ok2 s2 evs3"
    using per_file_iteration_success[OF _ h 3, of ?w2] by (auto simp del: workflow.simps)
  let ?w3 = "?w2\<lparr>w_cursor := cur3, w_processed := w_processed ?w2 @ [ok2], w_trace := w_trace ?w2 @ evs3\<rparr>"
  have "process_per_file env (Some c) [ok1, bad, ok2] tr = per_file_loop env [ok1, bad, ok2] ?w0"
    by (simp only: process_per_file_def)
  also have "\<dots> = per_file_loop env [bad, ok2] ?w1"
    by (rule per_file_loop_continue[OF i1])
  also have "\<dots> = per_file_loop env [ok2] ?w2"
    by (rule per_file_loop_continue[OF i2])
  also have "\<dots> = per_file_loop env [] ?w3"
    by (rule per_file_loop_continue[OF i3])
  also have "\<dots> = ?w3" by (simp only: per_file_loop.simps)
  also have "\<dots> = \<lparr>w_conn = Some c, w_cursor = cur3, w_processed = [ok1, ok2], w_errors = [bad],
           w_empty_files = [], w_fatal_error_occurred = False, w_failed_all_or_nothing = False,
           w_trace = tr @ evs1 @ evs2 @ evs3\<rparr>"
    by (simp add: workflow_start_def)
  finally show ?thesis using e1 e2[unfolded l1] e3 by blast
qed






lemma per_file_fatal_iff_lost:
  "w_fatal_error_occurred (process_per_file env (Some c) files tr)
     \<longleftrightarrow> w_conn (process_per_file env (Some c) files tr) = None"
  using per_file_loop_recorded[of "workflow_start (Some c) tr" files env]
  by (auto simp: process_per_file_def)

lemma per_file_scenario:
  assumes "is_dir env sql_dir = Inr True"
    and "collect_file_paths env sql_dir ''.sql'' = (found, anomalies)"
    and "natsorted found = [ok1, bad, ok2]"
    and "database_healthy env c"
    and "script_succeeds env c ok1 s1"
    and "script_fails env c bad sb e"
    and "script_succeeds env c ok2 s2"
  shows "\<exists>r tr'. execute_sql_scripts_in_dir env (Some c) sql_dir ''per-file'' tr = (RetResults r, tr')
       \<and> processed r = [ok1, ok2] \<and> errors r = [bad] \<and> empty_files r = []
       \<and> unprocessed_files r = []
       \<and> \<not> fatal_error_occurred r \<and> connection r = Some c
       \<and> (\<exists>evs1 evs2 evs3 evs4. tr' = tr @ evs1 @ evs2 @ evs3 @ evs4
             \<and> committed_events c ok1 s1 evs1
             \<and> rolled_back_events env c bad sb (length tr + length evs1) evs2
             \<and> committed_events c ok2 s2 evs3
             \<and> list_all (\<lambda>e. is_close_event e \<or> is_report_event e) evs4)"
proof -
  obtain cur evs1 evs2 evs3 where
    w: "process_per_file env (Some c) [ok1, bad, ok2] tr
        = \<lparr>w_conn = Some c, w_cursor = cur, w_processed = [ok1, ok2], w_errors = [bad],
           w_empty_files = [], w_fatal_error_occurred = False, w_failed_all_or_nothing = False,
           w_trace = tr @ evs1 @ evs2 @ evs3\<rparr>"
    and ev: "committed_events c ok1 s1 evs1" "rolled_back_events env c bad sb (length tr + length evs1) evs2"
      "committed_events c ok2 s2 evs3"
    using per_file_three[OF assms(4,5,6,7), of tr] by (elim exE conjE)
  have ne: "found \<noteq> []" using assms(3) by auto
  let ?w = "process_per_file env (Some c) [ok1, bad, ok2] tr"
  let ?r = "update_results ((initial_results (Some c))\<lparr>file_anomalies := natsorted anomalies\<rparr>) ?w False"
  have t: "orchestrate_try env c sql_dir ''per-file'' tr
      = (ReturnResults, ?r, [ok1, bad, ok2], tr @ evs1 @ evs2 @ evs3)"
    using assms(1,2,3) ne
    by (simp add: orchestrate_try_def gated_modes_def Let_def) (simp add: w)
  obtain r1 tr1 where f: "orchestrate_finally env ?r [ok1, bad, ok2] (tr @ evs1 @ evs2 @ evs3) = (r1, tr1)"
    by (cases "orchestrate_finally env ?r [ok1, bad, ok2] (tr @ evs1 @ evs2 @ evs3)")
  have e: "execute_sql_scripts_in_dir env (Some c) sql_dir ''per-file'' tr = (RetResults r1, tr1)"
    by (simp add: execute_sql_scripts_in_dir_def orchestrate_def t f)
  note fl = orchestrate_finally_fields[OF f]
  have flds: "processed r1 = [ok1, ok2]" "errors r1 = [bad]" "empty_files r1 = []"
    "unprocessed_files r1 = []" "\<not> fatal_error_occurred r1" "connection r1 = Some c"
    using fl by (simp_all add: w)
  obtain evs4 where tr1: "tr1 = (tr @ evs1 @ evs2 @ evs3) @ evs4"
    and c4: "list_all (\<lambda>e. is_close_event e \<or> is_report_event e) evs4"
    using orchestrate_finally_closes_and_reports[OF f] by (elim exE conjE)
  have "tr1 = tr @ evs1 @ evs2 @ evs3 @ evs4" using tr1 by simp
  then show ?thesis using e flds ev c4 by blast
qed

text \<open>
  C5: in per-file mode, when the sorted files are ok1, bad, ok2, the connection survives,
  ok1 and ok2 execute and bad raises a psycopg2.Error on execution, the run returns
  \<open>processed = [ok1, ok2]\<close>, \<open>errors = [bad]\<close>, nothing empty or unprocessed, and is not
  fatal. In the trace ok1 is executed and committed; then bad is executed and not
  committed, and right after its execution comes the rollback attempt, which reads the
  transaction status and rolls back when a transaction is in progress or in error; then ok2
  is executed and committed, and after that only the reports are written. For every list of
  files and every environment, the workflow is fatal exactly when the loop reaches some file
  with the connection lost for good: found closed, with no reconnection by \<open>connect_db\<close>;
  then it ends without a connection. So when no connection is ever found closed the run is
  not fatal and records every file, whatever errors the files raise.
\<close>
theorem per_file_continues_after_error:
  "(is_dir env sql_dir = Inr True
      \<and> collect_file_paths env sql_dir ''.sql'' = (found, anomalies)
      \<and> natsorted found = [ok1, bad, ok2]
      \<and> database_healthy env c
      \<and> script_succeeds env c ok1 s1 \<and> script_fails env c bad sb e \<and> script_succeeds env c ok2 s2 \<longrightarrow>
    (\<exists>r tr'. execute_sql_scripts_in_dir env (Some c) sql_dir ''per-file'' tr = (RetResults r, tr')
       \<and> processed r = [ok1, ok2] \<and> errors r = [bad] \<and> empty_files r = []
       \<and> unprocessed_files r = []
       \<and> \<not> fatal_error_occurred r \<and> connection r = Some c
       \<and> (\<exists>evs1 evs2 evs3 evs4. tr' = tr @ evs1 @ evs2 @ evs3 @ evs4
             \<and> committed_events c ok1 s1 evs1
             \<and> rolled_back_events env c bad sb (length tr + length evs1) evs2
             \<and> committed_events c ok2 s2 evs3
             \<and> list_all (\<lambda>e. is_close_event e \<or> is_report_event e) evs4)))
   \<and> (w_fatal_error_occurred (process_per_file env (Some c) files tr)
        \<longleftrightarrow> (\<exists>n<length files.
               \<not> w_fatal_error_occurred (per_file_loop env (take n files) (workflow_start (Some c) tr))
               \<and> connection_lost env (per_file_loop env (take n files) (workflow_start (Some c) tr))))
   \<and> (w_fatal_error_occurred (process_per_file env (Some c) files tr)
        \<longleftrightarrow> w_conn (process_per_file env (Some c) files tr) = None)
   \<and> ((\<forall>t c'. \<not> closed_at env t c') \<longrightarrow>
        \<not> w_fatal_error_occurred (process_per_file env (Some c) files tr)
        \<and> recorded (process_per_file env (Some c) files tr) = mset files)"
proof (intro conjI impI)
  assume a: "is_dir env sql_dir = Inr True
      \<and> collect_file_paths env sql_dir ''.sql'' = (found, anomalies)
      \<and> natsorted found = [ok1, bad, ok2]
      \<and> database_healthy env c
      \<and> script_succeeds env c ok1 s1 \<and> script_fails env c bad sb e \<and> script_succeeds env c ok2 s2"
  show "\<exists>r tr'. execute_sql_scripts_in_dir env (Some c) sql_dir ''per-file'' tr = (RetResults r, tr')
       \<and> processed r = [ok1, ok2] \<and> errors r = [bad] \<and> empty_files r = []
       \<and> unprocessed_files r = []
       \<and> \<not> fatal_error_occurred r \<and> connection r = Some c
       \<and> (\<exists>evs1 evs2 evs3 evs4. tr' = tr @ evs1 @ evs2 @ evs3 @ evs4
             \<and> committed_events c ok1 s1 evs1
             \<and> rolled_back_events env c bad sb (length tr + length evs1) evs2
             \<and> committed_events c ok2 s2 evs3
             \<and> list_all (\<lambda>e. is_close_event e \<or> is_report_event e) evs4)"
    using per_file_scenario[of env sql_dir found anomalies ok1 bad ok2 c s1 sb e s2 tr] a by simp
next
  have nf: "\<not> w_fatal_error_occurred (workflow_start (Some c) tr)" by simp
  show "w_fatal_error_occurred (process_per_file env (Some c) files tr)
        \<longleftrightarrow> (\<exists>n<length files.
               \<not> w_fatal_error_occurred (per_file_loop env (take n files) (workflow_start (Some c) tr))
               \<and> connection_lost env (per_file_loop env (take n files) (workflow_start (Some c) tr)))"
    unfolding process_per_file_def by (rule per_file_loop_fatal_iff[OF nf])
next
  show "w_fatal_error_occurred (process_per_file env (Some c) files tr)
        \<longleftrightarrow> w_conn (process_per_file env (Some c) files tr) = None"
    by (rule per_file_fatal_iff_lost)
next
  assume "\<forall>t c'. \<not> closed_at env t c'"
  then show "\<not> w_fatal_error_occurred (process_per_file env (Some c) files tr)"
    using per_file_no_loss[of env c files tr] by simp
next
  assume "\<forall>t c'. \<not> closed_at env t c'"
  then show "recorded (process_per_file env (Some c) files tr) = mset files"
    using per_file_no_loss[of env c files tr] by simp
qed




subsection \<open>The anomaly gate\<close>

lemmas natsort_defs = natsorted_def natsort_key_def is_digit_def digit_val_def

lemma anomaly_scan: "collect_file_paths env_anomaly ''s'' ''.sql'' = ([''s/a.sql''], [''s/b.sql''])"
  by (simp add: scan_defs env_anomaly_def env_retry_def)

lemma anomaly_dir: "is_dir env_anomaly ''s'' = Inr True"
  by (simp add: env_anomaly_def env_retry_def)

lemma anomaly_gate_run:
  "orchestrate env_anomaly 0 ''s'' ''all-or-nothing'' [Connect]
     = (ReturnResults,
        \<lparr>processed = [], file_anomalies = [''s/b.sql''], errors = [''s/b.sql''],
         empty_files = [], fatal_error_occurred = True, failed_all_or_nothing = False,
         connection = Some 0, cursor = None, unprocessed_files = []\<rparr>,
        [Connect,
         OpenReport ''committed_files'', WriteReport ''committed_files'' [],
         OpenReport ''file_anomalies'', WriteReport ''file_anomalies'' [''s/b.sql''],
         OpenReport ''errors'', WriteReport ''errors'' [''s/b.sql''],
         OpenReport ''empty_files'', WriteReport ''empty_files'' [],
         OpenReport ''unprocessed_files'', WriteReport ''unprocessed_files'' []])"
  by (simp add: orchestrate_def orchestrate_try_def orchestrate_finally_def anomaly_scan
      anomaly_dir initial_results_def gated_modes_def close_cursor_if_open_def report_suffixes_def
      processed_type_def report_listing_def Let_def)
     (simp add: env_anomaly_def env_retry_def Let_def report_listing_def)

text \<open>
  C1 as stated fails at the anomaly gate: with the valid file s/a.sql and the anomaly
  s/b.sql, the all-or-nothing run ends with \<open>errors = [s/b.sql]\<close> and no unprocessed file,
  so the four lists do not cover s/a.sql and hold a path that is not a valid file.
\<close>
theorem partition_fails_at_anomaly_gate:
  "halted_by_gate env_anomaly ''s'' ''all-or-nothing''
   \<and> discovered_valid_files env_anomaly ''s'' = [''s/a.sql'']
   \<and> errors (fst (snd (orchestrate env_anomaly 0 ''s'' ''all-or-nothing'' [Connect]))) = [''s/b.sql'']
   \<and> unprocessed_files (fst (snd (orchestrate env_anomaly 0 ''s'' ''all-or-nothing'' [Connect]))) = []
   \<and> \<not> partitions_valid_files
         (fst (snd (orchestrate env_anomaly 0 ''s'' ''all-or-nothing'' [Connect])))
         (discovered_valid_files env_anomaly ''s'')"
  by (simp add: anomaly_gate_run anomaly_scan anomaly_dir partitions_valid_files_def
      discovered_valid_files_def halted_by_gate_def gated_modes_def)

text \<open>
  The same directory in per-file mode, which the gate lets through: the lists partition
  the one valid file.
\<close>
theorem outcome_sets_partition_witness:
  "distinct (discovered_valid_files env_anomaly ''s'')
   \<and> \<not> halted_by_gate env_anomaly ''s'' ''per-file''
   \<and> discovered_valid_files env_anomaly ''s'' = [''s/a.sql'']
   \<and> partitions_valid_files (fst (snd (orchestrate env_anomaly 0 ''s'' ''per-file'' [Connect]))) [''s/a.sql'']"
proof -
  have v: "discovered_valid_files env_anomaly ''s'' = [''s/a.sql'']"
    by (simp add: discovered_valid_files_def anomaly_dir anomaly_scan)
  have 1: "distinct (discovered_valid_files env_anomaly ''s'')" by (simp add: v)
  have 2: "\<not> halted_by_gate env_anomaly ''s'' ''per-file''"
    by (simp add: halted_by_gate_def gated_modes_def)
  from outcome_sets_partition[OF 1 2, of 0 "[Connect]"] 1 2 v
  show ?thesis by simp
qed

text \<open>
  C3 as stated fails: the entry point connects before the scan. With the anomaly
  s/b.sql in all-or-nothing mode the program makes one connection attempt, writes the
  reports, closes the connection and exits with 1.
\<close>
theorem gate_does_not_prevent_first_connection:
  "snd (collect_file_paths env_anomaly ''s'' ''.sql'') = [''s/b.sql'']
   \<and> main env_anomaly ''all-or-nothing'' ''s''
       = (1, [Connect,
              OpenReport ''committed_files'', WriteReport ''committed_files'' [],
              OpenReport ''file_anomalies'', WriteReport ''file_anomalies'' [''s/b.sql''],
              OpenReport ''errors'', WriteReport ''errors'' [''s/b.sql''],
              OpenReport ''empty_files'', WriteReport ''empty_files'' [],
              OpenReport ''unprocessed_files'', WriteReport ''unprocessed_files'' [],
              CloseConn 0])
   \<and> Connect \<in> set (snd (main env_anomaly ''all-or-nothing'' ''s''))"
proof -
  have c: "connect_db env_anomaly 5 3 [] = (Some 0, [Connect])"
    by (simp add: connect_db_def upto_1_5 env_anomaly_def env_retry_def)
  have m: "main env_anomaly ''all-or-nothing'' ''s''
       = (1, [Connect,
              OpenReport ''committed_files'', WriteReport ''committed_files'' [],
              OpenReport ''file_anomalies'', WriteReport ''file_anomalies'' [''s/b.sql''],
              OpenReport ''errors'', WriteReport ''errors'' [''s/b.sql''],
              OpenReport ''empty_files'', WriteReport ''empty_files'' [],
              OpenReport ''unprocessed_files'', WriteReport ''unprocessed_files'' [],
              CloseConn 0])"
    by (simp add: main_def transaction_mode_choices_def c execute_sql_scripts_in_dir_def
        anomaly_gate_run main_finally_def)
       (simp add: env_anomaly_def env_retry_def)
  show ?thesis by (simp add: m anomaly_scan)
qed

lemma gated_orchestrate_try:
  assumes "is_dir env sql_dir = Inr True"
    and "collect_file_paths env sql_dir ''.sql'' = (found, anomalies)"
    and "anomalies \<noteq> []"
    and "transaction_mode \<in> set gated_modes"
  shows "orchestrate_try env c sql_dir transaction_mode tr
     = (ReturnResults,
        (initial_results (Some c))\<lparr>file_anomalies := natsorted anomalies,
           fatal_error_occurred := True, errors := natsorted anomalies\<rparr>, [], tr)"
  using assms by (simp add: orchestrate_try_def Let_def)

lemma gated_run:
  assumes "is_dir env sql_dir = Inr True"
    and "collect_file_paths env sql_dir ''.sql'' = (found, anomalies)"
    and "anomalies \<noteq> []"
    and "transaction_mode \<in> set gated_modes"
  shows "\<exists>r tr'. execute_sql_scripts_in_dir env (Some c) sql_dir transaction_mode tr = (RetResults r, tr')
       \<and> fatal_error_occurred r \<and> connection r = Some c
       \<and> errors r = natsorted anomalies \<and> file_anomalies r = natsorted anomalies
       \<and> processed r = [] \<and> empty_files r = [] \<and> unprocessed_files r = []
       \<and> extends_with is_report_event tr tr'"
proof -
  let ?r = "(initial_results (Some c))\<lparr>file_anomalies := natsorted anomalies,
           fatal_error_occurred := True, errors := natsorted anomalies\<rparr>"
  note t = gated_orchestrate_try[OF assms, of c tr]
  obtain r1 tr1 where f: "orchestrate_finally env ?r [] tr = (r1, tr1)"
    by (cases "orchestrate_finally env ?r [] tr")
  have e: "execute_sql_scripts_in_dir env (Some c) sql_dir transaction_mode tr = (RetResults r1, tr1)"
    by (simp add: execute_sql_scripts_in_dir_def orchestrate_def t f)
  note fl = orchestrate_finally_fields[OF f]
  have tr1: "tr1 = write_reports env r1 report_suffixes tr"
    using f by (auto simp: orchestrate_finally_def close_cursor_if_open_def Let_def)
  have x: "extends_with is_report_event tr tr1"
    unfolding tr1 by (rule write_reports_extends)
  show ?thesis using e fl x by simp
qed

lemma gated_main:
  assumes "is_dir env sql_dir = Inr True"
    and "collect_file_paths env sql_dir ''.sql'' = (found, anomalies)"
    and "anomalies \<noteq> []"
    and g: "transaction_mode \<in> set gated_modes"
    and cdb: "connect_db env 5 3 [] = (Some c, tr)"
  shows "fst (main env transaction_mode sql_dir) = 1
     \<and> extends_with (\<lambda>e. is_report_event e \<or> e = CloseConn c) tr
          (snd (main env transaction_mode sql_dir))"
proof -
  obtain r tr' where e: "execute_sql_scripts_in_dir env (Some c) sql_dir transaction_mode tr = (RetResults r, tr')"
    and fl: "fatal_error_occurred r" "connection r = Some c" and x: "extends_with is_report_event tr tr'"
    using gated_run[OF assms(1,2,3) g, of c tr] by blast
  have ch: "transaction_mode \<in> set transaction_mode_choices"
    using g by (auto simp: gated_modes_def transaction_mode_choices_def)
  have m: "main env transaction_mode sql_dir = main_finally env (Some c) False tr'"
    using ch cdb e fl by (simp add: main_def)
  obtain evs where evs: "tr' = tr @ evs" "list_all is_report_event evs"
    using x by (auto simp: extends_with_iff)
  have "fst (main env transaction_mode sql_dir) = 1" by (simp add: m main_finally_def Let_def)
  moreover have "extends_with (\<lambda>e. is_report_event e \<or> e = CloseConn c) tr (snd (main env transaction_mode sql_dir))"
    using evs by (auto simp: m main_finally_def Let_def extends_with_iff list_all_iff)
  ultimately show ?thesis by simp
qed

text \<open>
  C3, as amended: when the scan finds anomalies, a run in all-or-nothing or
  per-file-until-error mode is marked fatal, its error list is the naturally sorted list of
  the anomalies, nothing is processed, and after the scan it does nothing but write the
  reports: no connection attempt, no cursor, no SQL, no commit, no rollback. The only
  connection attempts of the program are those of the entry point before the scan, after
  which it closes the connection and exits with 1. In per-file mode the same scan, when it
  finds a valid file, is followed by the per-file workflow on the sorted valid files alone;
  the anomalies are listed in \<open>file_anomalies\<close> and the four outcome lists hold valid files
  only.
\<close>
theorem anomaly_gate_after_connection:
  assumes "is_dir env sql_dir = Inr True"
    and "collect_file_paths env sql_dir ''.sql'' = (found, anomalies)"
    and "anomalies \<noteq> []"
  shows "(transaction_mode \<in> set gated_modes \<longrightarrow>
           (\<exists>r tr'. execute_sql_scripts_in_dir env (Some c) sql_dir transaction_mode tr = (RetResults r, tr')
              \<and> fatal_error_occurred r
              \<and> errors r = natsorted anomalies \<and> file_anomalies r = natsorted anomalies
              \<and> processed r = [] \<and> empty_files r = [] \<and> unprocessed_files r = []
              \<and> extends_with is_report_event tr tr'))
       \<and> (transaction_mode \<in> set gated_modes \<and> connect_db env 5 3 [] = (Some c, tr) \<longrightarrow>
           fst (main env transaction_mode sql_dir) = 1
           \<and> extends_with (\<lambda>e. is_report_event e \<or> e = CloseConn c) tr
                (snd (main env transaction_mode sql_dir)))
       \<and> (found \<noteq> [] \<longrightarrow>
           (\<exists>r tr'. execute_sql_scripts_in_dir env (Some c) sql_dir ''per-file'' tr = (RetResults r, tr')
              \<and> file_anomalies r = natsorted anomalies
              \<and> processed r = w_processed (process_per_file env (Some c) (natsorted found) tr)
              \<and> errors r = w_errors (process_per_file env (Some c) (natsorted found) tr)
              \<and> empty_files r = w_empty_files (process_per_file env (Some c) (natsorted found) tr)
              \<and> set (processed r) \<union> set (errors r) \<union> set (empty_files r) \<union> set (unprocessed_files r)
                   = set found))"
proof (intro conjI impI)
  assume g: "transaction_mode \<in> set gated_modes"
  show "\<exists>r tr'. execute_sql_scripts_in_dir env (Some c) sql_dir transaction_mode tr = (RetResults r, tr')
              \<and> fatal_error_occurred r
              \<and> errors r = natsorted anomalies \<and> file_anomalies r = natsorted anomalies
              \<and> processed r = [] \<and> empty_files r = [] \<and> unprocessed_files r = []
              \<and> extends_with is_report_event tr tr'"
    using gated_run[OF assms g, of c tr] by blast
next
  assume a: "transaction_mode \<in> set gated_modes \<and> connect_db env 5 3 [] = (Some c, tr)"
  show "fst (main env transaction_mode sql_dir) = 1"
    using gated_main[OF assms] a by simp
next
  assume a: "transaction_mode \<in> set gated_modes \<and> connect_db env 5 3 [] = (Some c, tr)"
  show "extends_with (\<lambda>e. is_report_event e \<or> e = CloseConn c) tr
                (snd (main env transaction_mode sql_dir))"
    using gated_main[OF assms] a by simp
next
  assume ne: "found \<noteq> []"
  let ?w = "process_per_file env (Some c) (natsorted found) tr"
  let ?r = "update_results ((initial_results (Some c))\<lparr>file_anomalies := natsorted anomalies\<rparr>) ?w False"
  have t: "orchestrate_try env c sql_dir ''per-file'' tr
      = (ReturnResults, ?r, natsorted found, w_trace ?w)"
    using assms(1,2) ne by (simp add: orchestrate_try_def gated_modes_def Let_def)
  obtain r1 tr1 where f: "orchestrate_finally env ?r (natsorted found) (w_trace ?w) = (r1, tr1)"
    by (cases "orchestrate_finally env ?r (natsorted found) (w_trace ?w)")
  have e: "execute_sql_scripts_in_dir env (Some c) sql_dir ''per-file'' tr = (RetResults r1, tr1)"
    by (simp add: execute_sql_scripts_in_dir_def orchestrate_def t f)
  note fl = orchestrate_finally_fields[OF f]
  obtain n where n: "n \<le> length (natsorted found)" "recorded ?w = mset (take n (natsorted found))"
    using process_per_file_recorded[of "natsorted found" env c tr] by (elim exE conjE)
  have sub: "set (w_processed ?w) \<union> set (w_errors ?w) \<union> set (w_empty_files ?w) \<subseteq> set found"
  proof -
    have "set_mset (recorded ?w) \<subseteq> set (natsorted found)"
      unfolding n(2) by (simp add: set_take_subset)
    then show ?thesis by (simp add: recorded_def natsorted_set)
  qed
  have un: "set (processed r1) \<union> set (errors r1) \<union> set (empty_files r1) \<union> set (unprocessed_files r1) = set found"
    using fl sub by (auto simp: natsorted_set)
  show "\<exists>r tr'. execute_sql_scripts_in_dir env (Some c) sql_dir ''per-file'' tr = (RetResults r, tr')
              \<and> file_anomalies r = natsorted anomalies
              \<and> processed r = w_processed ?w \<and> errors r = w_errors ?w
              \<and> empty_files r = w_empty_files ?w
              \<and> set (processed r) \<union> set (errors r) \<union> set (empty_files r) \<union> set (unprocessed_files r)
                   = set found"
    using e fl un by simp
qed

text \<open>
  The directory with the anomaly s/b.sql, in all-or-nothing and in per-file mode.
\<close>
theorem anomaly_gate_after_connection_witness:
  "is_dir env_anomaly ''s'' = Inr True
   \<and> collect_file_paths env_anomaly ''s'' ''.sql'' = ([''s/a.sql''], [''s/b.sql''])
   \<and> ''all-or-nothing'' \<in> set gated_modes
   \<and> connect_db env_anomaly 5 3 [] = (Some 0, [Connect])
   \<and> (\<exists>r tr'. execute_sql_scripts_in_dir env_anomaly (Some 0) ''s'' ''all-or-nothing'' [Connect]
                  = (RetResults r, tr')
         \<and> fatal_error_occurred r \<and> errors r = [''s/b.sql''] \<and> processed r = []
         \<and> extends_with is_report_event [Connect] tr')
   \<and> fst (main env_anomaly ''all-or-nothing'' ''s'') = 1
   \<and> extends_with (\<lambda>e. is_report_event e \<or> e = CloseConn 0) [Connect]
         (snd (main env_anomaly ''all-or-nothing'' ''s''))
   \<and> (\<exists>r tr'. execute_sql_scripts_in_dir env_anomaly (Some 0) ''s'' ''per-file'' [Connect]
                  = (RetResults r, tr')
         \<and> file_anomalies r = [''s/b.sql'']
         \<and> set (processed r) \<union> set (errors r) \<union> set (empty_files r) \<union> set (unprocessed_files r)
              = {''s/a.sql''})"
proof -
  have d: "is_dir env_anomaly ''s'' = Inr True" by (simp add: env_anomaly_def env_retry_def)
  have n: "[''s/b.sql''] \<noteq> []" by simp
  have g: "''all-or-nothing'' \<in> set gated_modes" by (simp add: gated_modes_def)
  have c: "connect_db env_anomaly 5 3 [] = (Some 0, [Connect])"
    by (simp add: connect_db_def upto_1_5 env_anomaly_def env_retry_def)
  note th = anomaly_gate_after_connection[OF d anomaly_scan n, of "''all-or-nothing''" 0 "[Connect]"]
  have 1: "\<exists>r tr'. execute_sql_scripts_in_dir env_anomaly (Some 0) ''s'' ''all-or-nothing'' [Connect]
                  = (RetResults r, tr')
         \<and> fatal_error_occurred r \<and> errors r = [''s/b.sql''] \<and> processed r = []
         \<and> extends_with is_report_event [Connect] tr'"
    using th g by auto
  have 2: "fst (main env_anomaly ''all-or-nothing'' ''s'') = 1
     \<and> extends_with (\<lambda>e. is_report_event e \<or> e = CloseConn 0) [Connect]
         (snd (main env_anomaly ''all-or-nothing'' ''s''))"
    using th g c by blast
  have 3: "\<exists>r tr'. execute_sql_scripts_in_dir env_anomaly (Some 0) ''s'' ''per-file'' [Connect]
                  = (RetResults r, tr')
         \<and> file_anomalies r = [''s/b.sql'']
         \<and> set (processed r) \<union> set (errors r) \<union> set (empty_files r) \<union> set (unprocessed_files r)
              = {''s/a.sql''}"
    using th by auto
  show ?thesis using d anomaly_scan g c 1 2 3 by simp
qed


subsection \<open>A connection lost in the all-or-nothing mode\<close>

lemma natsorted_a_b: "natsorted [''s/a.sql'', ''s/b.sql''] = [''s/a.sql'', ''s/b.sql'']"
  by (simp add: natsort_defs)

lemma reconnect_scan: "collect_file_paths env_reconnect ''s'' ''.sql'' = ([''s/a.sql'', ''s/b.sql''], [])"
  by (simp add: scan_defs env_reconnect_def env_retry_def)

lemma reconnect_workflow:
  "process_all_or_nothing env_reconnect (Some 0) [''s/a.sql'', ''s/b.sql''] [Connect]
     = \<lparr>w_conn = Some 4, w_cursor = Some \<lparr>cur_conn = 0, cur_closed = False\<rparr>,
        w_processed = [''s/a.sql''], w_errors = [], w_empty_files = [''s/b.sql''],
        w_fatal_error_occurred = False, w_failed_all_or_nothing = False,
        w_trace = [Connect, OpenCursor 0, ReadFile ''s/a.sql'', Execute 0 (code_points ''SELECT 1;''),
                   Connect, ReadFile ''s/b.sql'']\<rparr>"
  by (simp add: process_all_or_nothing_def all_or_nothing_iteration_def step_defs
      connect_db_def upto_1_5 env_reconnect_def env_retry_def)

lemma reconnect_run:
  "execute_sql_scripts_in_dir env_reconnect (Some 0) ''s'' ''all-or-nothing'' [Connect]
     = (RetResults
          \<lparr>processed = [''s/a.sql''], file_anomalies = [], errors = [],
           empty_files = [''s/b.sql''], fatal_error_occurred = False,
           failed_all_or_nothing = False, connection = Some 4,
           cursor = Some \<lparr>cur_conn = 0, cur_closed = False\<rparr>,
           unprocessed_files = []\<rparr>,
        [Connect, OpenCursor 0, ReadFile ''s/a.sql'', Execute 0 (code_points ''SELECT 1;''),
         Connect, ReadFile ''s/b.sql'', Commit 4,
         OpenReport ''committed_files'', WriteReport ''committed_files'' [''s/a.sql''],
         OpenReport ''file_anomalies'', WriteReport ''file_anomalies'' [],
         OpenReport ''errors'', WriteReport ''errors'' [],
         OpenReport ''empty_files'', WriteReport ''empty_files'' [''s/b.sql''],
         OpenReport ''unprocessed_files'', WriteReport ''unprocessed_files'' []])"
proof -
  have d: "is_dir env_reconnect ''s'' = Inr True" by (simp add: env_reconnect_def env_retry_def)
  show ?thesis
    by (simp add: start_defs d reconnect_scan natsorted_a_b reconnect_workflow)
       (simp add: finish_defs env_reconnect_def env_retry_def)
qed

lemma reconnect_main:
  "main env_reconnect ''all-or-nothing'' ''s''
     = (0, [Connect, OpenCursor 0, ReadFile ''s/a.sql'', Execute 0 (code_points ''SELECT 1;''),
            Connect, ReadFile ''s/b.sql'', Commit 4,
            OpenReport ''committed_files'', WriteReport ''committed_files'' [''s/a.sql''],
            OpenReport ''file_anomalies'', WriteReport ''file_anomalies'' [],
            OpenReport ''errors'', WriteReport ''errors'' [],
            OpenReport ''empty_files'', WriteReport ''empty_files'' [''s/b.sql''],
            OpenReport ''unprocessed_files'', WriteReport ''unprocessed_files'' [],
            CloseConn 4])"
proof -
  have c: "connect_db env_reconnect 5 3 [] = (Some 0, [Connect])"
    by (simp add: connect_db_def upto_1_5 env_reconnect_def env_retry_def)
  show ?thesis
    by (simp add: main_def transaction_mode_choices_def c reconnect_run main_finally_def)
       (simp add: env_reconnect_def env_retry_def)
qed

lemma lost_scan: "collect_file_paths env_lost ''s'' ''.sql'' = ([''s/a.sql'', ''s/b.sql''], [])"
  by (simp add: scan_defs env_lost_def env_reconnect_def env_retry_def)

lemma lost_workflow:
  "process_all_or_nothing env_lost (Some 0) [''s/a.sql'', ''s/b.sql''] [Connect]
     = \<lparr>w_conn = None, w_cursor = Some \<lparr>cur_conn = 0, cur_closed = False\<rparr>,
        w_processed = [''s/a.sql''], w_errors = [''s/b.sql''], w_empty_files = [],
        w_fatal_error_occurred = True, w_failed_all_or_nothing = True,
        w_trace = [Connect, OpenCursor 0, ReadFile ''s/a.sql'', Execute 0 (code_points ''SELECT 1;''),
                   Connect, Sleep 3, Connect, Sleep 3, Connect, Sleep 3, Connect, Sleep 3,
                   Connect, Log CannotRollback]\<rparr>"
  by (simp add: process_all_or_nothing_def all_or_nothing_iteration_def step_defs
      connect_db_def upto_1_5 rollback_defs env_lost_def env_reconnect_def env_retry_def)

lemma lost_run:
  "execute_sql_scripts_in_dir env_lost (Some 0) ''s'' ''all-or-nothing'' [Connect]
     = (RetResults
          \<lparr>processed = [''s/a.sql''], file_anomalies = [], errors = [''s/b.sql''],
           empty_files = [], fatal_error_occurred = True,
           failed_all_or_nothing = True, connection = None,
           cursor = Some \<lparr>cur_conn = 0, cur_closed = False\<rparr>,
           unprocessed_files = []\<rparr>,
        [Connect, OpenCursor 0, ReadFile ''s/a.sql'', Execute 0 (code_points ''SELECT 1;''),
         Connect, Sleep 3, Connect, Sleep 3, Connect, Sleep 3, Connect, Sleep 3,
         Connect, Log CannotRollback,
         OpenReport ''executable_files'', WriteReport ''executable_files'' [''s/a.sql''],
         OpenReport ''file_anomalies'', WriteReport ''file_anomalies'' [],
         OpenReport ''errors'', WriteReport ''errors'' [''s/b.sql''],
         OpenReport ''empty_files'', WriteReport ''empty_files'' [],
         OpenReport ''unprocessed_files'', WriteReport ''unprocessed_files'' []])"
proof -
  have d: "is_dir env_lost ''s'' = Inr True" by (simp add: env_lost_def env_reconnect_def env_retry_def)
  show ?thesis
    by (simp add: start_defs d lost_scan natsorted_a_b lost_workflow)
       (simp add: finish_defs env_lost_def env_reconnect_def env_retry_def)
qed

text \<open>
  C2 fails on the code when the reconnection succeeds. The connection 0 is found closed
  after s/a.sql was executed on it; \<open>_ensure_connection\<close> opens the connection 4 and the loop
  goes on with the blank file s/b.sql. Nothing is executed on connection 4 and nothing is
  rolled back; the final commit is issued on connection 4, the run ends with
  \<open>failed_all_or_nothing = False\<close> and without a fatal error, s/a.sql is reported under
  committed_files and the program exits with status 0. When the reconnection fails
  instead, the sibling branch of the same loop marks the run as failed and s/a.sql is
  reported under executable_files.
\<close>
theorem reconnection_commits_lost_transaction:
  "closed_at env_reconnect 4 0
   \<and> execute_sql_scripts_in_dir env_reconnect (Some 0) ''s'' ''all-or-nothing'' [Connect]
     = (RetResults
          \<lparr>processed = [''s/a.sql''], file_anomalies = [], errors = [],
           empty_files = [''s/b.sql''], fatal_error_occurred = False,
           failed_all_or_nothing = False, connection = Some 4,
           cursor = Some \<lparr>cur_conn = 0, cur_closed = False\<rparr>,
           unprocessed_files = []\<rparr>,
        [Connect, OpenCursor 0, ReadFile ''s/a.sql'', Execute 0 (code_points ''SELECT 1;''),
         Connect, ReadFile ''s/b.sql'', Commit 4,
         OpenReport ''committed_files'', WriteReport ''committed_files'' [''s/a.sql''],
         OpenReport ''file_anomalies'', WriteReport ''file_anomalies'' [],
         OpenReport ''errors'', WriteReport ''errors'' [],
         OpenReport ''empty_files'', WriteReport ''empty_files'' [''s/b.sql''],
         OpenReport ''unprocessed_files'', WriteReport ''unprocessed_files'' []])
   \<and> main env_reconnect ''all-or-nothing'' ''s''
     = (0, [Connect, OpenCursor 0, ReadFile ''s/a.sql'', Execute 0 (code_points ''SELECT 1;''),
            Connect, ReadFile ''s/b.sql'', Commit 4,
            OpenReport ''committed_files'', WriteReport ''committed_files'' [''s/a.sql''],
            OpenReport ''file_anomalies'', WriteReport ''file_anomalies'' [],
            OpenReport ''errors'', WriteReport ''errors'' [],
            OpenReport ''empty_files'', WriteReport ''empty_files'' [''s/b.sql''],
            OpenReport ''unprocessed_files'', WriteReport ''unprocessed_files'' [],
            CloseConn 4])
   \<and> execute_sql_scripts_in_dir env_lost (Some 0) ''s'' ''all-or-nothing'' [Connect]
     = (RetResults
          \<lparr>processed = [''s/a.sql''], file_anomalies = [], errors = [''s/b.sql''],
           empty_files = [], fatal_error_occurred = True,
           failed_all_or_nothing = True, connection = None,
           cursor = Some \<lparr>cur_conn = 0, cur_closed = False\<rparr>,
           unprocessed_files = []\<rparr>,
        [Connect, OpenCursor 0, ReadFile ''s/a.sql'', Execute 0 (code_points ''SELECT 1;''),
         Connect, Sleep 3, Connect, Sleep 3, Connect, Sleep 3, Connect, Sleep 3,
         Connect, Log CannotRollback,
         OpenReport ''executable_files'', WriteReport ''executable_files'' [''s/a.sql''],
         OpenReport ''file_anomalies'', WriteReport ''file_anomalies'' [],
         OpenReport ''errors'', WriteReport ''errors'' [''s/b.sql''],
         OpenReport ''empty_files'', WriteReport ''empty_files'' [],
         OpenReport ''unprocessed_files'', WriteReport ''unprocessed_files'' []])"
proof -
  have c: "closed_at env_reconnect 4 0" by (simp add: env_reconnect_def env_retry_def)
  show ?thesis using c reconnect_run reconnect_main lost_run by (intro conjI)
qed


subsection \<open>Three scripts, the second of them rejected\<close>

lemma three_scan: "collect_file_paths env_three ''s'' ''.sql'' = ([''s/10.sql'', ''s/2.sql'', ''s/1.sql''], [])"
  by (simp add: scan_defs env_three_def env_retry_def)

lemma three_sorted: "natsorted [''s/10.sql'', ''s/2.sql'', ''s/1.sql''] = [''s/1.sql'', ''s/2.sql'', ''s/10.sql'']"
  by (simp add: natsort_defs)

lemma three_healthy: "database_healthy env_three 0"
  by (simp add: database_healthy_def env_three_def env_retry_def)

lemma three_ok1: "script_succeeds env_three 0 ''s/1.sql'' (code_points ''SELECT 1;'')"
  by (simp add: script_succeeds_def env_three_def env_retry_def)

lemma three_ok2: "script_succeeds env_three 0 ''s/10.sql'' (code_points ''SELECT 1;'')"
  by (simp add: script_succeeds_def env_three_def env_retry_def)

lemma three_bad: "script_fails env_three 0 ''s/2.sql'' (code_points ''SELEC 1;'') Psycopg2Error"
  by (simp add: script_fails_def is_psycopg2_error_def
      env_three_def env_retry_def)

lemma three_dir: "is_dir env_three ''s'' = Inr True"
  by (simp add: env_three_def env_retry_def)

lemmas loop_defs =
  process_per_file_def per_file_iteration_def process_per_file_until_error_def
  until_error_iteration_def

lemma three_per_file_workflow:
  "process_per_file env_three (Some 0) [''s/1.sql'', ''s/2.sql'', ''s/10.sql''] [Connect]
     = \<lparr>w_conn = Some 0, w_cursor = Some \<lparr>cur_conn = 0, cur_closed = True\<rparr>,
        w_processed = [''s/1.sql'', ''s/10.sql''], w_errors = [''s/2.sql''], w_empty_files = [],
        w_fatal_error_occurred = False, w_failed_all_or_nothing = False,
        w_trace = [Connect,
                   ReadFile ''s/1.sql'', OpenCursor 0, Execute 0 (code_points ''SELECT 1;''), Commit 0, CloseCursor 0,
                   ReadFile ''s/2.sql'', OpenCursor 0, Execute 0 (code_points ''SELEC 1;''),
                   GetStatus 0, Log AttemptingRollback, Rollback 0, Log RollbackSuccessful,
                   CloseCursor 0,
                   ReadFile ''s/10.sql'', OpenCursor 0, Execute 0 (code_points ''SELECT 1;''), Commit 0, CloseCursor 0]\<rparr>"
  by (simp add: loop_defs step_defs rollback_defs env_three_def env_retry_def)



lemma three_per_file_run:
  "execute_sql_scripts_in_dir env_three (Some 0) ''s'' ''per-file'' [Connect]
     = (RetResults
          \<lparr>processed = [''s/1.sql'', ''s/10.sql''], file_anomalies = [], errors = [''s/2.sql''],
           empty_files = [], fatal_error_occurred = False, failed_all_or_nothing = False,
           connection = Some 0, cursor = None, unprocessed_files = []\<rparr>,
        [Connect,
         ReadFile ''s/1.sql'', OpenCursor 0, Execute 0 (code_points ''SELECT 1;''), Commit 0, CloseCursor 0,
         ReadFile ''s/2.sql'', OpenCursor 0, Execute 0 (code_points ''SELEC 1;''),
         GetStatus 0, Log AttemptingRollback, Rollback 0, Log RollbackSuccessful,
         CloseCursor 0,
         ReadFile ''s/10.sql'', OpenCursor 0, Execute 0 (code_points ''SELECT 1;''), Commit 0, CloseCursor 0,
         OpenReport ''committed_files'', WriteReport ''committed_files'' [''s/1.sql'', ''s/10.sql''],
         OpenReport ''file_anomalies'', WriteReport ''file_anomalies'' [],
         OpenReport ''errors'', WriteReport ''errors'' [''s/2.sql''],
         OpenReport ''empty_files'', WriteReport ''empty_files'' [],
         OpenReport ''unprocessed_files'', WriteReport ''unprocessed_files'' []])"
  by (simp add: start_defs three_dir three_scan three_sorted three_per_file_workflow)
     (simp add: finish_defs env_three_def env_retry_def)


subsection \<open>A connection dropped between two files\<close>




lemma dropped_first_per_file:
  "per_file_loop env_dropped [''s/a.sql''] (workflow_start (Some 0) [Connect])
     = \<lparr>w_conn = Some 0, w_cursor = Some \<lparr>cur_conn = 0, cur_closed = False\<rparr>,
        w_processed = [''s/a.sql''], w_errors = [], w_empty_files = [],
        w_fatal_error_occurred = False, w_failed_all_or_nothing = False,
        w_trace = [Connect, ReadFile ''s/a.sql'', OpenCursor 0, Execute 0 (code_points ''SELECT 1;''), Commit 0]\<rparr>"
  by (simp add: loop_defs step_defs rollback_defs env_dropped_def env_retry_def)


lemma dropped_reconnect:
  "connect_db env_dropped 5 3 [Connect, ReadFile ''s/a.sql'', OpenCursor 0, Execute 0 (code_points ''SELECT 1;''), Commit 0]
     = (None, [Connect, ReadFile ''s/a.sql'', OpenCursor 0, Execute 0 (code_points ''SELECT 1;''), Commit 0,
               Connect, Sleep 3, Connect, Sleep 3, Connect, Sleep 3, Connect, Sleep 3, Connect])"
  by (simp add: connect_db_def upto_1_5 env_dropped_def env_retry_def)




lemma dropped_lost_per_file:
  "\<not> w_fatal_error_occurred (per_file_loop env_dropped [''s/a.sql''] (workflow_start (Some 0) [Connect]))
   \<and> connection_lost env_dropped (per_file_loop env_dropped [''s/a.sql''] (workflow_start (Some 0) [Connect]))"
  unfolding dropped_first_per_file
  by (simp add: connection_lost_def dropped_reconnect) (simp add: env_dropped_def env_retry_def)


text \<open>
  The files 1.sql, 2.sql and 10.sql, of which the database rejects 2.sql, in per-file mode:
  the rollback is issued right after the failed execution, and 10.sql is executed and
  committed after it. And the files a.sql, b.sql and c.sql on a connection that is dropped
  for good after a.sql: the loop reaches b.sql with the connection lost, and the workflow is
  fatal.
\<close>
theorem per_file_continues_after_error_witness:
  "is_dir env_three ''s'' = Inr True
   \<and> collect_file_paths env_three ''s'' ''.sql'' = ([''s/10.sql'', ''s/2.sql'', ''s/1.sql''], [])
   \<and> natsorted [''s/10.sql'', ''s/2.sql'', ''s/1.sql''] = [''s/1.sql'', ''s/2.sql'', ''s/10.sql'']
   \<and> database_healthy env_three 0
   \<and> script_succeeds env_three 0 ''s/1.sql'' (code_points ''SELECT 1;'')
   \<and> script_fails env_three 0 ''s/2.sql'' (code_points ''SELEC 1;'') Psycopg2Error
   \<and> script_succeeds env_three 0 ''s/10.sql'' (code_points ''SELECT 1;'')
   \<and> (\<exists>r tr'. execute_sql_scripts_in_dir env_three (Some 0) ''s'' ''per-file'' [Connect] = (RetResults r, tr')
         \<and> processed r = [''s/1.sql'', ''s/10.sql''] \<and> errors r = [''s/2.sql'']
         \<and> empty_files r = [] \<and> unprocessed_files r = []
         \<and> \<not> fatal_error_occurred r \<and> connection r = Some 0
         \<and> (\<exists>evs1 evs2 evs3 evs4. tr' = [Connect] @ evs1 @ evs2 @ evs3 @ evs4
               \<and> committed_events 0 ''s/1.sql'' (code_points ''SELECT 1;'') evs1
               \<and> rolled_back_events env_three 0 ''s/2.sql'' (code_points ''SELEC 1;'') (length [Connect] + length evs1) evs2
               \<and> committed_events 0 ''s/10.sql'' (code_points ''SELECT 1;'') evs3))
   \<and> snd (execute_sql_scripts_in_dir env_three (Some 0) ''s'' ''per-file'' [Connect])
       = [Connect,
          ReadFile ''s/1.sql'', OpenCursor 0, Execute 0 (code_points ''SELECT 1;''), Commit 0, CloseCursor 0,
          ReadFile ''s/2.sql'', OpenCursor 0, Execute 0 (code_points ''SELEC 1;''),
          GetStatus 0, Log AttemptingRollback, Rollback 0, Log RollbackSuccessful,
          CloseCursor 0,
          ReadFile ''s/10.sql'', OpenCursor 0, Execute 0 (code_points ''SELECT 1;''), Commit 0, CloseCursor 0,
          OpenReport ''committed_files'', WriteReport ''committed_files'' [''s/1.sql'', ''s/10.sql''],
          OpenReport ''file_anomalies'', WriteReport ''file_anomalies'' [],
          OpenReport ''errors'', WriteReport ''errors'' [''s/2.sql''],
          OpenReport ''empty_files'', WriteReport ''empty_files'' [],
          OpenReport ''unprocessed_files'', WriteReport ''unprocessed_files'' []]
   \<and> (\<forall>t c'. \<not> closed_at env_three t c')
   \<and> \<not> w_fatal_error_occurred
         (process_per_file env_three (Some 0) [''s/1.sql'', ''s/2.sql'', ''s/10.sql''] [Connect])
   \<and> recorded (process_per_file env_three (Some 0) [''s/1.sql'', ''s/2.sql'', ''s/10.sql''] [Connect])
       = mset [''s/1.sql'', ''s/2.sql'', ''s/10.sql'']
   \<and> connection_lost env_dropped (per_file_loop env_dropped [''s/a.sql''] (workflow_start (Some 0) [Connect]))
   \<and> w_fatal_error_occurred
         (process_per_file env_dropped (Some 0) [''s/a.sql'', ''s/b.sql'', ''s/c.sql''] [Connect])"
proof -
  note th = per_file_continues_after_error[where env = env_three and sql_dir = "''s''"
      and found = "[''s/10.sql'', ''s/2.sql'', ''s/1.sql'']" and anomalies = "[]"
      and ?ok1.0 = "''s/1.sql''" and bad = "''s/2.sql''" and ?ok2.0 = "''s/10.sql''" and c = 0
      and ?s1.0 = "code_points ''SELECT 1;''" and sb = "code_points ''SELEC 1;''" and e = Psycopg2Error
      and ?s2.0 = "code_points ''SELECT 1;''" and tr = "[Connect]"
      and files = "[''s/1.sql'', ''s/2.sql'', ''s/10.sql'']"]
  have open_always: "\<forall>t c'. \<not> closed_at env_three t c'"
    by (simp add: env_three_def env_retry_def)
  have all: "\<not> w_fatal_error_occurred
         (process_per_file env_three (Some 0) [''s/1.sql'', ''s/2.sql'', ''s/10.sql''] [Connect])
     \<and> recorded (process_per_file env_three (Some 0) [''s/1.sql'', ''s/2.sql'', ''s/10.sql''] [Connect])
       = mset [''s/1.sql'', ''s/2.sql'', ''s/10.sql'']"
    using th open_always by blast
  have ex: "\<exists>r tr'. execute_sql_scripts_in_dir env_three (Some 0) ''s'' ''per-file'' [Connect] = (RetResults r, tr')
         \<and> processed r = [''s/1.sql'', ''s/10.sql''] \<and> errors r = [''s/2.sql'']
         \<and> empty_files r = [] \<and> unprocessed_files r = []
         \<and> \<not> fatal_error_occurred r \<and> connection r = Some 0
         \<and> (\<exists>evs1 evs2 evs3 evs4. tr' = [Connect] @ evs1 @ evs2 @ evs3 @ evs4
               \<and> committed_events 0 ''s/1.sql'' (code_points ''SELECT 1;'') evs1
               \<and> rolled_back_events env_three 0 ''s/2.sql'' (code_points ''SELEC 1;'') (length [Connect] + length evs1) evs2
               \<and> committed_events 0 ''s/10.sql'' (code_points ''SELECT 1;'') evs3)"
    using th three_dir three_scan three_sorted three_healthy three_ok1 three_bad three_ok2
    by blast
  note th2 = per_file_continues_after_error[where env = env_dropped and c = 0 and tr = "[Connect]"
      and files = "[''s/a.sql'', ''s/b.sql'', ''s/c.sql'']" and sql_dir = "[]" and found = "[]"
      and anomalies = "[]" and ?ok1.0 = "[]" and bad = "[]" and ?ok2.0 = "[]"
      and ?s1.0 = "[]" and sb = "[]" and e = OSError and ?s2.0 = "[]"]
  have t1: "take 1 [''s/a.sql'', ''s/b.sql'', ''s/c.sql''] = [''s/a.sql'']" by simp
  have "\<exists>n<length [''s/a.sql'', ''s/b.sql'', ''s/c.sql''].
               \<not> w_fatal_error_occurred (per_file_loop env_dropped (take n [''s/a.sql'', ''s/b.sql'', ''s/c.sql''])
                     (workflow_start (Some 0) [Connect]))
               \<and> connection_lost env_dropped (per_file_loop env_dropped (take n [''s/a.sql'', ''s/b.sql'', ''s/c.sql''])
                     (workflow_start (Some 0) [Connect]))"
    using dropped_lost_per_file by (intro exI[of _ 1]) (simp only: t1, simp)
  then have fatal: "w_fatal_error_occurred
         (process_per_file env_dropped (Some 0) [''s/a.sql'', ''s/b.sql'', ''s/c.sql''] [Connect])"
    using th2 by blast
  show ?thesis
    using three_dir three_scan three_sorted three_healthy three_ok1 three_bad three_ok2 ex
      three_per_file_run open_always all dropped_lost_per_file fatal
    by simp
qed





end
